(* ===== verification/Prelude.thy ===== *)
theory Prelude
  imports Main "HOL-Library.Word" "HOL-Library.AList"
begin

text \<open>
  Shared vocabulary of the development: the Rust integer types, the \<open>Result\<close> and panic
  conventions, the collections of simplification rules the components fill, and the generic
  lemmas on lists, options and words their proofs rest on.

  Conventions used by every component theory:
  \<^item> \<open>Result<T, E>\<close> is the sum \<open>'e + 't\<close> with \<open>Inl\<close> for \<open>Err\<close>; the \<open>?\<close> operator is
    \<open>bind_result\<close> and \<open>map_err\<close> is \<open>map_err\<close>;
  \<^item> a function that can panic returns an \<open>option\<close>, \<open>None\<close> being the panic;
  \<^item> \<open>Instant\<close>, \<open>Duration\<close> and SQL timestamps are natural numbers (milliseconds);
  \<^item> a function of a crate that is not in the repository (an S3 client, an HTTP client, a hash
    function) is an argument of the definitions that call it.
\<close>

section \<open>Machine integers\<close>

type_synonym u8 = "8 word"
type_synonym u16 = "16 word"
type_synonym u32 = "32 word"
type_synonym u64 = "64 word"
type_synonym i32 = "32 word"
type_synonym u256 = "256 word"

text \<open>\<open>H160\<close> is ordered like the big-endian number of its bytes.\<close>

type_synonym address = "160 word"

type_synonym bytes = "u8 list"
type_synonym instant = nat
type_synonym duration = nat

text \<open>
  An \<open>INTEGER\<close> column is an \<open>i32\<close>: the same 32 bits as the \<open>u32\<close> it is cast from
  (\<open>as i32\<close>, \<open>as u32\<close>), compared as a two's complement number.
\<close>

definition i32_less :: "i32 \<Rightarrow> i32 \<Rightarrow> bool" where
  "i32_less a b \<longleftrightarrow> sint a < sint b"

section \<open>Results\<close>

definition bind_result :: "'e + 'a \<Rightarrow> ('a \<Rightarrow> 'e + 'b) \<Rightarrow> 'e + 'b" where
  "bind_result r f = (case r of Inl e \<Rightarrow> Inl e | Inr x \<Rightarrow> f x)"

definition map_err :: "('e \<Rightarrow> 'f) \<Rightarrow> 'e + 'a \<Rightarrow> 'f + 'a" where
  "map_err f r = (case r of Inl e \<Rightarrow> Inl (f e) | Inr x \<Rightarrow> Inr x)"

lemma bind_result_simps [simp]:
  "bind_result (Inl e) f = Inl e"
  "bind_result (Inr x) f = f x"
  by (simp_all add: bind_result_def)

lemma map_err_simps [simp]:
  "map_err g (Inl e) = Inl (g e)"
  "map_err g (Inr x) = Inr x"
  by (simp_all add: map_err_def)

lemma bind_result_eq_Inr [simp]:
  "bind_result r f = Inr y \<longleftrightarrow> (\<exists>x. r = Inr x \<and> f x = Inr y)"
  by (cases r) auto

lemma map_err_eq_Inr [simp]: "map_err g r = Inr y \<longleftrightarrow> r = Inr y"
  by (cases r) auto

section \<open>Lists of optional values\<close>

lemma those_map_Some [simp]:
  "\<forall>x\<in>set xs. f x = Some (g x) \<Longrightarrow> those (map f xs) = Some (map g xs)"
  by (induction xs) auto

lemma those_map_eq_Some:
  "those (map f xs) = Some ys \<longleftrightarrow> (\<forall>x\<in>set xs. f x \<noteq> None) \<and> ys = map (\<lambda>x. the (f x)) xs"
  by (induction xs arbitrary: ys) (auto split: option.splits)

lemma find_SomeD: "List.find P xs = Some x \<Longrightarrow> x \<in> set xs \<and> P x"
  by (auto simp: find_Some_iff)

section \<open>Words\<close>

lemma unat_Suc_less:
  fixes a b :: "'l::len word"
  assumes "a < b"
  shows "unat (a + 1) = Suc (unat a)"
proof -
  have "unat a < unat b" using assms by (simp add: word_less_nat_alt)
  also have "unat b < 2 ^ LENGTH('l)" by simp
  finally have "Suc (unat a) < 2 ^ LENGTH('l) \<or> Suc (unat a) = 2 ^ LENGTH('l)" by linarith
  moreover have "Suc (unat a) \<noteq> 2 ^ LENGTH('l)"
    using \<open>unat a < unat b\<close> unsigned_less [of b, where 'a = nat] by linarith
  ultimately show ?thesis by (simp add: unat_word_ariths)
qed

lemma word_less_succ:
  fixes a :: "'l::len word"
  assumes "a \<noteq> - 1"
  shows "a < a + 1"
proof -
  have "a < - 1" using assms by (simp add: word_order.not_eq_extremum)
  then have "unat (a + 1) = Suc (unat a)" by (rule unat_Suc_less)
  then show ?thesis by (simp add: word_less_nat_alt)
qed

text \<open>The measure of a loop that counts a word up to a bound.\<close>

lemma unat_distance_decreases:
  fixes a b :: "'l::len word"
  assumes "a < b"
  shows "unat b - unat (a + 1) < unat b - unat a"
proof -
  have "unat a < unat b" using assms by (simp add: word_less_nat_alt)
  then show ?thesis using unat_Suc_less [OF assms] by simp
qed

section \<open>Machines driven by events\<close>

text \<open>
  A component whose callers interleave its operations is a machine: \<open>apply\<close> performs one event
  and is \<open>None\<close> where the operation panics or the event is not possible. A property of every
  state a machine reaches follows from one lemma per event.
\<close>

fun run_events :: "('e \<Rightarrow> 's \<Rightarrow> 's option) \<Rightarrow> 'e list \<Rightarrow> 's \<Rightarrow> 's option" where
  "run_events step [] s = Some s"
| "run_events step (e # es) s =
     (case step e s of None \<Rightarrow> None | Some s' \<Rightarrow> run_events step es s')"

text \<open>
  What the callers of a machine are relied upon to do is a condition \<open>ok\<close> on the events of a run, each in the
  state it meets; the machine itself accepts the other events too.
\<close>

fun run_ok :: "('e \<Rightarrow> 's \<Rightarrow> 's option) \<Rightarrow> ('e \<Rightarrow> 's \<Rightarrow> bool) \<Rightarrow> 'e list \<Rightarrow> 's \<Rightarrow> bool" where
  "run_ok step ok [] s \<longleftrightarrow> True"
| "run_ok step ok (e # es) s \<longleftrightarrow>
     ok e s \<and> (case step e s of None \<Rightarrow> True | Some s' \<Rightarrow> run_ok step ok es s')"

locale guarded_machine =
  fixes step :: "'e \<Rightarrow> 's \<Rightarrow> 's option"
    and ok :: "'e \<Rightarrow> 's \<Rightarrow> bool"
    and start :: "'s \<Rightarrow> bool"
    and inv :: "'s \<Rightarrow> bool"
  assumes start_inv: "start s \<Longrightarrow> inv s"
    and step_inv: "inv s \<Longrightarrow> ok e s \<Longrightarrow> step e s = Some s' \<Longrightarrow> inv s'"
begin

lemma run_keeps_inv: "inv s \<Longrightarrow> run_ok step ok es s \<Longrightarrow> run_events step es s = Some s' \<Longrightarrow> inv s'"
  by (induction es arbitrary: s) (auto split: option.splits dest: step_inv)

lemma run_inv: "start s \<Longrightarrow> run_ok step ok es s \<Longrightarrow> run_events step es s = Some s' \<Longrightarrow> inv s'"
  by (blast intro: run_keeps_inv start_inv)

end

text \<open>If moreover no event in order fails, no run in order does.\<close>

locale total_machine = guarded_machine +
  assumes step_total: "inv s \<Longrightarrow> ok e s \<Longrightarrow> step e s \<noteq> None"
begin

lemma run_total_inv: "inv s \<Longrightarrow> run_ok step ok es s \<Longrightarrow> \<exists>s'. run_events step es s = Some s' \<and> inv s'"
proof (induction es arbitrary: s)
  case (Cons e es)
  obtain s1 where "step e s = Some s1" using step_total Cons.prems by fastforce
  then show ?case using Cons.IH [of s1] Cons.prems step_inv [of s e s1] by simp
qed simp

lemma run_total: "start s \<Longrightarrow> run_ok step ok es s \<Longrightarrow> run_events step es s \<noteq> None"
  using run_total_inv start_inv by fastforce

end

locale machine =
  fixes step :: "'e \<Rightarrow> 's \<Rightarrow> 's option"
    and start :: "'s \<Rightarrow> bool"
    and inv :: "'s \<Rightarrow> bool"
  assumes start_inv: "start s \<Longrightarrow> inv s"
    and step_inv: "inv s \<Longrightarrow> step e s = Some s' \<Longrightarrow> inv s'"

lemma run_ok_True [simp]: "run_ok step (\<lambda>_ _. True) es s"
  by (induction es arbitrary: s) (auto split: option.split)

sublocale machine \<subseteq> guarded: guarded_machine step "\<lambda>_ _. True" start inv
  by unfold_locales (blast intro: start_inv step_inv)+

context machine
begin

lemma run_inv: "start s \<Longrightarrow> run_events step es s = Some s' \<Longrightarrow> inv s'"
  by (rule guarded.run_inv) simp_all

end

section \<open>Association lists\<close>

text \<open>
  A \<open>HashMap\<close> is an association list with distinct keys: \<open>insert\<close> is \<open>AList.update\<close>,
  \<open>remove\<close> is \<open>AList.delete\<close> and \<open>get\<close> is \<open>map_of\<close>. Its iteration order, which Rust
  leaves open, is the order of the list.
\<close>

lemma length_alist_update:
  "length (AList.update k v al) = (if map_of al k = None then Suc (length al) else length al)"
  by (induction al) auto

lemma length_alist_delete:
  "distinct (map fst al) \<Longrightarrow>
   length (AList.delete k al) = (if map_of al k = None then length al else length al - 1)"
proof (induction al)
  case (Cons a al)
  have "map_of al k \<noteq> None \<Longrightarrow> 0 < length al" by (cases al) auto
  moreover have "fst a = k \<Longrightarrow> map_of al k = None"
    using Cons.prems by (auto simp: map_of_eq_None_iff)
  ultimately show ?case using Cons by (auto simp: AList.delete_eq)
qed (simp add: AList.delete_eq)

lemma sum_alist_update:
  fixes f :: "'k \<times> 'v \<Rightarrow> nat"
  assumes "distinct (map fst al)"
  shows "sum_list (map f (AList.update k v al)) + (case map_of al k of None \<Rightarrow> 0 | Some w \<Rightarrow> f (k, w))
    = sum_list (map f al) + f (k, v)"
  using assms by (induction al) (auto split: option.splits)

lemma sum_alist_delete:
  fixes f :: "'k \<times> 'v \<Rightarrow> nat"
  assumes "distinct (map fst al)"
  shows "sum_list (map f (AList.delete k al)) + (case map_of al k of None \<Rightarrow> 0 | Some w \<Rightarrow> f (k, w))
    = sum_list (map f al)"
  using assms
proof (induction al)
  case (Cons a al)
  have "fst a = k \<Longrightarrow> AList.delete k al = al"
    using Cons.prems by (auto simp: AList.delete_eq filter_id_conv image_iff)
  then show ?case using Cons by (cases a) (auto simp: AList.delete_eq split: option.splits)
qed (simp add: AList.delete_eq)

lemma map_of_filter_keys:
  "map_of (filter (\<lambda>(k, _). P k) al) k = (if P k then map_of al k else None)"
  by (induction al) auto

end
