(* ===== verification/DataAvailabilityDal.thy ===== *)
theory DataAvailabilityDal
  imports Prelude
begin

text \<open>
  The data-availability tables of the node database and the queries on them:
  \<^verbatim>\<open>core/lib/dal/src/models/storage_data_availability.rs\<close> (the structs) and
  \<^verbatim>\<open>core/lib/dal/src/data_availability_dal.rs\<close> (the queries). A table is the list of its rows
  in insertion order; a query is a function on the list that follows the SQL text: its
  \<open>WHERE\<close> clause is a filter, \<open>ORDER BY\<close> a stable sort and \<open>LIMIT\<close> a prefix. A row keeps
  what the column keeps (a status or an operation type is its text), so that the conversions of
  the code, and the panics in them, are part of the model.
\<close>

section \<open>Structs\<close>

datatype OperationStatus = Pending | InProgress | Completed | Failed string

fun OperationStatus_to_string :: "OperationStatus \<Rightarrow> string" where
  "OperationStatus_to_string Pending = ''pending''"
| "OperationStatus_to_string InProgress = ''in_progress''"
| "OperationStatus_to_string Completed = ''completed''"
| "OperationStatus_to_string (Failed _) = ''failed''"

datatype OperationType = OtCommit | OtProof | OtExecute

definition OperationType_from_str :: "string \<Rightarrow> string + OperationType" where
  "OperationType_from_str s =
     (if s = ''commit'' then Inr OtCommit
      else if s = ''proof'' then Inr OtProof
      else if s = ''execute'' then Inr OtExecute
      else Inl (''Unrecognized operation type: '' @ s))"

fun OperationType_to_string :: "OperationType \<Rightarrow> string" where
  "OperationType_to_string OtCommit = ''commit''"
| "OperationType_to_string OtProof = ''proof''"
| "OperationType_to_string OtExecute = ''execute''"

type_synonym uuid = nat

record PendingIpfsOperation =
  op_id :: uuid
  op_operation_type :: OperationType
  op_data :: bytes
  op_attempts :: u32
  op_last_attempt :: "instant option"
  op_created_at :: instant
  op_status :: OperationStatus
  op_ipfs_hash :: "string option"
  op_requires_mintlayer :: bool

record PendingMintlayerBatch =
  mb_id :: uuid
  mb_ipfs_hashes :: "string list"
  mb_attempts :: u32
  mb_last_attempt :: "instant option"
  mb_created_at :: instant
  mb_status :: OperationStatus
  mb_tx_hash :: "string option"

text \<open>\<open>Uuid::new_v4()\<close> and \<open>Utc::now()\<close> are the arguments.\<close>

definition PendingMintlayerBatch_new :: "uuid \<Rightarrow> instant \<Rightarrow> PendingMintlayerBatch" where
  "PendingMintlayerBatch_new new_id now =
     \<lparr> mb_id = new_id, mb_ipfs_hashes = [], mb_attempts = 0, mb_last_attempt = None,
       mb_created_at = now, mb_status = Pending, mb_tx_hash = None \<rparr>"

section \<open>Tables\<close>

record ipfs_row =
  ir_id :: uuid
  ir_operation_type :: string
  ir_data :: bytes
  ir_attempts :: i32
  ir_last_attempt :: "instant option"
  ir_created_at :: instant
  ir_status :: string
  ir_ipfs_hash :: "string option"
  ir_requires_mintlayer :: bool

record mintlayer_row =
  mr_id :: uuid
  mr_ipfs_hashes :: "string list"
  mr_attempts :: i32
  mr_last_attempt :: "instant option"
  mr_created_at :: instant
  mr_status :: string
  mr_tx_hash :: "string option"

record da_db =
  pending_ipfs_operations :: "ipfs_row list"
  pending_mintlayer_batches :: "mintlayer_row list"

definition MAX_RETRY_ATTEMPTS :: i32 where
  "MAX_RETRY_ATTEMPTS = 10"

definition MAX_BATCH_SIZE :: nat where
  "MAX_BATCH_SIZE = 100"

definition status_of_text :: "string \<Rightarrow> OperationStatus option" where
  "status_of_text s =
     (if s = ''pending'' then Some Pending
      else if s = ''in_progress'' then Some InProgress
      else if s = ''completed'' then Some Completed
      else if s = ''failed'' then Some (Failed [])
      else None)"

section \<open>Queries of the two work queues\<close>

definition ipfs_row_to_op :: "ipfs_row \<Rightarrow> PendingIpfsOperation option" where
  "ipfs_row_to_op r =
     (case OperationType_from_str (ir_operation_type r) of
        Inl _ \<Rightarrow> None
      | Inr ty \<Rightarrow>
         (case status_of_text (ir_status r) of
            None \<Rightarrow> None
          | Some st \<Rightarrow>
              Some \<lparr> op_id = ir_id r, op_operation_type = ty, op_data = ir_data r,
                     op_attempts = ir_attempts r, op_last_attempt = ir_last_attempt r,
                     op_created_at = ir_created_at r, op_status = st,
                     op_ipfs_hash = ir_ipfs_hash r,
                     op_requires_mintlayer = ir_requires_mintlayer r \<rparr>))"

definition is_pending_text :: "string \<Rightarrow> i32 \<Rightarrow> bool" where
  "is_pending_text status attempts \<longleftrightarrow>
     status = ''pending'' \<or> (status = ''failed'' \<and> i32_less attempts MAX_RETRY_ATTEMPTS)"

definition select_pending_ipfs :: "da_db \<Rightarrow> ipfs_row list" where
  "select_pending_ipfs db =
     take MAX_BATCH_SIZE
       (sort_key ir_created_at
          (filter (\<lambda>r. is_pending_text (ir_status r) (ir_attempts r)) (pending_ipfs_operations db)))"

definition get_pending_ipfs_operations :: "da_db \<Rightarrow> PendingIpfsOperation list option" where
  "get_pending_ipfs_operations db = those (map ipfs_row_to_op (select_pending_ipfs db))"

definition mintlayer_row_to_batch :: "mintlayer_row \<Rightarrow> PendingMintlayerBatch option" where
  "mintlayer_row_to_batch r =
     (case status_of_text (mr_status r) of
        None \<Rightarrow> None
      | Some st \<Rightarrow>
          Some \<lparr> mb_id = mr_id r, mb_ipfs_hashes = mr_ipfs_hashes r, mb_attempts = mr_attempts r,
                 mb_last_attempt = mr_last_attempt r, mb_created_at = mr_created_at r,
                 mb_status = st, mb_tx_hash = mr_tx_hash r \<rparr>)"

definition select_pending_mintlayer :: "da_db \<Rightarrow> mintlayer_row list" where
  "select_pending_mintlayer db =
     take MAX_BATCH_SIZE
       (sort_key mr_created_at
          (filter (\<lambda>r. is_pending_text (mr_status r) (mr_attempts r)) (pending_mintlayer_batches db)))"

definition get_pending_mintlayer_batches :: "da_db \<Rightarrow> PendingMintlayerBatch list option" where
  "get_pending_mintlayer_batches db = those (map mintlayer_row_to_batch (select_pending_mintlayer db))"

text \<open>
  \<open>UPDATE pending_ipfs_operations SET status, attempts, last_attempt, ipfs_hash WHERE id = $5\<close>:
  the other columns keep their values.
\<close>

definition update_ipfs_operations :: "PendingIpfsOperation \<Rightarrow> da_db \<Rightarrow> da_db" where
  "update_ipfs_operations op db =
     db\<lparr> pending_ipfs_operations :=
           map (\<lambda>r. if ir_id r = op_id op
                    then r\<lparr> ir_status := OperationStatus_to_string (op_status op),
                            ir_attempts := op_attempts op,
                            ir_last_attempt := op_last_attempt op,
                            ir_ipfs_hash := op_ipfs_hash op \<rparr>
                    else r)
               (pending_ipfs_operations db) \<rparr>"

text \<open>
  \<open>INSERT INTO pending_mintlayer_batches (id, ipfs_hashes, status, attempts, last_attempt,
  created_at) ... ON CONFLICT (id) DO UPDATE SET ipfs_hashes = $2, status = $3\<close>: an existing row
  only gets new hashes and a new status, and no branch writes the \<open>tx_hash\<close> column.
\<close>

definition update_mintlayer_batch :: "PendingMintlayerBatch \<Rightarrow> da_db \<Rightarrow> da_db" where
  "update_mintlayer_batch b db =
     (if \<exists>r\<in>set (pending_mintlayer_batches db). mr_id r = mb_id b
      then db\<lparr> pending_mintlayer_batches :=
                 map (\<lambda>r. if mr_id r = mb_id b
                          then r\<lparr> mr_ipfs_hashes := mb_ipfs_hashes b,
                                  mr_status := OperationStatus_to_string (mb_status b) \<rparr>
                          else r)
                     (pending_mintlayer_batches db) \<rparr>
      else db\<lparr> pending_mintlayer_batches :=
                 pending_mintlayer_batches db @
                 [\<lparr> mr_id = mb_id b, mr_ipfs_hashes = mb_ipfs_hashes b,
                    mr_attempts = mb_attempts b, mr_last_attempt = mb_last_attempt b,
                    mr_created_at = mb_created_at b,
                    mr_status = OperationStatus_to_string (mb_status b), mr_tx_hash = None \<rparr>] \<rparr>)"

definition ms_per_day :: int where
  "ms_per_day = 86400000"

definition is_cleanable :: "instant \<Rightarrow> int \<Rightarrow> instant \<Rightarrow> string \<Rightarrow> i32 \<Rightarrow> bool" where
  "is_cleanable now days_old created_at status attempts \<longleftrightarrow>
     int created_at < int now - days_old * ms_per_day \<and>
     (status = ''completed'' \<or> \<not> i32_less attempts MAX_RETRY_ATTEMPTS)"

definition cleanup_old_operations :: "instant \<Rightarrow> int \<Rightarrow> da_db \<Rightarrow> da_db" where
  "cleanup_old_operations now days_old db =
     db\<lparr> pending_ipfs_operations :=
           filter (\<lambda>r. \<not> is_cleanable now days_old (ir_created_at r) (ir_status r) (ir_attempts r))
             (pending_ipfs_operations db),
         pending_mintlayer_batches :=
           filter (\<lambda>r. \<not> is_cleanable now days_old (mr_created_at r) (mr_status r) (mr_attempts r))
             (pending_mintlayer_batches db) \<rparr>"

datatype DalError = UniqueViolation | RowNotFound | ConstraintError

definition save_pending_operation :: "PendingIpfsOperation \<Rightarrow> da_db \<Rightarrow> DalError + da_db" where
  "save_pending_operation op db =
     (if \<exists>r\<in>set (pending_ipfs_operations db). ir_id r = op_id op then Inl UniqueViolation
      else Inr (db\<lparr> pending_ipfs_operations :=
             pending_ipfs_operations db @
             [\<lparr> ir_id = op_id op, ir_operation_type = OperationType_to_string (op_operation_type op),
                ir_data = op_data op, ir_attempts = op_attempts op,
                ir_last_attempt = op_last_attempt op, ir_created_at = op_created_at op,
                ir_status = OperationStatus_to_string (op_status op),
                ir_ipfs_hash = op_ipfs_hash op,
                ir_requires_mintlayer = op_requires_mintlayer op \<rparr>] \<rparr>))"

section \<open>Well-formed tables\<close>

text \<open>
  What the schema and the writers guarantee: \<open>id\<close> is a primary key, a status column holds a
  member of the SQL enum and an operation type column a text the code prints.
\<close>

definition valid_status_text :: "string \<Rightarrow> bool" where
  "valid_status_text s \<longleftrightarrow> s \<in> {''pending'', ''in_progress'', ''completed'', ''failed''}"

definition valid_type_text :: "string \<Rightarrow> bool" where
  "valid_type_text s \<longleftrightarrow> s \<in> {''commit'', ''proof'', ''execute''}"

definition wf_da_db :: "da_db \<Rightarrow> bool" where
  "wf_da_db db \<longleftrightarrow>
     distinct (map ir_id (pending_ipfs_operations db)) \<and>
     distinct (map mr_id (pending_mintlayer_batches db)) \<and>
     (\<forall>r\<in>set (pending_ipfs_operations db).
        valid_status_text (ir_status r) \<and> valid_type_text (ir_operation_type r)) \<and>
     (\<forall>r\<in>set (pending_mintlayer_batches db). valid_status_text (mr_status r))"

definition empty_da_db :: da_db where
  "empty_da_db = \<lparr> pending_ipfs_operations = [], pending_mintlayer_batches = [] \<rparr>"

lemma batch_row_unique:
  assumes "wf_da_db db" "r \<in> set (pending_mintlayer_batches db)" "r' \<in> set (pending_mintlayer_batches db)"
    "mr_id r = mr_id r'"
  shows "r = r'"
  using assms by (auto simp: wf_da_db_def distinct_map dest: inj_onD)

named_theorems da_defs
declare OperationType_from_str_def [da_defs] status_of_text_def [da_defs]
  valid_status_text_def [da_defs] valid_type_text_def [da_defs]

lemma status_text_roundtrip:
  "status_of_text (OperationStatus_to_string s) =
     Some (case s of Failed _ \<Rightarrow> Failed [] | _ \<Rightarrow> s)"
  by (cases s) (simp_all add: status_of_text_def)

lemma operation_type_roundtrip [simp]:
  "OperationType_from_str (OperationType_to_string t) = Inr t"
  by (cases t) (simp_all add: OperationType_from_str_def)

lemma valid_status_text_to_string [simp]: "valid_status_text (OperationStatus_to_string s)"
  by (cases s) (simp_all add: valid_status_text_def)

lemma valid_type_text_to_string [simp]: "valid_type_text (OperationType_to_string t)"
  by (cases t) (simp_all add: valid_type_text_def)

lemma status_of_text_valid: "valid_status_text s \<longleftrightarrow> status_of_text s \<noteq> None"
  by (auto simp: da_defs)

lemma status_of_text_eq_Pending [simp]:
  "status_of_text s = Some Pending \<longleftrightarrow> s = ''pending''"
  by (auto simp: status_of_text_def)

lemma ipfs_row_to_op_defined:
  "valid_status_text (ir_status r) \<Longrightarrow> valid_type_text (ir_operation_type r)
   \<Longrightarrow> ipfs_row_to_op r \<noteq> None"
  by (auto simp: ipfs_row_to_op_def da_defs)

lemma mintlayer_row_to_batch_defined:
  "valid_status_text (mr_status r) \<Longrightarrow> mintlayer_row_to_batch r \<noteq> None"
  by (auto simp: mintlayer_row_to_batch_def da_defs)

lemma ipfs_row_to_op_eqD:
  assumes "ipfs_row_to_op r = Some op"
  shows "op_id op = ir_id r" "op_data op = ir_data r" "op_attempts op = ir_attempts r"
    "op_ipfs_hash op = ir_ipfs_hash r" "op_requires_mintlayer op = ir_requires_mintlayer r"
    "status_of_text (ir_status r) = Some (op_status op)"
  using assms by (auto simp: ipfs_row_to_op_def split: sum.splits option.splits)

lemma mintlayer_row_to_batch_eqD:
  assumes "mintlayer_row_to_batch r = Some b"
  shows "mb_id b = mr_id r" "mb_ipfs_hashes b = mr_ipfs_hashes r" "mb_attempts b = mr_attempts r"
    "mb_tx_hash b = mr_tx_hash r" "status_of_text (mr_status r) = Some (mb_status b)"
  using assms by (auto simp: mintlayer_row_to_batch_def split: option.splits)

lemma set_select_pending_ipfs:
  "set (select_pending_ipfs db) \<subseteq>
     {r \<in> set (pending_ipfs_operations db). is_pending_text (ir_status r) (ir_attempts r)}"
  by (auto simp: select_pending_ipfs_def dest!: in_set_takeD)

lemma set_select_pending_mintlayer:
  "set (select_pending_mintlayer db) \<subseteq>
     {r \<in> set (pending_mintlayer_batches db). is_pending_text (mr_status r) (mr_attempts r)}"
  by (auto simp: select_pending_mintlayer_def dest!: in_set_takeD)

text \<open>The two readers never panic on a well-formed database.\<close>

lemma get_pending_ipfs_operations_defined:
  assumes "wf_da_db db"
  shows "get_pending_ipfs_operations db = Some (map (\<lambda>r. the (ipfs_row_to_op r)) (select_pending_ipfs db))"
  using assms set_select_pending_ipfs [of db]
  by (auto simp: get_pending_ipfs_operations_def those_map_eq_Some wf_da_db_def
      dest!: ipfs_row_to_op_defined)

lemma get_pending_mintlayer_batches_defined:
  assumes "wf_da_db db"
  shows "get_pending_mintlayer_batches db =
           Some (map (\<lambda>r. the (mintlayer_row_to_batch r)) (select_pending_mintlayer db))"
  using assms set_select_pending_mintlayer [of db]
  by (auto simp: get_pending_mintlayer_batches_def those_map_eq_Some wf_da_db_def
      dest!: mintlayer_row_to_batch_defined)

lemma get_pending_ipfs_operations_mem:
  assumes "get_pending_ipfs_operations db = Some ops" "op \<in> set ops"
  obtains r where "r \<in> set (pending_ipfs_operations db)" "is_pending_text (ir_status r) (ir_attempts r)"
    "ipfs_row_to_op r = Some op"
  using assms set_select_pending_ipfs [of db]
  by (force simp: get_pending_ipfs_operations_def those_map_eq_Some)

lemma get_pending_mintlayer_batches_mem:
  assumes "get_pending_mintlayer_batches db = Some bs" "b \<in> set bs"
  obtains r where "r \<in> set (pending_mintlayer_batches db)" "is_pending_text (mr_status r) (mr_attempts r)"
    "mintlayer_row_to_batch r = Some b"
  using assms set_select_pending_mintlayer [of db]
  by (force simp: get_pending_mintlayer_batches_def those_map_eq_Some)

section \<open>Frame and effect of the writers\<close>

lemma update_ipfs_operations_batches [simp]:
  "pending_mintlayer_batches (update_ipfs_operations op db) = pending_mintlayer_batches db"
  by (simp add: update_ipfs_operations_def)

lemma update_mintlayer_batch_ops [simp]:
  "pending_ipfs_operations (update_mintlayer_batch b db) = pending_ipfs_operations db"
  by (simp add: update_mintlayer_batch_def)

lemma map_id_update_ipfs [simp]:
  "map ir_id (pending_ipfs_operations (update_ipfs_operations op db)) = map ir_id (pending_ipfs_operations db)"
  by (auto simp: update_ipfs_operations_def)

lemma update_mintlayer_batch_mem:
  "r \<in> set (pending_mintlayer_batches (update_mintlayer_batch b db)) \<Longrightarrow>
     (r \<in> set (pending_mintlayer_batches db) \<and> mr_id r \<noteq> mb_id b) \<or>
     (mr_id r = mb_id b \<and> mr_ipfs_hashes r = mb_ipfs_hashes b \<and>
      mr_status r = OperationStatus_to_string (mb_status b) \<and>
      (mr_attempts r = mb_attempts b \<and> mr_tx_hash r = None \<or>
       (\<exists>r'\<in>set (pending_mintlayer_batches db). mr_id r' = mb_id b \<and>
          mr_attempts r = mr_attempts r' \<and> mr_tx_hash r = mr_tx_hash r')))"
  by (auto simp: update_mintlayer_batch_def split: if_splits)

lemma update_mintlayer_batch_keeps:
  "r \<in> set (pending_mintlayer_batches db) \<Longrightarrow> mr_id r \<noteq> mb_id b \<Longrightarrow>
   r \<in> set (pending_mintlayer_batches (update_mintlayer_batch b db))"
  by (force simp: update_mintlayer_batch_def)

lemma update_mintlayer_batch_has:
  "\<exists>r\<in>set (pending_mintlayer_batches (update_mintlayer_batch b db)).
     mr_id r = mb_id b \<and> mr_ipfs_hashes r = mb_ipfs_hashes b \<and>
     mr_status r = OperationStatus_to_string (mb_status b)"
proof (cases "\<exists>r\<in>set (pending_mintlayer_batches db). mr_id r = mb_id b")
  case True
  then obtain r where "r \<in> set (pending_mintlayer_batches db)" "mr_id r = mb_id b" by blast
  then show ?thesis
    by (intro bexI [of _ "r\<lparr>mr_ipfs_hashes := mb_ipfs_hashes b,
          mr_status := OperationStatus_to_string (mb_status b)\<rparr>"])
       (force simp: update_mintlayer_batch_def)+
qed (simp add: update_mintlayer_batch_def)

lemma wf_update_ipfs_operations:
  assumes "wf_da_db db" shows "wf_da_db (update_ipfs_operations op db)"
proof -
  have "distinct (map ir_id (pending_ipfs_operations (update_ipfs_operations op db)))"
    using assms by (simp only: map_id_update_ipfs) (simp add: wf_da_db_def)
  then show ?thesis
    using assms by (auto simp: wf_da_db_def update_ipfs_operations_def)
qed

lemma wf_update_mintlayer_batch:
  assumes "wf_da_db db" shows "wf_da_db (update_mintlayer_batch b db)"
proof -
  have "map mr_id (map (\<lambda>r. if mr_id r = mb_id b
      then r\<lparr>mr_ipfs_hashes := mb_ipfs_hashes b, mr_status := OperationStatus_to_string (mb_status b)\<rparr>
      else r) xs) = map mr_id xs" for xs :: "mintlayer_row list"
    by auto
  then show ?thesis
    using assms by (auto simp: wf_da_db_def update_mintlayer_batch_def simp del: map_map)
qed

lemma wf_cleanup: "wf_da_db db \<Longrightarrow> wf_da_db (cleanup_old_operations now days db)"
  by (auto simp: wf_da_db_def cleanup_old_operations_def intro: distinct_map_filter)

lemma wf_save_pending_operation:
  "wf_da_db db \<Longrightarrow> save_pending_operation op db = Inr db' \<Longrightarrow> wf_da_db db'"
  by (fastforce simp: wf_da_db_def save_pending_operation_def split: if_splits)

lemma wf_empty [simp]: "wf_da_db empty_da_db"
  by (simp add: wf_da_db_def empty_da_db_def)

end
