(* ===== verification/DataAvailabilityWorker.thy ===== *)
theory DataAvailabilityWorker
  imports DataAvailabilityDal
begin

text \<open>
  The worker that publishes aggregated operations to IPFS and posts their hashes to Mintlayer:
  \<^verbatim>\<open>core/node/eth_sender/src/data_availability/{circuit_breaker,error,worker}.rs\<close> and the producer
  \<^verbatim>\<open>save_mintlayer_tx\<close> of \<^verbatim>\<open>eth_tx_aggregator.rs\<close>. The S3 client, the HTTP client, the
  encoders, the process environment, fresh UUIDs and the clock are arguments; every database
  call can fail, which is the argument \<open>faults\<close>. Metrics and log lines have no effect on the
  state and are left out.
\<close>

section \<open>Errors and the circuit breaker\<close>

datatype DataAvailabilityError =
    IPFSError string
  | MintlayerError string
  | DatabaseError string
  | MaxRetriesExceededError string
  | CircuitBreakerOpenError string
  | ConfigError string

record CircuitBreaker =
  failure_threshold :: u32
  reset_timeout :: duration
  failures :: u32
  last_failure :: "instant option"

definition CircuitBreaker_new :: "u32 \<Rightarrow> duration \<Rightarrow> CircuitBreaker" where
  "CircuitBreaker_new threshold timeout =
     \<lparr> failure_threshold = threshold, reset_timeout = timeout, failures = 0, last_failure = None \<rparr>"

text \<open>\<open>Instant::elapsed\<close> saturates at zero, as subtraction on \<open>nat\<close> does.\<close>

definition is_open :: "instant \<Rightarrow> CircuitBreaker \<Rightarrow> bool" where
  "is_open now cb =
     (case last_failure cb of
        Some t \<Rightarrow> if now - t \<ge> reset_timeout cb then False
                  else failures cb \<ge> failure_threshold cb
      | None \<Rightarrow> failures cb \<ge> failure_threshold cb)"

definition record_failure :: "instant \<Rightarrow> CircuitBreaker \<Rightarrow> CircuitBreaker \<times> bool" where
  "record_failure now cb =
     (let cb' = cb\<lparr> failures := failures cb + 1, last_failure := Some now \<rparr>
      in (cb', failures cb' \<ge> failure_threshold cb'))"

section \<open>Configuration and external services\<close>

record WorkerConfig =
  ipfs_retry_base_delay :: duration
  ipfs_retry_max_delay :: duration
  ipfs_max_attempts :: u32
  mintlayer_retry_base :: duration
  mintlayer_retry_max_delay :: duration
  mintlayer_max_attempts :: u32
  cleanup_interval :: duration
  cleanup_days_threshold :: int
  batch_size :: nat

text \<open>The two breakers that \<open>DataAvailabilityWorker::new\<close> creates.\<close>

record DataAvailabilityWorker =
  config :: WorkerConfig
  ipfs_circuit_breaker :: CircuitBreaker
  mintlayer_circuit_breaker :: CircuitBreaker

definition DataAvailabilityWorker_new :: "WorkerConfig \<Rightarrow> DataAvailabilityWorker" where
  "DataAvailabilityWorker_new cfg =
     \<lparr> config = cfg,
       ipfs_circuit_breaker = CircuitBreaker_new 5 300000,
       mintlayer_circuit_breaker = CircuitBreaker_new 5 300000 \<rparr>"

text \<open>The configuration that \<open>EthTxAggregator::new\<close> passes to the worker.\<close>

definition aggregator_worker_config :: WorkerConfig where
  "aggregator_worker_config =
     \<lparr> ipfs_retry_base_delay = 1000, ipfs_retry_max_delay = 60000, ipfs_max_attempts = 5,
       mintlayer_retry_base = 1000, mintlayer_retry_max_delay = 60000, mintlayer_max_attempts = 5,
       cleanup_interval = 300000, cleanup_days_threshold = 7, batch_size = 6 \<rparr>"

record ('cred, 'bucket) s3_env =
  s3_env_var :: "string \<Rightarrow> string option"
  credentials_new :: "string \<Rightarrow> string \<Rightarrow> string + 'cred"
  bucket_new :: "string \<Rightarrow> string \<Rightarrow> string \<Rightarrow> 'cred \<Rightarrow> string + 'bucket"
  doc_uuid :: string
  put_object_stream :: "'bucket \<Rightarrow> bytes \<Rightarrow> string \<Rightarrow> string + nat"
  head_object :: "'bucket \<Rightarrow> string \<Rightarrow> string + (string \<rightharpoonup> string) option"
  status_code_string :: "nat \<Rightarrow> string"

datatype json =
    JNull
  | JBool bool
  | JNumber int
  | JString string
  | JArray "json list"
  | JObject "(string \<times> json) list"

record http_response =
  is_success :: bool
  status_string :: string
  body_text :: "string + string"

record ml_env =
  ml_env_var :: "string \<Rightarrow> string option"
  base64_encode :: "string \<Rightarrow> string"
  hex_encode :: "string \<Rightarrow> string"
  http_post :: "string \<Rightarrow> (string \<times> string) list \<Rightarrow> json \<Rightarrow> string + http_response"
  json_from_str :: "string \<Rightarrow> string + json"

section \<open>Uploading to IPFS\<close>

definition upload_to_ipfs ::
  "('c, 'b) s3_env \<Rightarrow> 'b \<Rightarrow> string \<Rightarrow> bytes \<Rightarrow> DataAvailabilityError + string" where
  "upload_to_ipfs e bucket doc_name contents =
     (case put_object_stream e bucket contents doc_name of
        Inr status \<Rightarrow>
          if status = 200 then
            (case head_object e bucket doc_name of
               Inr head_metadata \<Rightarrow>
                 (case head_metadata of
                    Some metadata \<Rightarrow>
                      (case metadata ''ipfs-hash'' of
                         Some hash \<Rightarrow> Inr hash
                       | None \<Rightarrow> Inl (IPFSError ''Missing IPFS hash in metadata''))
                  | None \<Rightarrow> Inl (IPFSError ''Missing IPFS hash in metadata''))
             | Inl err \<Rightarrow> Inl (IPFSError err))
          else Inl (IPFSError (''Upload failed with status: '' @ status_code_string e status))
      | Inl err \<Rightarrow> Inl (IPFSError err))"

definition env_or_config_error ::
  "(string \<Rightarrow> string option) \<Rightarrow> string \<Rightarrow> DataAvailabilityError + string" where
  "env_or_config_error vars name =
     (case vars name of Some v \<Rightarrow> Inr v | None \<Rightarrow> Inl (ConfigError (name @ '' not set'')))"

definition setup_and_upload_to_ipfs ::
  "('c, 'b) s3_env \<Rightarrow> bytes \<Rightarrow> DataAvailabilityError + string" where
  "setup_and_upload_to_ipfs e data =
     bind_result (env_or_config_error (s3_env_var e) ''4EVERLAND_API_KEY'') (\<lambda>api_key.
     bind_result (env_or_config_error (s3_env_var e) ''4EVERLAND_SECRET_KEY'') (\<lambda>secret_key.
     bind_result (env_or_config_error (s3_env_var e) ''4EVERLAND_BUCKET_NAME'') (\<lambda>bucket_name.
     bind_result (map_err ConfigError (credentials_new e api_key secret_key)) (\<lambda>credentials.
     bind_result (map_err ConfigError
        (bucket_new e bucket_name ''us-east-1'' ''https://endpoint.4everland.co'' credentials)) (\<lambda>bucket.
     upload_to_ipfs e bucket (''op_'' @ doc_uuid e) data)))))"

text \<open>
  The retry loop. \<open>envs k\<close> is the world at the \<open>k\<close>-th call; the third component of the result
  is the list of sleeps, in order.
\<close>

function upload_loop ::
  "WorkerConfig \<Rightarrow> (nat \<Rightarrow> ('c, 'b) s3_env) \<Rightarrow> nat \<Rightarrow> duration \<Rightarrow> PendingIpfsOperation
   \<Rightarrow> (DataAvailabilityError + string) \<times> PendingIpfsOperation \<times> duration list" where
  "upload_loop cfg envs k delay op =
     (if op_attempts op < ipfs_max_attempts cfg then
        (case setup_and_upload_to_ipfs (envs k) (op_data op) of
           Inr hash \<Rightarrow> (Inr hash, op, [])
         | Inl e \<Rightarrow>
             (let op' = op\<lparr> op_attempts := op_attempts op + 1 \<rparr>
              in if op_attempts op' \<ge> ipfs_max_attempts cfg then (Inl e, op', [])
                 else (case upload_loop cfg envs (Suc k)
                              (min (delay * 2) (ipfs_retry_max_delay cfg)) op' of
                         (r, op'', ds) \<Rightarrow> (r, op'', delay # ds))))
      else (Inl (MaxRetriesExceededError ''IPFS''), op, []))"
  by pat_completeness auto
termination
  by (relation "measure (\<lambda>(cfg, envs, k, delay, op).
        unat (ipfs_max_attempts cfg) - unat (op_attempts op))")
     (auto intro: unat_distance_decreases)

definition upload_to_ipfs_with_backoff ::
  "WorkerConfig \<Rightarrow> (nat \<Rightarrow> ('c, 'b) s3_env) \<Rightarrow> PendingIpfsOperation
   \<Rightarrow> (DataAvailabilityError + string) \<times> PendingIpfsOperation \<times> duration list" where
  "upload_to_ipfs_with_backoff cfg envs op =
     upload_loop cfg envs 0 (ipfs_retry_base_delay cfg) op"

section \<open>Submitting to Mintlayer\<close>

fun join :: "string \<Rightarrow> string list \<Rightarrow> string" where
  "join sep [] = []"
| "join sep [x] = x"
| "join sep (x # y # xs) = x @ sep @ join sep (y # xs)"

fun json_get :: "json \<Rightarrow> string \<Rightarrow> json option" where
  "json_get (JObject kvs) k = map_of kvs k"
| "json_get _ k = None"

fun json_as_str :: "json \<Rightarrow> string option" where
  "json_as_str (JString s) = Some s"
| "json_as_str _ = None"

definition rpc_headers :: "ml_env \<Rightarrow> (string \<times> string) list" where
  "rpc_headers e =
     (''Content-Type'', ''application/json'') #
     (case (ml_env_var e ''ML_RPC_USERNAME'', ml_env_var e ''ML_RPC_PASSWORD'') of
        (Some username, Some password) \<Rightarrow>
          [(''Authorization'', ''Basic '' @ base64_encode e (username @ '':'' @ password))]
      | _ \<Rightarrow> [])"

definition deposit_payload :: "ml_env \<Rightarrow> string list \<Rightarrow> json" where
  "deposit_payload e ipfs_hashes =
     JObject [(''method'', JString ''address_deposit_data''),
              (''params'', JObject [(''data'', JString (hex_encode e (join '','' ipfs_hashes))),
                                   (''account'', JNumber 0),
                                   (''options'', JObject [])]),
              (''jsonrpc'', JString ''2.0''),
              (''id'', JNumber 1)]"

definition submit_to_mintlayer :: "ml_env \<Rightarrow> string list \<Rightarrow> DataAvailabilityError + string" where
  "submit_to_mintlayer e ipfs_hashes =
     bind_result (env_or_config_error (ml_env_var e) ''ML_RPC_URL'') (\<lambda>url.
     bind_result (map_err MintlayerError
        (http_post e url (rpc_headers e) (deposit_payload e ipfs_hashes))) (\<lambda>response.
     if \<not> is_success response
     then Inl (MintlayerError (''Request failed with status: '' @ status_string response))
     else
       bind_result (map_err MintlayerError (body_text response)) (\<lambda>response_text.
       bind_result (map_err MintlayerError (json_from_str e response_text)) (\<lambda>response_json.
       case json_get response_json ''result'' of
         Some tx_hash \<Rightarrow> Inr (case json_as_str tx_hash of Some s \<Rightarrow> s | None \<Rightarrow> [])
       | None \<Rightarrow> Inl (MintlayerError ''No tx_hash in response'')))))"

function submit_loop ::
  "WorkerConfig \<Rightarrow> (nat \<Rightarrow> ml_env) \<Rightarrow> nat \<Rightarrow> duration \<Rightarrow> PendingMintlayerBatch
   \<Rightarrow> (DataAvailabilityError + string) \<times> PendingMintlayerBatch \<times> duration list" where
  "submit_loop cfg envs k delay b =
     (if mb_attempts b < mintlayer_max_attempts cfg then
        (case submit_to_mintlayer (envs k) (mb_ipfs_hashes b) of
           Inr tx_hash \<Rightarrow> (Inr tx_hash, b, [])
         | Inl e \<Rightarrow>
             (let b' = b\<lparr> mb_attempts := mb_attempts b + 1 \<rparr>
              in if mb_attempts b' \<ge> mintlayer_max_attempts cfg then (Inl e, b', [])
                 else (case submit_loop cfg envs (Suc k)
                              (min (delay * 2) (mintlayer_retry_max_delay cfg)) b' of
                         (r, b'', ds) \<Rightarrow> (r, b'', delay # ds))))
      else (Inl (MaxRetriesExceededError ''Mintlayer''), b, []))"
  by pat_completeness auto
termination
  by (relation "measure (\<lambda>(cfg, envs, k, delay, b).
        unat (mintlayer_max_attempts cfg) - unat (mb_attempts b))")
     (auto intro: unat_distance_decreases)

definition submit_to_mintlayer_with_backoff ::
  "WorkerConfig \<Rightarrow> (nat \<Rightarrow> ml_env) \<Rightarrow> PendingMintlayerBatch
   \<Rightarrow> (DataAvailabilityError + string) \<times> PendingMintlayerBatch \<times> duration list" where
  "submit_to_mintlayer_with_backoff cfg envs b =
     submit_loop cfg envs 0 (mintlayer_retry_base cfg) b"

declare upload_loop.simps [simp del] submit_loop.simps [simp del]

section \<open>Processing one IPFS operation\<close>

text \<open>
  The fallible database calls of the worker; \<open>faults c = Some msg\<close> when call \<open>c\<close> fails.
\<close>

datatype db_call =
    GetConnection | StartTransaction | UpdateIpfs | QueueConnection | GetBatches | UpdateBatch | Commit

type_synonym faults = "db_call \<Rightarrow> string option"

definition db_try :: "faults \<Rightarrow> db_call \<Rightarrow> DataAvailabilityError + unit" where
  "db_try faults c = (case faults c of Some msg \<Rightarrow> Inl (DatabaseError msg) | None \<Rightarrow> Inr ())"

text \<open>The batch that \<open>queue_mintlayer_batch\<close> writes, computed from the batches it has read.\<close>

definition queue_target ::
  "WorkerConfig \<Rightarrow> PendingMintlayerBatch list \<Rightarrow> PendingMintlayerBatch \<Rightarrow> PendingMintlayerBatch" where
  "queue_target cfg batches new =
     (case List.find (\<lambda>b. mb_status b = Pending \<and> length (mb_ipfs_hashes b) < batch_size cfg) batches of
        Some b \<Rightarrow> b
      | None \<Rightarrow> new)"

definition queue_batch ::
  "WorkerConfig \<Rightarrow> PendingMintlayerBatch list \<Rightarrow> PendingMintlayerBatch \<Rightarrow> string \<Rightarrow> PendingMintlayerBatch" where
  "queue_batch cfg batches new hash =
     (let b = queue_target cfg batches new;
          b' = b\<lparr> mb_ipfs_hashes := mb_ipfs_hashes b @ [hash] \<rparr>
      in if length (mb_ipfs_hashes b') \<ge> batch_size cfg then b'\<lparr> mb_status := Pending \<rparr> else b')"

text \<open>
  \<open>tx\<close> is the state inside the open transaction. The pending batches are read on a second
  connection, so from \<open>committed\<close>, the state before the transaction. The outer \<open>option\<close> is
  the panic of \<open>get_pending_mintlayer_batches\<close>; the result is the committed state.
\<close>

definition queue_mintlayer_batch ::
  "WorkerConfig \<Rightarrow> faults \<Rightarrow> uuid \<Rightarrow> instant \<Rightarrow> da_db \<Rightarrow> da_db \<Rightarrow> string
   \<Rightarrow> (DataAvailabilityError + da_db) option" where
  "queue_mintlayer_batch cfg faults new_id now committed tx hash =
     (case db_try faults QueueConnection of Inl e \<Rightarrow> Some (Inl e) | Inr _ \<Rightarrow>
     (case db_try faults GetBatches of Inl e \<Rightarrow> Some (Inl e) | Inr _ \<Rightarrow>
     (case get_pending_mintlayer_batches committed of None \<Rightarrow> None | Some batches \<Rightarrow>
        (let batch = queue_batch cfg batches (PendingMintlayerBatch_new new_id now) hash
         in Some (bind_result (db_try faults UpdateBatch) (\<lambda>_.
                  bind_result (db_try faults Commit) (\<lambda>_.
                  Inr (update_mintlayer_batch batch tx))))))))"

text \<open>
  What happens around one operation: the worlds of its upload calls, the times of the breaker
  check and of a recorded failure, the id and the creation time of a new batch, the faults.
\<close>

record ('c, 'b) ipfs_call =
  ic_envs :: "nat \<Rightarrow> ('c, 'b) s3_env"
  ic_check_time :: instant
  ic_fail_time :: instant
  ic_new_id :: uuid
  ic_batch_time :: instant
  ic_faults :: faults

definition complete_op :: "PendingIpfsOperation \<Rightarrow> string \<Rightarrow> PendingIpfsOperation" where
  "complete_op op hash = op\<lparr> op_status := Completed, op_ipfs_hash := Some hash \<rparr>"

definition process_ipfs_operation ::
  "WorkerConfig \<Rightarrow> ('c, 'b) ipfs_call \<Rightarrow> PendingIpfsOperation \<Rightarrow> da_db \<times> CircuitBreaker
   \<Rightarrow> ((DataAvailabilityError + unit) \<times> da_db \<times> CircuitBreaker) option" where
  "process_ipfs_operation cfg call op = (\<lambda>(db, cb).
     if is_open (ic_check_time call) cb
     then Some (Inl (CircuitBreakerOpenError ''IPFS''), db, cb)
     else
       (case upload_to_ipfs_with_backoff cfg (ic_envs call) op of
          (Inr hash, op', _) \<Rightarrow>
            (case bind_result (db_try (ic_faults call) GetConnection) (\<lambda>_.
                  db_try (ic_faults call) StartTransaction) of
               Inl e \<Rightarrow> Some (Inl e, db, cb)
             | Inr _ \<Rightarrow>
                 (let op'' = complete_op op' hash
                  in case db_try (ic_faults call) UpdateIpfs of
                       Inl e \<Rightarrow> Some (Inl e, db, cb)
                     | Inr _ \<Rightarrow>
                         (let tx = update_ipfs_operations op'' db
                          in if op_requires_mintlayer op''
                             then (case queue_mintlayer_batch cfg (ic_faults call) (ic_new_id call)
                                          (ic_batch_time call) db tx hash of
                                     None \<Rightarrow> None
                                   | Some (Inl e) \<Rightarrow> Some (Inl e, db, cb)
                                   | Some (Inr db') \<Rightarrow> Some (Inr (), db', cb))
                             else (case db_try (ic_faults call) Commit of
                                     Inl e \<Rightarrow> Some (Inl e, db, cb)
                                   | Inr _ \<Rightarrow> Some (Inr (), tx, cb)))))
        | (Inl e, op', _) \<Rightarrow>
            Some (Inl e, db, fst (record_failure (ic_fail_time call) cb))))"

section \<open>Processing one Mintlayer batch\<close>

record ml_call =
  mc_envs :: "nat \<Rightarrow> ml_env"
  mc_check_time :: instant
  mc_fail_time :: instant
  mc_faults :: faults

definition process_mintlayer_batch ::
  "WorkerConfig \<Rightarrow> ml_call \<Rightarrow> PendingMintlayerBatch \<Rightarrow> da_db \<times> CircuitBreaker
   \<Rightarrow> (DataAvailabilityError + unit) \<times> da_db \<times> CircuitBreaker" where
  "process_mintlayer_batch cfg call b = (\<lambda>(db, cb).
     if is_open (mc_check_time call) cb
     then (Inl (CircuitBreakerOpenError ''Mintlayer''), db, cb)
     else
       (case submit_to_mintlayer_with_backoff cfg (mc_envs call) b of
          (Inr tx_hash, b', _) \<Rightarrow>
            (let b'' = b'\<lparr> mb_status := Completed, mb_tx_hash := Some tx_hash \<rparr>
             in case bind_result (db_try (mc_faults call) GetConnection) (\<lambda>_.
                     bind_result (db_try (mc_faults call) StartTransaction) (\<lambda>_.
                     bind_result (db_try (mc_faults call) UpdateBatch) (\<lambda>_.
                     db_try (mc_faults call) Commit))) of
                  Inl e \<Rightarrow> (Inl e, db, cb)
                | Inr _ \<Rightarrow> (Inr (), update_mintlayer_batch b'' db, cb))
        | (Inl e, b', _) \<Rightarrow> (Inl e, db, fst (record_failure (mc_fail_time call) cb))))"

section \<open>The worker loops\<close>

text \<open>
  One iteration of each loop (the body between two sleeps). The iteration takes the world of its
  \<open>i\<close>-th item as \<open>calls i\<close>. A failed connection or query ends the iteration; a failed item
  does not stop the items after it.
\<close>

fun process_ipfs_operations ::
  "WorkerConfig \<Rightarrow> (nat \<Rightarrow> ('c, 'b) ipfs_call) \<Rightarrow> nat \<Rightarrow> PendingIpfsOperation list
   \<Rightarrow> da_db \<times> CircuitBreaker \<Rightarrow> (da_db \<times> CircuitBreaker) option" where
  "process_ipfs_operations cfg calls i [] st = Some st"
| "process_ipfs_operations cfg calls i (op # ops) st =
     (case process_ipfs_operation cfg (calls i) op st of
        None \<Rightarrow> None
      | Some (r, st') \<Rightarrow> process_ipfs_operations cfg calls (Suc i) ops st')"

definition run_ipfs_worker_iteration ::
  "WorkerConfig \<Rightarrow> faults \<Rightarrow> (nat \<Rightarrow> ('c, 'b) ipfs_call) \<Rightarrow> da_db \<times> CircuitBreaker
   \<Rightarrow> (da_db \<times> CircuitBreaker) option" where
  "run_ipfs_worker_iteration cfg faults calls st =
     (if faults GetConnection \<noteq> None \<or> faults GetBatches \<noteq> None then Some st
      else (case get_pending_ipfs_operations (fst st) of
              None \<Rightarrow> None
            | Some ops \<Rightarrow> process_ipfs_operations cfg calls 0 ops st))"

fun process_mintlayer_batches ::
  "WorkerConfig \<Rightarrow> (nat \<Rightarrow> ml_call) \<Rightarrow> nat \<Rightarrow> PendingMintlayerBatch list
   \<Rightarrow> da_db \<times> CircuitBreaker \<Rightarrow> da_db \<times> CircuitBreaker" where
  "process_mintlayer_batches cfg calls i [] st = st"
| "process_mintlayer_batches cfg calls i (b # bs) st =
     process_mintlayer_batches cfg calls (Suc i) bs
       (snd (process_mintlayer_batch cfg (calls i) b st))"

definition run_mintlayer_worker_iteration ::
  "WorkerConfig \<Rightarrow> faults \<Rightarrow> (nat \<Rightarrow> ml_call) \<Rightarrow> da_db \<times> CircuitBreaker
   \<Rightarrow> (da_db \<times> CircuitBreaker) option" where
  "run_mintlayer_worker_iteration cfg faults calls st =
     (if faults GetConnection \<noteq> None \<or> faults GetBatches \<noteq> None then Some st
      else (case get_pending_mintlayer_batches (fst st) of
              None \<Rightarrow> None
            | Some batches \<Rightarrow> Some (process_mintlayer_batches cfg calls 0 batches st)))"

definition run_cleanup_iteration :: "WorkerConfig \<Rightarrow> faults \<Rightarrow> instant \<Rightarrow> da_db \<Rightarrow> da_db" where
  "run_cleanup_iteration cfg faults now db =
     (if faults GetConnection \<noteq> None \<or> faults StartTransaction \<noteq> None \<or> faults Commit \<noteq> None then db
      else cleanup_old_operations now (cleanup_days_threshold cfg) db)"

section \<open>The producer\<close>

text \<open>
  \<open>EthTxAggregator::save_mintlayer_tx\<close>: \<open>caption\<close> is the operation's
  \<open>get_action_caption()\<close>, \<open>data\<close> its JSON encoding. \<open>None\<close> is the \<open>unwrap\<close> of an unknown
  caption. A failed connection or insert is logged and dropped.
\<close>

definition new_pending_op :: "uuid \<Rightarrow> instant \<Rightarrow> OperationType \<Rightarrow> bytes \<Rightarrow> PendingIpfsOperation" where
  "new_pending_op new_id now ty data =
     \<lparr> op_id = new_id, op_operation_type = ty, op_data = data, op_attempts = 0,
       op_last_attempt = None, op_created_at = now, op_status = Pending,
       op_ipfs_hash = None, op_requires_mintlayer = True \<rparr>"

definition save_mintlayer_tx ::
  "faults \<Rightarrow> uuid \<Rightarrow> instant \<Rightarrow> string \<Rightarrow> bytes \<Rightarrow> da_db \<Rightarrow> da_db option" where
  "save_mintlayer_tx faults new_id now caption data db =
     (case OperationType_from_str caption of
        Inl _ \<Rightarrow> None
      | Inr ty \<Rightarrow>
          if faults GetConnection \<noteq> None \<or> faults UpdateIpfs \<noteq> None then Some db
          else (case save_pending_operation (new_pending_op new_id now ty data) db of
                  Inl _ \<Rightarrow> Some db
                | Inr db' \<Rightarrow> Some db'))"

section \<open>The retry loops\<close>

text \<open>
  The two retry loops have one contract: call until the first success, at most up to the attempt
  limit, sleeping between two calls for a delay that doubles up to a cap. The contract is a
  locale; its laws are the loop's equation and that counting an attempt does not change what is
  sent.
\<close>

fun backoff_delays :: "duration \<Rightarrow> duration \<Rightarrow> nat \<Rightarrow> duration list" where
  "backoff_delays max_delay d 0 = []"
| "backoff_delays max_delay d (Suc n) = d # backoff_delays max_delay (min (d * 2) max_delay) n"

lemma length_backoff_delays [simp]: "length (backoff_delays m d n) = n"
  by (induction n arbitrary: d) auto

lemma nth_backoff_delays:
  "i < n \<Longrightarrow> backoff_delays m d n ! i = (if i = 0 then d else min (d * 2 ^ i) m)"
proof (induction n arbitrary: d i)
  case (Suc n)
  show ?case
  proof (cases i)
    case (Suc i')
    then have "backoff_delays m d (Suc n) ! i =
        (if i' = 0 then min (d * 2) m else min (min (d * 2) m * 2 ^ i') m)"
      using Suc.IH [of i' "min (d * 2) m"] Suc.prems by simp
    also have "\<dots> = min (d * 2 ^ i) m"
    proof -
      have "m \<le> m * 2 ^ i'" by simp
      then have "min (min x (m * 2 ^ i')) m = min x m" for x by linarith
      then show ?thesis using Suc by (simp add: nat_mult_min_left mult.assoc)
    qed
    finally show ?thesis using Suc by simp
  qed simp
qed simp

locale backoff =
  fixes loop :: "nat \<Rightarrow> duration \<Rightarrow> 'x \<Rightarrow> ('e + 'r) \<times> 'x \<times> duration list"
    and attempts :: "'x \<Rightarrow> u32"
    and bump :: "'x \<Rightarrow> 'x"
    and call :: "nat \<Rightarrow> 'x \<Rightarrow> 'e + 'r"
    and max_attempts :: u32
    and max_delay :: duration
    and exhausted :: 'e
  assumes loop_eq: "loop k d x =
      (if attempts x < max_attempts
       then (case call k x of
               Inr r \<Rightarrow> (Inr r, x, [])
             | Inl e \<Rightarrow> if attempts (bump x) \<ge> max_attempts then (Inl e, bump x, [])
                        else (case loop (Suc k) (min (d * 2) max_delay) (bump x) of
                                (r, x', ds) \<Rightarrow> (r, x', d # ds)))
       else (Inl exhausted, x, []))"
    and attempts_bump: "attempts (bump x) = attempts x + 1"
    and call_bump: "call k (bump x) = call k x"
begin

definition budget :: "'x \<Rightarrow> nat" where
  "budget x = unat max_attempts - unat (attempts x)"

lemma budget_pos: "0 < budget x \<longleftrightarrow> attempts x < max_attempts"
  by (auto simp: budget_def word_less_nat_alt)

lemma budget_bump: "0 < budget x \<Longrightarrow> budget (bump x) = budget x - 1"
  by (simp add: budget_pos) (simp add: budget_def attempts_bump unat_Suc_less)

lemma call_bumps: "call k ((bump ^^ j) x) = call k x"
  by (induction j) (simp_all add: call_bump)

lemma loop_success:
  assumes "j < budget x" "\<forall>i<j. \<exists>e. call (k + i) x = Inl e" "call (k + j) x = Inr r"
  shows "loop k d x = (Inr r, (bump ^^ j) x, backoff_delays max_delay d j)"
  using assms
proof (induction j arbitrary: k d x)
  case 0
  then show ?case by (subst loop_eq) (auto simp: budget_pos)
next
  case (Suc j)
  then obtain e where e: "call k x = Inl e" by fastforce
  have more: "attempts x < max_attempts" "\<not> attempts (bump x) \<ge> max_attempts"
    using Suc.prems(1) budget_pos [of x] budget_pos [of "bump x"] budget_bump [of x] by auto
  have "loop (Suc k) (min (d * 2) max_delay) (bump x) =
      (Inr r, (bump ^^ j) (bump x), backoff_delays max_delay (min (d * 2) max_delay) j)"
  proof (rule Suc.IH)
    show "j < budget (bump x)" using Suc.prems(1) budget_bump [of x] by simp
    show "\<forall>i<j. \<exists>e. call (Suc k + i) (bump x) = Inl e"
      using Suc.prems(2) by (auto simp: call_bump)
    show "call (Suc k + j) (bump x) = Inr r"
      using Suc.prems(3) by (simp add: call_bump)
  qed
  then show ?case
    using e more by (subst loop_eq) (simp add: funpow_swap1)
qed

lemma loop_failure:
  assumes "budget x = Suc n" "\<forall>i\<le>n. call (k + i) x = Inl (err i)"
  shows "loop k d x = (Inl (err n), (bump ^^ Suc n) x, backoff_delays max_delay d n)"
  using assms
proof (induction n arbitrary: k d x err)
  case 0
  then have "attempts x < max_attempts" "attempts (bump x) \<ge> max_attempts"
    using budget_pos [of x] budget_bump [of x] budget_pos [of "bump x"] by auto
  then show ?case using 0 by (subst loop_eq) simp
next
  case (Suc n)
  have more: "attempts x < max_attempts" "\<not> attempts (bump x) \<ge> max_attempts"
    using Suc.prems(1) budget_pos [of x] budget_pos [of "bump x"] budget_bump [of x] by auto
  have "loop (Suc k) (min (d * 2) max_delay) (bump x) =
      (Inl (err (Suc n)), (bump ^^ Suc n) (bump x), backoff_delays max_delay (min (d * 2) max_delay) n)"
  proof (rule Suc.IH [where err = "\<lambda>i. err (Suc i)"])
    show "budget (bump x) = Suc n" using Suc.prems(1) budget_bump [of x] by simp
    show "\<forall>i\<le>n. call (Suc k + i) (bump x) = Inl (err (Suc i))"
    proof (intro allI impI)
      fix i assume "i \<le> n"
      then show "call (Suc k + i) (bump x) = Inl (err (Suc i))"
        using Suc.prems(2) [rule_format, of "Suc i"] by (simp add: call_bump)
    qed
  qed
  moreover have "call k x = Inl (err 0)" using Suc.prems(2) by force
  ultimately show ?case
    using more by (subst loop_eq) (simp add: funpow_swap1)
qed

lemma loop_exhausted: "\<not> attempts x < max_attempts \<Longrightarrow> loop k d x = (Inl exhausted, x, [])"
  by (subst loop_eq) simp

text \<open>A success comes from one of the calls the budget allows.\<close>

lemma loop_InrD:
  assumes "loop k d x = (Inr r, x', ds)"
  shows "\<exists>j < budget x. call (k + j) x = Inr r \<and> x' = (bump ^^ j) x"
proof -
  let ?ok = "\<lambda>j. j < budget x \<and> (\<exists>r. call (k + j) x = Inr r)"
  show ?thesis
  proof (cases "\<exists>j. ?ok j")
    case True
    then obtain j where j: "?ok j" "\<forall>i<j. \<not> ?ok i"
      by (subst (asm) exists_least_iff) blast
    then obtain r' where r': "call (k + j) x = Inr r'" by blast
    have "\<forall>i<j. \<exists>e. call (k + i) x = Inl e"
    proof (intro allI impI)
      fix i assume "i < j"
      with j have "\<not> ?ok i" "i < budget x" by auto
      then show "\<exists>e. call (k + i) x = Inl e" by (cases "call (k + i) x") auto
    qed
    from loop_success [OF _ this r'] j have "loop k d x = (Inr r', (bump ^^ j) x, backoff_delays max_delay d j)"
      by blast
    with assms r' j show ?thesis by auto
  next
    case False
    show ?thesis
    proof (cases "budget x")
      case 0
      then show ?thesis using assms loop_exhausted budget_pos [of x] by simp
    next
      case (Suc n)
      have "\<forall>i\<le>n. call (k + i) x = Inl (projl (call (k + i) x))"
      proof (intro allI impI)
        fix i assume "i \<le> n"
        with False Suc have "\<nexists>r. call (k + i) x = Inr r" by (metis less_Suc_eq_le)
        then show "call (k + i) x = Inl (projl (call (k + i) x))"
          by (cases "call (k + i) x") auto
      qed
      from loop_failure [OF Suc this] assms show ?thesis by simp
    qed
  qed
qed

end

interpretation ipfs_backoff: backoff
  "upload_loop cfg envs" op_attempts "\<lambda>op. op\<lparr> op_attempts := op_attempts op + 1 \<rparr>"
  "\<lambda>k op. setup_and_upload_to_ipfs (envs k) (op_data op)"
  "ipfs_max_attempts cfg" "ipfs_retry_max_delay cfg" "MaxRetriesExceededError ''IPFS''"
  for cfg envs
  by unfold_locales (subst upload_loop.simps, simp_all add: Let_def split: sum.split)

interpretation mintlayer_backoff: backoff
  "submit_loop cfg envs" mb_attempts "\<lambda>b. b\<lparr> mb_attempts := mb_attempts b + 1 \<rparr>"
  "\<lambda>k b. submit_to_mintlayer (envs k) (mb_ipfs_hashes b)"
  "mintlayer_max_attempts cfg" "mintlayer_retry_max_delay cfg" "MaxRetriesExceededError ''Mintlayer''"
  for cfg envs
  by unfold_locales (subst submit_loop.simps, simp_all add: Let_def split: sum.split)

lemma bumps_op:
  "((\<lambda>op. op\<lparr> op_attempts := op_attempts op + 1 \<rparr>) ^^ j) op = op\<lparr> op_attempts := op_attempts op + of_nat j \<rparr>"
  by (induction j) (simp_all add: algebra_simps)

lemma bumps_batch:
  "((\<lambda>b. b\<lparr> mb_attempts := mb_attempts b + 1 \<rparr>) ^^ j) b = b\<lparr> mb_attempts := mb_attempts b + of_nat j \<rparr>"
  by (induction j) (simp_all add: algebra_simps)

text \<open>The loops change nothing but the attempt counter of their item.\<close>

lemma upload_with_backoff_frame:
  assumes "upload_to_ipfs_with_backoff cfg envs op = (Inr hash, op', ds)"
  shows "\<exists>n. op' = op\<lparr> op_attempts := n \<rparr>"
  using ipfs_backoff.loop_InrD [OF assms [unfolded upload_to_ipfs_with_backoff_def]]
  by (auto simp: bumps_op)

lemma upload_with_backoff_attempts:
  assumes "upload_to_ipfs_with_backoff cfg envs op = (Inr hash, op', ds)"
  shows "op_attempts op' < ipfs_max_attempts cfg"
proof -
  obtain j where j: "j < ipfs_backoff.budget cfg op" "op' = op\<lparr> op_attempts := op_attempts op + of_nat j \<rparr>"
    using ipfs_backoff.loop_InrD [OF assms [unfolded upload_to_ipfs_with_backoff_def]] by (auto simp: bumps_op)
  then have less: "unat (op_attempts op) + j < unat (ipfs_max_attempts cfg)" by (simp add: ipfs_backoff.budget_def)
  have "unat (ipfs_max_attempts cfg) < 2 ^ 32" using unsigned_less [of "ipfs_max_attempts cfg"] by simp
  then have "unat (op_attempts op + of_nat j) = unat (op_attempts op) + j"
    using less by (simp add: unat_word_ariths unat_of_nat take_bit_nat_eq_self)
  then show ?thesis using less j(2) by (simp add: word_less_nat_alt)
qed

lemma submit_with_backoff_frame:
  assumes "submit_to_mintlayer_with_backoff cfg envs b = (Inr h, b', ds)"
  shows "\<exists>n. b' = b\<lparr> mb_attempts := n \<rparr>"
  using mintlayer_backoff.loop_InrD [OF assms [unfolded submit_to_mintlayer_with_backoff_def]]
  by (auto simp: bumps_batch)

section \<open>The circuit breaker over time\<close>

definition record_failures :: "instant list \<Rightarrow> CircuitBreaker \<Rightarrow> CircuitBreaker" where
  "record_failures ts cb = foldl (\<lambda>cb t. fst (record_failure t cb)) cb ts"

lemma record_failures_fields:
  "failures (record_failures ts cb) = failures cb + of_nat (length ts)"
  "failure_threshold (record_failures ts cb) = failure_threshold cb"
  "reset_timeout (record_failures ts cb) = reset_timeout cb"
  "last_failure (record_failures ts cb) = (if ts = [] then last_failure cb else Some (last ts))"
proof (induction ts rule: rev_induct)
  case (snoc t ts)
  { case 1 then show ?case using snoc by (simp add: record_failures_def record_failure_def Let_def) }
  { case 2 then show ?case using snoc by (simp add: record_failures_def record_failure_def Let_def) }
  { case 3 then show ?case using snoc by (simp add: record_failures_def record_failure_def Let_def) }
  { case 4 then show ?case using snoc by (simp add: record_failures_def record_failure_def Let_def) }
qed (simp_all add: record_failures_def)

section \<open>Transactions\<close>

text \<open>
  A failed call leaves the database as it was: the status of the operation and the batch it is
  queued in are written in one transaction or not at all.
\<close>

lemma db_try_Inr [simp]: "db_try fs c = Inr u \<longleftrightarrow> fs c = None"
  by (cases "fs c") (auto simp: db_try_def)

lemma db_try_None [simp]: "fs c = None \<Longrightarrow> db_try fs c = Inr ()"
  by (simp add: db_try_def)

lemma queue_mintlayer_batch_Inr:
  "queue_mintlayer_batch cfg fs new_id now committed tx hash = Some (Inr db') \<longleftrightarrow>
     fs QueueConnection = None \<and> fs GetBatches = None \<and> fs UpdateBatch = None \<and> fs Commit = None \<and>
     (\<exists>batches. get_pending_mintlayer_batches committed = Some batches \<and>
        db' = update_mintlayer_batch
                (queue_batch cfg batches (PendingMintlayerBatch_new new_id now) hash) tx)"
  by (auto simp: queue_mintlayer_batch_def Let_def db_try_def split: sum.splits option.splits)

lemma queue_mintlayer_batch_no_panic:
  "wf_da_db committed \<Longrightarrow> queue_mintlayer_batch cfg fs new_id now committed tx hash \<noteq> None"
  by (auto simp: queue_mintlayer_batch_def Let_def get_pending_mintlayer_batches_defined
      split: sum.splits)

lemma process_ipfs_operation_cases:
  assumes "process_ipfs_operation cfg call op (db, cb) = Some (r, db', cb')"
  obtains (opened) "is_open (ic_check_time call) cb" "r = Inl (CircuitBreakerOpenError ''IPFS'')"
      "db' = db" "cb' = cb"
  | (upload_failed) e op' ds where "\<not> is_open (ic_check_time call) cb"
      "upload_to_ipfs_with_backoff cfg (ic_envs call) op = (Inl e, op', ds)" "r = Inl e"
      "db' = db" "cb' = fst (record_failure (ic_fail_time call) cb)"
  | (db_failed) hash op' ds e where "\<not> is_open (ic_check_time call) cb"
      "upload_to_ipfs_with_backoff cfg (ic_envs call) op = (Inr hash, op', ds)" "r = Inl e"
      "db' = db" "cb' = cb"
  | (queued) hash op' ds batches where "\<not> is_open (ic_check_time call) cb"
      "upload_to_ipfs_with_backoff cfg (ic_envs call) op = (Inr hash, op', ds)" "r = Inr ()"
      "op_requires_mintlayer op'" "get_pending_mintlayer_batches db = Some batches"
      "db' = update_mintlayer_batch
               (queue_batch cfg batches (PendingMintlayerBatch_new (ic_new_id call) (ic_batch_time call)) hash)
               (update_ipfs_operations (complete_op op' hash) db)" "cb' = cb"
  | (plain) hash op' ds where "\<not> is_open (ic_check_time call) cb"
      "upload_to_ipfs_with_backoff cfg (ic_envs call) op = (Inr hash, op', ds)" "r = Inr ()"
      "\<not> op_requires_mintlayer op'" "db' = update_ipfs_operations (complete_op op' hash) db" "cb' = cb"
proof (cases "is_open (ic_check_time call) cb")
  case True
  then show ?thesis using assms by (intro opened) (auto simp: process_ipfs_operation_def)
next
  case nopen: False
  obtain res op' ds where up: "upload_to_ipfs_with_backoff cfg (ic_envs call) op = (res, op', ds)"
    by (cases "upload_to_ipfs_with_backoff cfg (ic_envs call) op") auto
  show ?thesis
  proof (cases res)
    case (Inl e)
    then show ?thesis
      using assms nopen up by (intro upload_failed) (auto simp: process_ipfs_operation_def)
  next
    case (Inr hash)
    let ?fs = "ic_faults call" and ?op = "complete_op op' hash"
    let ?open = "bind_result (db_try ?fs GetConnection) (\<lambda>_. db_try ?fs StartTransaction)"
    let ?tx = "update_ipfs_operations ?op db"
    let ?queue = "queue_mintlayer_batch cfg ?fs (ic_new_id call) (ic_batch_time call) db ?tx hash"
    have up': "upload_to_ipfs_with_backoff cfg (ic_envs call) op = (Inr hash, op', ds)"
      using up Inr by simp
    have req: "op_requires_mintlayer ?op = op_requires_mintlayer op'"
      by (simp add: complete_op_def)
    note unfold = process_ipfs_operation_def Let_def nopen up' req
    consider (err) "(\<exists>e. ?open = Inl e) \<or> (\<exists>e. db_try ?fs UpdateIpfs = Inl e)"
      | (ok) u v where "?open = Inr u" "db_try ?fs UpdateIpfs = Inr v"
      by (meson sum.exhaust)
    then show ?thesis
    proof cases
      case err
      then have "\<exists>e. r = Inl e \<and> db' = db \<and> cb' = cb"
        using assms by (auto simp: unfold split: sum.splits) metis+
      then show ?thesis using db_failed [OF nopen up'] by blast
    next
      case ok
      show ?thesis
      proof (cases "op_requires_mintlayer op'")
        case True
        show ?thesis
        proof (cases ?queue)
          case None
          then show ?thesis using assms ok True by (simp add: unfold)
        next
          case (Some q)
          show ?thesis
          proof (cases q)
            case (Inl e)
            then show ?thesis
              using assms ok True Some by (intro db_failed [OF nopen up']) (auto simp: unfold)
          next
            case (Inr db2)
            then have "?queue = Some (Inr db2)" using Some by simp
            then obtain batches where "get_pending_mintlayer_batches db = Some batches"
              "db2 = update_mintlayer_batch (queue_batch cfg batches
                 (PendingMintlayerBatch_new (ic_new_id call) (ic_batch_time call)) hash) ?tx"
              by (auto simp: queue_mintlayer_batch_Inr)
            moreover have "r = Inr ()" "db' = db2" "cb' = cb"
              using assms ok True Some Inr by (auto simp: unfold)
            ultimately show ?thesis using True by (intro queued [OF nopen up']) simp_all
          qed
        qed
      next
        case False
        show ?thesis
        proof (cases "db_try ?fs Commit")
          case (Inl e)
          then show ?thesis
            using assms ok False by (intro db_failed [OF nopen up', of e]) (auto simp: unfold)
        next
          case (Inr u)
          then show ?thesis
            using assms ok False by (intro plain [OF nopen up']) (auto simp: unfold)
        qed
      qed
    qed
  qed
qed

section \<open>Properties\<close>

text \<open>
  C10. The IPFS retry loop returns the hash of the first successful call, provided it comes within the
  attempts the operation has left; it has then made exactly one call more than it has failures,
  counted every failure, and slept for the base delay first and for doubled delays, capped at the
  configured maximum, after that.
\<close>

theorem upload_backoff_first_success:
  assumes "j < unat (ipfs_max_attempts cfg) - unat (op_attempts op)"
    and "\<And>i. i < j \<Longrightarrow> \<exists>e. setup_and_upload_to_ipfs (envs i) (op_data op) = Inl e"
    and "setup_and_upload_to_ipfs (envs j) (op_data op) = Inr hash"
  shows "upload_to_ipfs_with_backoff cfg envs op =
     (Inr hash, op\<lparr> op_attempts := op_attempts op + of_nat j \<rparr>,
      map (\<lambda>i. if i = 0 then ipfs_retry_base_delay cfg
               else min (ipfs_retry_base_delay cfg * 2 ^ i) (ipfs_retry_max_delay cfg)) [0..<j])"
proof -
  let ?ds = "backoff_delays (ipfs_retry_max_delay cfg) (ipfs_retry_base_delay cfg) j"
  have "upload_loop cfg envs 0 (ipfs_retry_base_delay cfg) op =
      (Inr hash, op\<lparr> op_attempts := op_attempts op + of_nat j \<rparr>, ?ds)"
    using ipfs_backoff.loop_success [of j cfg op envs 0 hash "ipfs_retry_base_delay cfg"] assms
    by (simp add: ipfs_backoff.budget_def bumps_op)
  moreover have "?ds = map (\<lambda>i. if i = 0 then ipfs_retry_base_delay cfg
      else min (ipfs_retry_base_delay cfg * 2 ^ i) (ipfs_retry_max_delay cfg)) [0..<j]"
    by (rule nth_equalityI) (simp_all add: nth_backoff_delays)
  ultimately show ?thesis by (simp add: upload_to_ipfs_with_backoff_def)
qed

text \<open>Two concrete worlds: an endpoint that answers 503 until call \<open>n\<close>, then stores the object.\<close>

definition flaky_s3 :: "nat \<Rightarrow> nat \<Rightarrow> (unit, unit) s3_env" where
  "flaky_s3 n k =
     \<lparr> s3_env_var = (\<lambda>_. Some ''x''), credentials_new = (\<lambda>_ _. Inr ()), bucket_new = (\<lambda>_ _ _ _. Inr ()),
       doc_uuid = ''0'', put_object_stream = (\<lambda>_ _ _. Inr (if k < n then 503 else 200)),
       head_object = (\<lambda>_ _. Inr (Some [''ipfs-hash'' \<mapsto> ''Qm''])), status_code_string = (\<lambda>_. ''503'') \<rparr>"

lemma flaky_s3_result:
  "setup_and_upload_to_ipfs (flaky_s3 n k) data =
     (if k < n then Inl (IPFSError ''Upload failed with status: 503'') else Inr ''Qm'')"
  by (simp add: setup_and_upload_to_ipfs_def upload_to_ipfs_def env_or_config_error_def flaky_s3_def)

theorem upload_backoff_first_success_witness:
  "upload_to_ipfs_with_backoff aggregator_worker_config (flaky_s3 3) (new_pending_op 0 0 OtProof [1, 2]) =
     (Inr ''Qm'', (new_pending_op 0 0 OtProof [1, 2])\<lparr> op_attempts := 3 \<rparr>, [1000, 2000, 4000])"
proof -
  let ?op = "new_pending_op 0 0 OtProof [1, 2]"
  have "upload_to_ipfs_with_backoff aggregator_worker_config (flaky_s3 3) ?op =
     (Inr ''Qm'', ?op\<lparr> op_attempts := op_attempts ?op + of_nat 3 \<rparr>,
      map (\<lambda>i. if i = 0 then ipfs_retry_base_delay aggregator_worker_config
               else min (ipfs_retry_base_delay aggregator_worker_config * 2 ^ i)
                        (ipfs_retry_max_delay aggregator_worker_config)) [0..<3])"
    by (rule upload_backoff_first_success)
       (simp_all add: flaky_s3_result aggregator_worker_config_def new_pending_op_def)
  also have "[0..<3] = [0, 1, 2::nat]" by (simp add: upt_rec)
  finally show ?thesis by (simp add: aggregator_worker_config_def new_pending_op_def)
qed

text \<open>
  When every call the operation has left fails, the Mintlayer retry loop gives up after exactly that
  many calls with the error of the last one and the attempt counter at its limit; a batch with no
  attempts left is refused without a call.
\<close>

theorem submit_backoff_gives_up:
  assumes "unat (mb_attempts b) + n = unat (mintlayer_max_attempts cfg)"
    and "\<And>i. i < n \<Longrightarrow> submit_to_mintlayer (envs i) (mb_ipfs_hashes b) = Inl (err i)"
  shows "case submit_to_mintlayer_with_backoff cfg envs b of (r, b', ds) \<Rightarrow>
     r = Inl (if n = 0 then MaxRetriesExceededError ''Mintlayer'' else err (n - 1)) \<and>
     b' = b\<lparr> mb_attempts := mintlayer_max_attempts cfg \<rparr> \<and> length ds = n - 1"
proof (cases n)
  case 0
  then have "mb_attempts b = mintlayer_max_attempts cfg"
    using assms(1) by (simp add: word_unat_eq_iff)
  then show ?thesis
    using 0 by (simp add: submit_to_mintlayer_with_backoff_def mintlayer_backoff.loop_exhausted)
next
  case (Suc m)
  have att: "mb_attempts b + of_nat n = mintlayer_max_attempts cfg"
    using arg_cong [OF assms(1), of "of_nat :: nat \<Rightarrow> u32"] by simp
  have "submit_loop cfg envs 0 (mintlayer_retry_base cfg) b =
      (Inl (err m), b\<lparr> mb_attempts := mb_attempts b + of_nat n \<rparr>,
       backoff_delays (mintlayer_retry_max_delay cfg) (mintlayer_retry_base cfg) m)"
    using mintlayer_backoff.loop_failure [where k = 0 and n = m and x = b and err = err] assms Suc
    by (simp add: mintlayer_backoff.budget_def bumps_batch del: funpow.simps of_nat_Suc)
  then show ?thesis using Suc att by (simp add: submit_to_mintlayer_with_backoff_def)
qed

definition offline_ml :: ml_env where
  "offline_ml =
     \<lparr> ml_env_var = (\<lambda>_. Some ''x''), base64_encode = id, hex_encode = id,
       http_post = (\<lambda>_ _ _. Inl ''connection refused''), json_from_str = (\<lambda>_. Inl ''empty'') \<rparr>"

theorem submit_backoff_gives_up_witness:
  "case submit_to_mintlayer_with_backoff aggregator_worker_config (\<lambda>_. offline_ml)
          (PendingMintlayerBatch_new 0 0) of (r, b', ds) \<Rightarrow>
     r = Inl (MintlayerError ''connection refused'') \<and>
     b' = (PendingMintlayerBatch_new 0 0)\<lparr> mb_attempts := 5 \<rparr> \<and> length ds = 4"
  using submit_backoff_gives_up [of "PendingMintlayerBatch_new 0 0" 5 aggregator_worker_config
      "\<lambda>_. offline_ml" "\<lambda>_. MintlayerError ''connection refused''"]
  by (simp add: aggregator_worker_config_def PendingMintlayerBatch_new_def submit_to_mintlayer_def
      env_or_config_error_def offline_ml_def)

text \<open>
  C11. The breaker over its life: after failures at the times \<open>ts\<close> (successes do not touch it) it is
  open exactly while the number of failures ever recorded has reached the threshold and the reset
  timeout has not yet passed since the last of them.
\<close>

theorem breaker_open_iff:
  assumes "ts \<noteq> []" "length ts < 2 ^ 32"
  shows "is_open now (record_failures ts (CircuitBreaker_new threshold timeout)) \<longleftrightarrow>
     unat threshold \<le> length ts \<and> now - last ts < timeout"
proof -
  have "unat (of_nat (length ts) :: u32) = length ts"
    using assms(2) by (simp add: unat_of_nat take_bit_nat_eq_self)
  then show ?thesis
    using assms(1) by (auto simp: is_open_def record_failures_fields CircuitBreaker_new_def word_le_nat_alt)
qed

theorem breaker_open_iff_witness:
  "is_open 1200 (record_failures [0, 10, 500, 900, 1000] (CircuitBreaker_new 5 300)) \<and>
   \<not> is_open 1300 (record_failures [0, 10, 500, 900, 1000] (CircuitBreaker_new 5 300))"
  using breaker_open_iff [of "[0, 10, 500, 900, 1000]" 1200 5 300]
    breaker_open_iff [of "[0, 10, 500, 900, 1000]" 1300 5 300]
  by simp

lemma process_ipfs_operation_no_panic:
  "wf_da_db db \<Longrightarrow> process_ipfs_operation cfg call op (db, cb) \<noteq> None"
  by (auto simp: process_ipfs_operation_def Let_def queue_mintlayer_batch_no_panic
      split: prod.split sum.split option.split)

lemma completed_rows:
  assumes "r \<in> set (pending_ipfs_operations (update_ipfs_operations (complete_op op hash) db))"
    and "ir_id r = op_id op"
  shows "ir_status r = ''completed'' \<and> ir_ipfs_hash r = Some hash"
  using assms by (auto simp: update_ipfs_operations_def complete_op_def split: if_splits)

lemma queue_batch_hash: "hash \<in> set (mb_ipfs_hashes (queue_batch cfg batches new hash))"
  by (simp add: queue_batch_def Let_def)

text \<open>What success of an operation means in the tables.\<close>

definition op_recorded :: "PendingIpfsOperation \<Rightarrow> string \<Rightarrow> da_db \<Rightarrow> bool" where
  "op_recorded op hash db \<longleftrightarrow>
     (\<forall>row\<in>set (pending_ipfs_operations db). ir_id row = op_id op \<longrightarrow>
        ir_status row = ''completed'' \<and> ir_ipfs_hash row = Some hash) \<and>
     (op_requires_mintlayer op \<longrightarrow>
        (\<exists>b\<in>set (pending_mintlayer_batches db). hash \<in> set (mr_ipfs_hashes b)))"

lemma op_recorded_queued:
  assumes "op' = op\<lparr> op_attempts := n \<rparr>"
  shows "op_recorded op hash (update_mintlayer_batch (queue_batch cfg batches new hash)
           (update_ipfs_operations (complete_op op' hash) db))"
proof -
  let ?b = "queue_batch cfg batches new hash"
  obtain r where "r \<in> set (pending_mintlayer_batches
      (update_mintlayer_batch ?b (update_ipfs_operations (complete_op op' hash) db)))"
    "mr_ipfs_hashes r = mb_ipfs_hashes ?b"
    using update_mintlayer_batch_has by blast
  with queue_batch_hash [of hash cfg batches new] show ?thesis
    using assms completed_rows [of _ op' hash db]
    by (auto simp: op_recorded_def intro!: bexI [of _ r])
qed

lemma op_recorded_plain:
  assumes "op' = op\<lparr> op_attempts := n \<rparr>" "\<not> op_requires_mintlayer op'"
  shows "op_recorded op hash (update_ipfs_operations (complete_op op' hash) db)"
  using assms completed_rows [of _ op' hash db] by (simp add: op_recorded_def)

text \<open>
  C9. Atomicity: on a well-formed database \<open>process_ipfs_operation\<close> does not panic; when it returns an
  error the database is unchanged, and when it succeeds the operation's row is completed with its
  hash and, if the operation requires Mintlayer, some batch holds that hash.
\<close>

theorem process_ipfs_operation_atomic:
  assumes "wf_da_db db"
  shows "\<exists>r db' cb'. process_ipfs_operation cfg call op (db, cb) = Some (r, db', cb') \<and>
     (case r of Inl _ \<Rightarrow> db' = db | Inr _ \<Rightarrow> \<exists>hash. op_recorded op hash db')"
proof -
  obtain r db' cb' where run: "process_ipfs_operation cfg call op (db, cb) = Some (r, db', cb')"
    using process_ipfs_operation_no_panic [OF assms, of cfg call op cb] by auto
  from run have "case r of Inl _ \<Rightarrow> db' = db | Inr _ \<Rightarrow> \<exists>hash. op_recorded op hash db'"
  proof (cases rule: process_ipfs_operation_cases)
    case (queued hash op' ds batches)
    then show ?thesis
      using upload_with_backoff_frame [OF queued(2)] op_recorded_queued by fastforce
  next
    case (plain hash op' ds)
    then show ?thesis
      using upload_with_backoff_frame [OF plain(2)] op_recorded_plain by fastforce
  qed simp_all
  with run show ?thesis by blast
qed

definition queued_db :: da_db where
  "queued_db = empty_da_db\<lparr> pending_ipfs_operations :=
     [\<lparr> ir_id = 2, ir_operation_type = ''proof'', ir_data = [1], ir_attempts = 0, ir_last_attempt = None,
        ir_created_at = 0, ir_status = ''pending'', ir_ipfs_hash = None, ir_requires_mintlayer = True \<rparr>] \<rparr>"

definition calm_call :: "nat \<Rightarrow> (unit, unit) ipfs_call" where
  "calm_call n = \<lparr> ic_envs = flaky_s3 n, ic_check_time = 0, ic_fail_time = 0, ic_new_id = 7,
     ic_batch_time = 0, ic_faults = (\<lambda>_. None) \<rparr>"

theorem process_ipfs_operation_atomic_witness:
  "wf_da_db queued_db \<and>
   (\<exists>r db' cb'. process_ipfs_operation aggregator_worker_config (calm_call 1) (new_pending_op 2 0 OtProof [1])
       (queued_db, CircuitBreaker_new 5 300000) = Some (r, db', cb') \<and>
     (case r of Inl _ \<Rightarrow> db' = queued_db
      | Inr _ \<Rightarrow> \<exists>hash. op_recorded (new_pending_op 2 0 OtProof [1]) hash db'))"
proof -
  have wf: "wf_da_db queued_db" by (simp add: queued_db_def empty_da_db_def wf_da_db_def da_defs)
  show ?thesis by (rule conjI [OF wf process_ipfs_operation_atomic [OF wf]])
qed

end
