(* ===== verification/DataAvailabilityProtocol.thy ===== *)
theory DataAvailabilityProtocol
  imports DataAvailabilityWorker
begin

text \<open>
  The data-availability worker as \<^verbatim>\<open>DataAvailabilityWorker::run\<close> starts it: the IPFS loop, the
  Mintlayer loop and the cleanup loop are separate tasks on one database, next to the aggregator
  that inserts operations. A task can be preempted at every await point, so the visible steps
  are the database reads and the commits. Each loop has a program counter that holds what it has
  read and not yet written back; an event is one step of one task. The functions of
  \<open>DataAvailabilityWorker\<close> are the runs in which no other task moves.
\<close>

section \<open>States and events\<close>

datatype ipfs_pc =
    IpfsIdle
  | IpfsNext "PendingIpfsOperation list"
  | IpfsUploaded PendingIpfsOperation string "PendingIpfsOperation list"
  | IpfsQueue PendingIpfsOperation PendingMintlayerBatch "PendingIpfsOperation list"

datatype ml_pc =
    MlIdle
  | MlNext "PendingMintlayerBatch list"
  | MlSubmitted PendingMintlayerBatch "PendingMintlayerBatch list"

text \<open>
  \<open>st_posted\<close> is the history of hash lists that Mintlayer acknowledged; no task reads it.
\<close>

record da_state =
  st_db :: da_db
  st_ipfs_cb :: CircuitBreaker
  st_ml_cb :: CircuitBreaker
  st_ipfs :: ipfs_pc
  st_ml :: ml_pc
  st_posted :: "string list list"

datatype ('c, 'b) da_event =
    SaveOp faults uuid instant string bytes
  | IpfsPoll
  | IpfsFinish
  | IpfsUpload "('c, 'b) ipfs_call"
  | IpfsDbError
  | IpfsCommitPlain
  | IpfsReadBatches uuid instant
  | IpfsCommit
  | MlPoll
  | MlFinish
  | MlSubmit ml_call
  | MlDbError
  | MlCommit
  | Cleanup faults instant

definition da_init :: "WorkerConfig \<Rightarrow> da_state" where
  "da_init cfg =
     \<lparr> st_db = empty_da_db,
       st_ipfs_cb = ipfs_circuit_breaker (DataAvailabilityWorker_new cfg),
       st_ml_cb = mintlayer_circuit_breaker (DataAvailabilityWorker_new cfg),
       st_ipfs = IpfsIdle, st_ml = MlIdle, st_posted = [] \<rparr>"

section \<open>Steps\<close>

fun ipfs_upload_step ::
  "WorkerConfig \<Rightarrow> ('c, 'b) ipfs_call \<Rightarrow> da_state \<Rightarrow> da_state option" where
  "ipfs_upload_step cfg call s =
     (case st_ipfs s of
        IpfsNext (op # ops) \<Rightarrow>
          (if is_open (ic_check_time call) (st_ipfs_cb s)
           then Some (s\<lparr> st_ipfs := IpfsNext ops \<rparr>)
           else (case upload_to_ipfs_with_backoff cfg (ic_envs call) op of
                   (Inr hash, op', _) \<Rightarrow> Some (s\<lparr> st_ipfs := IpfsUploaded op' hash ops \<rparr>)
                 | (Inl e, op', _) \<Rightarrow>
                     Some (s\<lparr> st_ipfs := IpfsNext ops,
                              st_ipfs_cb := fst (record_failure (ic_fail_time call) (st_ipfs_cb s)) \<rparr>)))
      | _ \<Rightarrow> None)"

fun ml_submit_step :: "WorkerConfig \<Rightarrow> ml_call \<Rightarrow> da_state \<Rightarrow> da_state option" where
  "ml_submit_step cfg call s =
     (case st_ml s of
        MlNext (b # bs) \<Rightarrow>
          (if is_open (mc_check_time call) (st_ml_cb s)
           then Some (s\<lparr> st_ml := MlNext bs \<rparr>)
           else (case submit_to_mintlayer_with_backoff cfg (mc_envs call) b of
                   (Inr tx_hash, b', _) \<Rightarrow>
                     Some (s\<lparr> st_ml := MlSubmitted
                                (b'\<lparr> mb_status := Completed, mb_tx_hash := Some tx_hash \<rparr>) bs,
                              st_posted := st_posted s @ [mb_ipfs_hashes b] \<rparr>)
                 | (Inl e, b', _) \<Rightarrow>
                     Some (s\<lparr> st_ml := MlNext bs,
                              st_ml_cb := fst (record_failure (mc_fail_time call) (st_ml_cb s)) \<rparr>)))
      | _ \<Rightarrow> None)"

text \<open>
  A step that is not possible in the current state is \<open>None\<close>. The id of a new batch is fresh,
  as \<open>Uuid::new_v4\<close> promises.
\<close>

fun da_apply :: "WorkerConfig \<Rightarrow> ('c, 'b) da_event \<Rightarrow> da_state \<Rightarrow> da_state option" where
  "da_apply cfg (SaveOp faults new_id now caption data) s =
     map_option (\<lambda>db. s\<lparr> st_db := db \<rparr>) (save_mintlayer_tx faults new_id now caption data (st_db s))"
| "da_apply cfg IpfsPoll s =
     (if st_ipfs s = IpfsIdle
      then map_option (\<lambda>ops. s\<lparr> st_ipfs := IpfsNext ops \<rparr>) (get_pending_ipfs_operations (st_db s))
      else None)"
| "da_apply cfg IpfsFinish s =
     (if st_ipfs s = IpfsNext [] then Some (s\<lparr> st_ipfs := IpfsIdle \<rparr>) else None)"
| "da_apply cfg (IpfsUpload call) s = ipfs_upload_step cfg call s"
| "da_apply cfg IpfsDbError s =
     (case st_ipfs s of
        IpfsUploaded op hash ops \<Rightarrow> Some (s\<lparr> st_ipfs := IpfsNext ops \<rparr>)
      | IpfsQueue op b ops \<Rightarrow> Some (s\<lparr> st_ipfs := IpfsNext ops \<rparr>)
      | _ \<Rightarrow> None)"
| "da_apply cfg IpfsCommitPlain s =
     (case st_ipfs s of
        IpfsUploaded op hash ops \<Rightarrow>
          if op_requires_mintlayer op then None
          else Some (s\<lparr> st_db := update_ipfs_operations (complete_op op hash) (st_db s),
                        st_ipfs := IpfsNext ops \<rparr>)
      | _ \<Rightarrow> None)"
| "da_apply cfg (IpfsReadBatches new_id now) s =
     (case st_ipfs s of
        IpfsUploaded op hash ops \<Rightarrow>
          if op_requires_mintlayer op \<and> new_id \<notin> mr_id ` set (pending_mintlayer_batches (st_db s))
          then map_option
                 (\<lambda>batches. s\<lparr> st_ipfs := IpfsQueue (complete_op op hash)
                     (queue_batch cfg batches (PendingMintlayerBatch_new new_id now) hash) ops \<rparr>)
                 (get_pending_mintlayer_batches (st_db s))
          else None
      | _ \<Rightarrow> None)"
| "da_apply cfg IpfsCommit s =
     (case st_ipfs s of
        IpfsQueue op b ops \<Rightarrow>
          Some (s\<lparr> st_db := update_mintlayer_batch b (update_ipfs_operations op (st_db s)),
                   st_ipfs := IpfsNext ops \<rparr>)
      | _ \<Rightarrow> None)"
| "da_apply cfg MlPoll s =
     (if st_ml s = MlIdle
      then map_option (\<lambda>bs. s\<lparr> st_ml := MlNext bs \<rparr>) (get_pending_mintlayer_batches (st_db s))
      else None)"
| "da_apply cfg MlFinish s =
     (if st_ml s = MlNext [] then Some (s\<lparr> st_ml := MlIdle \<rparr>) else None)"
| "da_apply cfg (MlSubmit call) s = ml_submit_step cfg call s"
| "da_apply cfg MlDbError s =
     (case st_ml s of
        MlSubmitted b bs \<Rightarrow> Some (s\<lparr> st_ml := MlNext bs \<rparr>)
      | _ \<Rightarrow> None)"
| "da_apply cfg MlCommit s =
     (case st_ml s of
        MlSubmitted b bs \<Rightarrow>
          Some (s\<lparr> st_db := update_mintlayer_batch b (st_db s), st_ml := MlNext bs \<rparr>)
      | _ \<Rightarrow> None)"
| "da_apply cfg (Cleanup faults now) s =
     Some (s\<lparr> st_db := run_cleanup_iteration cfg faults now (st_db s) \<rparr>)"

fun da_exec :: "WorkerConfig \<Rightarrow> ('c, 'b) da_event list \<Rightarrow> da_state \<Rightarrow> da_state option" where
  "da_exec cfg [] s = Some s"
| "da_exec cfg (e # es) s = (case da_apply cfg e s of None \<Rightarrow> None | Some s' \<Rightarrow> da_exec cfg es s')"

text \<open>
  The reachable states, and those reached while the two loops exclude each other: when the IPFS
  loop holds a batch it has read and not yet committed, the Mintlayer loop is idle.
\<close>

definition exclusive :: "da_state \<Rightarrow> bool" where
  "exclusive s \<longleftrightarrow> (\<forall>op b ops. st_ipfs s = IpfsQueue op b ops \<longrightarrow> st_ml s = MlIdle)"

inductive da_reach :: "WorkerConfig \<Rightarrow> da_state \<Rightarrow> bool" for cfg where
  init: "da_reach cfg (da_init cfg)"
| step: "da_reach cfg s \<Longrightarrow> da_apply cfg (e :: (unit, unit) da_event) s = Some s' \<Longrightarrow> da_reach cfg s'"

inductive da_reach_exclusive :: "WorkerConfig \<Rightarrow> da_state \<Rightarrow> bool" for cfg where
  init: "da_reach_exclusive cfg (da_init cfg)"
| step: "da_reach_exclusive cfg s \<Longrightarrow> da_apply cfg (e :: (unit, unit) da_event) s = Some s'
         \<Longrightarrow> exclusive s' \<Longrightarrow> da_reach_exclusive cfg s'"

section \<open>What every reachable database looks like\<close>

definition ipfs_row_ok :: "WorkerConfig \<Rightarrow> ipfs_row \<Rightarrow> bool" where
  "ipfs_row_ok cfg r \<longleftrightarrow> ir_requires_mintlayer r \<and>
     (ir_status r = ''pending'' \<and> ir_ipfs_hash r = None \<and> ir_attempts r = 0 \<or>
      ir_status r = ''completed'' \<and> ir_ipfs_hash r \<noteq> None \<and> ir_attempts r < ipfs_max_attempts cfg)"

definition ml_row_ok :: "WorkerConfig \<Rightarrow> mintlayer_row \<Rightarrow> bool" where
  "ml_row_ok cfg r \<longleftrightarrow>
     mr_status r \<in> {''pending'', ''completed''} \<and> mr_attempts r = 0 \<and> mr_tx_hash r = None \<and>
     mr_ipfs_hashes r \<noteq> [] \<and> length (mr_ipfs_hashes r) \<le> max 1 (batch_size cfg)"

definition batch_ok :: "WorkerConfig \<Rightarrow> PendingMintlayerBatch \<Rightarrow> bool" where
  "batch_ok cfg b \<longleftrightarrow>
     mb_status b \<in> {Pending, Completed} \<and> mb_ipfs_hashes b \<noteq> [] \<and>
     length (mb_ipfs_hashes b) \<le> max 1 (batch_size cfg)"

definition db_ok :: "WorkerConfig \<Rightarrow> da_db \<Rightarrow> bool" where
  "db_ok cfg db \<longleftrightarrow> wf_da_db db \<and>
     (\<forall>r\<in>set (pending_ipfs_operations db). ipfs_row_ok cfg r) \<and>
     (\<forall>r\<in>set (pending_mintlayer_batches db). ml_row_ok cfg r)"

definition pending_batch_ids :: "da_db \<Rightarrow> uuid set" where
  "pending_batch_ids db = {mr_id r | r. r \<in> set (pending_mintlayer_batches db) \<and> mr_status r = ''pending''}"

text \<open>The batches a Mintlayer iteration still holds.\<close>

fun held :: "ml_pc \<Rightarrow> PendingMintlayerBatch list" where
  "held MlIdle = []"
| "held (MlNext bs) = bs"
| "held (MlSubmitted b bs) = b # bs"

text \<open>The operations an IPFS iteration still holds.\<close>

fun held_ops :: "ipfs_pc \<Rightarrow> PendingIpfsOperation list" where
  "held_ops IpfsIdle = []"
| "held_ops (IpfsNext ops) = ops"
| "held_ops (IpfsUploaded op h ops) = op # ops"
| "held_ops (IpfsQueue op b ops) = op # ops"

definition ipfs_pc_ok :: "WorkerConfig \<Rightarrow> ipfs_pc \<Rightarrow> bool" where
  "ipfs_pc_ok cfg pc \<longleftrightarrow>
     (\<forall>op\<in>set (held_ops pc). op_requires_mintlayer op) \<and>
     (case pc of
        IpfsUploaded op hash ops \<Rightarrow> op_attempts op < ipfs_max_attempts cfg
      | IpfsQueue op b ops \<Rightarrow> op_status op = Completed \<and> op_ipfs_hash op \<noteq> None \<and>
          op_attempts op < ipfs_max_attempts cfg \<and>
          batch_ok cfg b \<and> mb_status b = Pending \<and> mb_attempts b = 0
      | _ \<Rightarrow> True)"

definition ml_pc_ok :: "WorkerConfig \<Rightarrow> da_db \<Rightarrow> ml_pc \<Rightarrow> bool" where
  "ml_pc_ok cfg db pc \<longleftrightarrow>
     distinct (map mb_id (held pc)) \<and>
     (\<forall>b\<in>set (held pc). batch_ok cfg b \<and> mb_id b \<in> pending_batch_ids db)"

definition da_inv :: "WorkerConfig \<Rightarrow> da_state \<Rightarrow> bool" where
  "da_inv cfg s \<longleftrightarrow>
     db_ok cfg (st_db s) \<and> ipfs_pc_ok cfg (st_ipfs s) \<and> ml_pc_ok cfg (st_db s) (st_ml s)"

named_theorems da_ok_defs
declare ipfs_row_ok_def [da_ok_defs] ml_row_ok_def [da_ok_defs] batch_ok_def [da_ok_defs]

subsection \<open>Readers\<close>

lemma db_ok_pending_text:
  "ml_row_ok cfg r \<Longrightarrow> is_pending_text (mr_status r) (mr_attempts r) \<longleftrightarrow> mr_status r = ''pending''"
  by (auto simp: ml_row_ok_def is_pending_text_def)

lemma read_batch_ok:
  assumes "db_ok cfg db" "get_pending_mintlayer_batches db = Some bs" "b \<in> set bs"
  shows "batch_ok cfg b" "mb_status b = Pending" "mb_attempts b = 0" "mb_id b \<in> pending_batch_ids db"
    "\<exists>r\<in>set (pending_mintlayer_batches db). mr_id r = mb_id b \<and> mr_ipfs_hashes r = mb_ipfs_hashes b \<and>
       mr_status r = ''pending''"
proof -
  obtain r where r: "r \<in> set (pending_mintlayer_batches db)"
    "is_pending_text (mr_status r) (mr_attempts r)" "mintlayer_row_to_batch r = Some b"
    using get_pending_mintlayer_batches_mem [OF assms(2,3)] .
  have ok: "ml_row_ok cfg r" using assms(1) r(1) by (simp add: db_ok_def)
  then have st: "mr_status r = ''pending''" using db_ok_pending_text r(2) by blast
  note row = mintlayer_row_to_batch_eqD [OF r(3)]
  from st row(5) show "mb_status b = Pending" by (simp add: status_of_text_def)
  with ok row show "batch_ok cfg b" "mb_attempts b = 0" by (auto simp: da_ok_defs)
  from r(1) st row show "mb_id b \<in> pending_batch_ids db"
    "\<exists>r\<in>set (pending_mintlayer_batches db). mr_id r = mb_id b \<and> mr_ipfs_hashes r = mb_ipfs_hashes b \<and>
       mr_status r = ''pending''"
    by (force simp: pending_batch_ids_def)+
qed

lemma map_id_read_batches:
  assumes "get_pending_mintlayer_batches db = Some bs"
  shows "map mb_id bs = map mr_id (select_pending_mintlayer db)"
  using assms
  by (auto simp: get_pending_mintlayer_batches_def those_map_eq_Some)
     (metis mintlayer_row_to_batch_eqD(1) option.sel)

lemma distinct_select_pending_mintlayer:
  assumes "wf_da_db db" shows "distinct (map mr_id (select_pending_mintlayer db))"
proof -
  let ?rows = "filter (\<lambda>r. is_pending_text (mr_status r) (mr_attempts r)) (pending_mintlayer_batches db)"
  have "distinct (map mr_id ?rows)"
    using assms by (auto simp: wf_da_db_def intro: distinct_map_filter)
  then have "distinct (map mr_id (sort_key mr_created_at ?rows))"
    by (simp add: distinct_map)
  then show ?thesis
    by (simp add: select_pending_mintlayer_def take_map [symmetric])
qed

lemma ml_pc_ok_read:
  assumes "db_ok cfg db" "get_pending_mintlayer_batches db = Some bs"
  shows "ml_pc_ok cfg db (MlNext bs)"
  using assms read_batch_ok [OF assms]
  by (auto simp: ml_pc_ok_def db_ok_def map_id_read_batches [OF assms(2)]
      intro: distinct_select_pending_mintlayer)

lemma queue_batch_ok:
  assumes "db_ok cfg db" "get_pending_mintlayer_batches db = Some bs"
  shows "batch_ok cfg (queue_batch cfg bs (PendingMintlayerBatch_new i t) h)"
    "mb_status (queue_batch cfg bs (PendingMintlayerBatch_new i t) h) = Pending"
    "mb_attempts (queue_batch cfg bs (PendingMintlayerBatch_new i t) h) = 0"
    "mb_id (queue_batch cfg bs (PendingMintlayerBatch_new i t) h) = mb_id (queue_target cfg bs (PendingMintlayerBatch_new i t))"
    "mb_ipfs_hashes (queue_batch cfg bs (PendingMintlayerBatch_new i t) h) =
       mb_ipfs_hashes (queue_target cfg bs (PendingMintlayerBatch_new i t)) @ [h]"
proof -
  let ?t = "queue_target cfg bs (PendingMintlayerBatch_new i t)"
  have t: "mb_status ?t = Pending \<and> mb_attempts ?t = 0 \<and>
      length (mb_ipfs_hashes ?t @ [h]) \<le> max 1 (batch_size cfg)"
    using read_batch_ok [OF assms]
    by (auto simp: queue_target_def PendingMintlayerBatch_new_def find_Some_iff split: option.splits)
  then show "batch_ok cfg (queue_batch cfg bs (PendingMintlayerBatch_new i t) h)"
    "mb_status (queue_batch cfg bs (PendingMintlayerBatch_new i t) h) = Pending"
    "mb_attempts (queue_batch cfg bs (PendingMintlayerBatch_new i t) h) = 0"
    by (auto simp: queue_batch_def Let_def batch_ok_def)
  show "mb_id (queue_batch cfg bs (PendingMintlayerBatch_new i t) h) = mb_id ?t"
    "mb_ipfs_hashes (queue_batch cfg bs (PendingMintlayerBatch_new i t) h) = mb_ipfs_hashes ?t @ [h]"
    by (auto simp: queue_batch_def Let_def)
qed

subsection \<open>Writers\<close>

lemma db_ok_update_ipfs:
  assumes "db_ok cfg db" "op_status op = Completed" "op_ipfs_hash op \<noteq> None"
    "op_attempts op < ipfs_max_attempts cfg"
  shows "db_ok cfg (update_ipfs_operations op db)"
proof -
  have "\<forall>r\<in>set (pending_ipfs_operations (update_ipfs_operations op db)). ipfs_row_ok cfg r"
    using assms by (auto simp: db_ok_def update_ipfs_operations_def ipfs_row_ok_def)
  then show ?thesis using assms(1) by (simp add: db_ok_def wf_update_ipfs_operations)
qed

lemma db_ok_update_batch:
  assumes "db_ok cfg db" "batch_ok cfg b" "mb_attempts b = 0 \<or> mb_id b \<in> pending_batch_ids db"
  shows "db_ok cfg (update_mintlayer_batch b db)"
proof -
  have "ml_row_ok cfg r" if r: "r \<in> set (pending_mintlayer_batches (update_mintlayer_batch b db))" for r
  proof (cases "mr_id r = mb_id b")
    case False
    then show ?thesis using update_mintlayer_batch_mem [OF r] assms(1) by (auto simp: db_ok_def)
  next
    case True
    have rows: "\<forall>r\<in>set (pending_mintlayer_batches db). ml_row_ok cfg r"
      using assms(1) by (simp add: db_ok_def)
    have "mr_attempts r = 0 \<and> mr_tx_hash r = None"
    proof (cases "\<exists>r\<in>set (pending_mintlayer_batches db). mr_id r = mb_id b")
      case True
      then show ?thesis
        using r \<open>mr_id r = mb_id b\<close> rows
        by (auto simp: update_mintlayer_batch_def ml_row_ok_def)
    next
      case False
      then have "mb_attempts b = 0" using assms(3) by (auto simp: pending_batch_ids_def)
      then show ?thesis
        using False r \<open>mr_id r = mb_id b\<close> by (auto simp: update_mintlayer_batch_def)
    qed
    then show ?thesis
      using True update_mintlayer_batch_mem [OF r] assms(2) by (auto simp: da_ok_defs)
  qed
  then show ?thesis using assms(1) by (simp add: db_ok_def wf_update_mintlayer_batch)
qed

lemma db_ok_cleanup: "db_ok cfg db \<Longrightarrow> db_ok cfg (cleanup_old_operations now days db)"
  by (simp add: db_ok_def wf_cleanup) (auto simp: cleanup_old_operations_def)

lemma db_ok_save_pending:
  assumes "db_ok cfg db" "save_pending_operation op db = Inr db'"
    "op_status op = Pending" "op_ipfs_hash op = None" "op_attempts op = 0" "op_requires_mintlayer op"
  shows "db_ok cfg db'"
proof -
  have "\<forall>r\<in>set (pending_ipfs_operations db'). ipfs_row_ok cfg r"
    "pending_mintlayer_batches db' = pending_mintlayer_batches db"
    using assms by (auto simp: save_pending_operation_def db_ok_def ipfs_row_ok_def split: if_splits)
  then show ?thesis using assms(1) wf_save_pending_operation [OF _ assms(2)] by (simp add: db_ok_def)
qed

lemma save_pending_operation_batches:
  "save_pending_operation op db = Inr db' \<Longrightarrow> pending_mintlayer_batches db' = pending_mintlayer_batches db"
  by (auto simp: save_pending_operation_def split: if_splits)

lemma db_ok_save:
  assumes "db_ok cfg db" "save_mintlayer_tx fs i t c d db = Some db'"
  shows "db_ok cfg db'" "pending_mintlayer_batches db' = pending_mintlayer_batches db"
proof -
  have "db' = db \<or> (\<exists>op. save_pending_operation op db = Inr db' \<and> op_status op = Pending \<and>
      op_ipfs_hash op = None \<and> op_attempts op = 0 \<and> op_requires_mintlayer op)"
    using assms(2)
    by (auto simp: save_mintlayer_tx_def new_pending_op_def split: sum.splits if_splits)
  then show "db_ok cfg db'" "pending_mintlayer_batches db' = pending_mintlayer_batches db"
    using assms(1) db_ok_save_pending save_pending_operation_batches by blast+
qed

lemma pending_row_kept:
  assumes "ml_row_ok cfg r" "mr_status r = ''pending''"
  shows "\<not> is_cleanable now days (mr_created_at r) (mr_status r) (mr_attempts r)"
  using assms by (simp add: ml_row_ok_def is_cleanable_def i32_less_def MAX_RETRY_ATTEMPTS_def)

lemma pending_batch_ids_cleanup:
  assumes "db_ok cfg db"
  shows "pending_batch_ids (cleanup_old_operations now days db) = pending_batch_ids db"
proof -
  have "set (pending_mintlayer_batches (cleanup_old_operations now days db)) \<inter> {r. mr_status r = ''pending''}
      = set (pending_mintlayer_batches db) \<inter> {r. mr_status r = ''pending''}"
    using assms by (auto simp: cleanup_old_operations_def db_ok_def dest: pending_row_kept)
  then show ?thesis by (auto simp: pending_batch_ids_def)
qed

lemma pending_batch_ids_update:
  "pending_batch_ids (update_mintlayer_batch b db) =
     (if mb_status b = Pending then insert (mb_id b) (pending_batch_ids db)
      else pending_batch_ids db - {mb_id b})"
    (is "?l = ?r")
proof -
  have st: "OperationStatus_to_string (mb_status b) = ''pending'' \<longleftrightarrow> mb_status b = Pending"
    by (cases "mb_status b") auto
  show ?thesis
  proof (intro equalityI subsetI)
    fix i assume "i \<in> ?l"
    then obtain r where r: "r \<in> set (pending_mintlayer_batches (update_mintlayer_batch b db))"
      "mr_status r = ''pending''" "i = mr_id r" by (auto simp: pending_batch_ids_def)
    from update_mintlayer_batch_mem [OF r(1)] r st show "i \<in> ?r"
      by (auto simp: pending_batch_ids_def)
  next
    fix i assume i: "i \<in> ?r"
    show "i \<in> ?l"
    proof (cases "i = mb_id b")
      case True
      then have "mb_status b = Pending" using i by (auto split: if_splits)
      then show ?thesis using True update_mintlayer_batch_has [of b db] by (force simp: pending_batch_ids_def)
    next
      case False
      then obtain r where "r \<in> set (pending_mintlayer_batches db)" "mr_status r = ''pending''" "i = mr_id r"
        using i by (auto simp: pending_batch_ids_def split: if_splits)
      then show ?thesis
        using False update_mintlayer_batch_keeps [of r db b] by (auto simp: pending_batch_ids_def)
    qed
  qed
qed

subsection \<open>Every step keeps the invariant\<close>

lemma ml_pc_ok_mono:
  "ml_pc_ok cfg db pc \<Longrightarrow> pending_batch_ids db \<subseteq> pending_batch_ids db' \<Longrightarrow> ml_pc_ok cfg db' pc"
  by (auto simp: ml_pc_ok_def)

lemma pending_batch_ids_update_ipfs [simp]:
  "pending_batch_ids (update_ipfs_operations op db) = pending_batch_ids db"
  by (simp add: pending_batch_ids_def)

lemma ipfs_pc_ok_read:
  assumes "db_ok cfg db" "get_pending_ipfs_operations db = Some ops"
  shows "ipfs_pc_ok cfg (IpfsNext ops)"
proof -
  have "op_requires_mintlayer op" if op: "op \<in> set ops" for op
  proof -
    obtain r where "r \<in> set (pending_ipfs_operations db)" "ipfs_row_to_op r = Some op"
      using get_pending_ipfs_operations_mem [OF assms(2) op] by metis
    then show ?thesis using assms(1) ipfs_row_to_op_eqD(5) by (auto simp: db_ok_def ipfs_row_ok_def)
  qed
  then show ?thesis by (simp add: ipfs_pc_ok_def)
qed

lemma da_inv_init: "da_inv cfg (da_init cfg)"
  by (simp add: da_inv_def da_init_def db_ok_def ipfs_pc_ok_def ml_pc_ok_def)
     (simp add: empty_da_db_def)

lemma da_inv_upload:
  assumes "da_inv cfg s" "ipfs_upload_step cfg call s = Some s'"
  shows "da_inv cfg s'"
proof -
  obtain op ops where pc: "st_ipfs s = IpfsNext (op # ops)"
    using assms(2) by (auto split: ipfs_pc.splits list.splits)
  obtain res op' ds where up: "upload_to_ipfs_with_backoff cfg (ic_envs call) op = (res, op', ds)"
    by (cases "upload_to_ipfs_with_backoff cfg (ic_envs call) op") auto
  have "res = Inr h \<Longrightarrow> op_requires_mintlayer op' = op_requires_mintlayer op \<and> op_attempts op' < ipfs_max_attempts cfg" for h
    using upload_with_backoff_frame upload_with_backoff_attempts up by fastforce
  then show ?thesis
    using assms pc up by (auto simp: da_inv_def ipfs_pc_ok_def split: if_splits sum.splits)
qed

lemma da_inv_submit:
  assumes "da_inv cfg s" "ml_submit_step cfg call s = Some s'"
  shows "da_inv cfg s'"
proof -
  obtain b bs where pc: "st_ml s = MlNext (b # bs)"
    using assms(2) by (auto split: ml_pc.splits list.splits)
  obtain res b' ds where up: "submit_to_mintlayer_with_backoff cfg (mc_envs call) b = (res, b', ds)"
    by (cases "submit_to_mintlayer_with_backoff cfg (mc_envs call) b") auto
  have "res = Inr h \<Longrightarrow> \<exists>n. b' = b\<lparr> mb_attempts := n \<rparr>" for h
    using submit_with_backoff_frame up by fastforce
  then show ?thesis
    using assms pc up
    by (auto simp: da_inv_def ml_pc_ok_def batch_ok_def split: if_splits sum.splits)
qed

lemma da_inv_ml_commit:
  assumes "da_inv cfg s" "st_ml s = MlSubmitted b bs"
  shows "da_inv cfg (s\<lparr> st_db := update_mintlayer_batch b (st_db s), st_ml := MlNext bs \<rparr>)"
proof -
  have "db_ok cfg (st_db s)" "batch_ok cfg b" "mb_id b \<in> pending_batch_ids (st_db s)"
    using assms by (auto simp: da_inv_def ml_pc_ok_def)
  then have "db_ok cfg (update_mintlayer_batch b (st_db s))" by (intro db_ok_update_batch) auto
  then show ?thesis
    using assms by (auto simp: da_inv_def ml_pc_ok_def pending_batch_ids_update image_iff)
qed

lemma da_inv_ipfs_commit:
  assumes "da_inv cfg s" "st_ipfs s = IpfsQueue op b ops"
  shows "da_inv cfg (s\<lparr> st_db := update_mintlayer_batch b (update_ipfs_operations op (st_db s)),
                       st_ipfs := IpfsNext ops \<rparr>)"
proof -
  let ?db = "update_ipfs_operations op (st_db s)"
  have q: "op_status op = Completed" "op_ipfs_hash op \<noteq> None" "op_attempts op < ipfs_max_attempts cfg" "batch_ok cfg b"
      "mb_status b = Pending" "mb_attempts b = 0" "db_ok cfg (st_db s)"
    using assms by (auto simp: da_inv_def ipfs_pc_ok_def)
  then have "db_ok cfg (update_mintlayer_batch b ?db)"
    by (intro db_ok_update_batch db_ok_update_ipfs) auto
  moreover have "ml_pc_ok cfg (update_mintlayer_batch b ?db) (st_ml s)"
    using assms(1) q by (auto simp: da_inv_def pending_batch_ids_update intro: ml_pc_ok_mono)
  ultimately show ?thesis using assms by (simp add: da_inv_def ipfs_pc_ok_def)
qed

lemma da_inv_apply:
  assumes inv: "da_inv cfg s" and ap: "da_apply cfg e s = Some s'"
  shows "da_inv cfg s'"
proof (cases e)
  case (SaveOp fs i t c d)
  then obtain db' where db': "save_mintlayer_tx fs i t c d (st_db s) = Some db'" "s' = s\<lparr> st_db := db' \<rparr>"
    using ap by auto
  have "pending_batch_ids db' = pending_batch_ids (st_db s)" "db_ok cfg db'"
    using db_ok_save [OF _ db'(1), of cfg] inv by (auto simp: pending_batch_ids_def da_inv_def)
  then show ?thesis using inv db' by (auto simp: da_inv_def intro: ml_pc_ok_mono)
next
  case IpfsPoll
  then show ?thesis
    using ap inv by (auto simp: da_inv_def intro: ipfs_pc_ok_read split: if_splits)
next
  case (IpfsReadBatches i t)
  then obtain op h ops batches where *: "st_ipfs s = IpfsUploaded op h ops"
    "get_pending_mintlayer_batches (st_db s) = Some batches"
    "s' = s\<lparr> st_ipfs := IpfsQueue (complete_op op h)
        (queue_batch cfg batches (PendingMintlayerBatch_new i t) h) ops \<rparr>"
    using ap by (auto split: ipfs_pc.splits if_splits)
  then show ?thesis
    using inv queue_batch_ok [of cfg "st_db s"]
    by (auto simp: da_inv_def ipfs_pc_ok_def complete_op_def)
next
  case MlPoll
  then show ?thesis
    using ap inv by (auto simp: da_inv_def intro: ml_pc_ok_read split: if_splits)
next
  case (Cleanup fs t)
  then show ?thesis
    using ap inv
    by (auto simp: da_inv_def run_cleanup_iteration_def pending_batch_ids_cleanup
        intro: db_ok_cleanup ml_pc_ok_mono)
next
  case (IpfsUpload call)
  then show ?thesis using ap inv da_inv_upload by simp
next
  case (MlSubmit call)
  then show ?thesis using ap inv da_inv_submit by simp
next
  case IpfsCommit
  then show ?thesis using ap inv da_inv_ipfs_commit by (auto split: ipfs_pc.splits)
next
  case MlCommit
  then show ?thesis using ap inv da_inv_ml_commit by (auto split: ml_pc.splits)
qed (use ap inv in \<open>auto simp: da_inv_def ipfs_pc_ok_def ml_pc_ok_def split: ipfs_pc.splits ml_pc.splits if_splits\<close>)

lemma da_reach_inv: "da_reach cfg s \<Longrightarrow> da_inv cfg s"
  by (induction rule: da_reach.induct) (auto intro: da_inv_init da_inv_apply)

section \<open>No hash is lost while the loops exclude each other\<close>

text \<open>
  A hash is safe while it sits in a batch that is still to be posted or once Mintlayer has
  acknowledged a list that holds it.
\<close>

definition hash_safe :: "da_state \<Rightarrow> string \<Rightarrow> bool" where
  "hash_safe s h \<longleftrightarrow>
     (\<exists>r\<in>set (pending_mintlayer_batches (st_db s)). mr_status r = ''pending'' \<and> h \<in> set (mr_ipfs_hashes r)) \<or>
     (\<exists>p\<in>set (st_posted s). h \<in> set p)"

definition no_loss :: "da_state \<Rightarrow> bool" where
  "no_loss s \<longleftrightarrow>
     (\<forall>r\<in>set (pending_ipfs_operations (st_db s)). \<forall>h.
        ir_status r = ''completed'' \<and> ir_ipfs_hash r = Some h \<longrightarrow> hash_safe s h)"

definition queue_in_sync :: "da_state \<Rightarrow> bool" where
  "queue_in_sync s \<longleftrightarrow>
     (\<forall>op b ops. st_ipfs s = IpfsQueue op b ops \<longrightarrow>
        (\<forall>h. op_ipfs_hash op = Some h \<longrightarrow> h \<in> set (mb_ipfs_hashes b)) \<and>
        (\<forall>r\<in>set (pending_mintlayer_batches (st_db s)). mr_id r = mb_id b \<and> mr_status r = ''pending''
           \<longrightarrow> set (mr_ipfs_hashes r) \<subseteq> set (mb_ipfs_hashes b)))"

definition held_in_sync :: "da_state \<Rightarrow> bool" where
  "held_in_sync s \<longleftrightarrow>
     (\<forall>b\<in>set (held (st_ml s)). \<forall>r\<in>set (pending_mintlayer_batches (st_db s)).
        mr_id r = mb_id b \<longrightarrow> mr_ipfs_hashes r = mb_ipfs_hashes b) \<and>
     (\<forall>b bs. st_ml s = MlSubmitted b bs \<longrightarrow> mb_ipfs_hashes b \<in> set (st_posted s))"

definition excl_inv :: "WorkerConfig \<Rightarrow> da_state \<Rightarrow> bool" where
  "excl_inv cfg s \<longleftrightarrow>
     da_inv cfg s \<and> exclusive s \<and> no_loss s \<and> queue_in_sync s \<and> held_in_sync s"

lemma hash_safe_update_batch:
  assumes "hash_safe s h"
    and "\<And>r. r \<in> set (pending_mintlayer_batches (st_db s)) \<Longrightarrow> mr_id r = mb_id b \<Longrightarrow>
          mr_status r = ''pending'' \<Longrightarrow> h \<in> set (mr_ipfs_hashes r) \<Longrightarrow>
          mb_status b = Pending \<and> h \<in> set (mb_ipfs_hashes b) \<or> (\<exists>p\<in>set (st_posted s). h \<in> set p)"
    and "pending_mintlayer_batches db' = pending_mintlayer_batches (update_mintlayer_batch b (st_db s))"
  shows "hash_safe (s\<lparr> st_db := db', st_ipfs := pc, st_ml := mc \<rparr>) h"
proof -
  consider (row) r where "r \<in> set (pending_mintlayer_batches (st_db s))" "mr_status r = ''pending''"
      "h \<in> set (mr_ipfs_hashes r)" | (posted) "\<exists>p\<in>set (st_posted s). h \<in> set p"
    using assms(1) by (auto simp: hash_safe_def)
  then show ?thesis
  proof cases
    case row
    show ?thesis
    proof (cases "mr_id r = mb_id b")
      case True
      then show ?thesis
        using assms(2) [OF row(1) True row(2,3)] update_mintlayer_batch_has [of b "st_db s"] assms(3)
        by (auto simp: hash_safe_def)
    next
      case False
      then show ?thesis
        using row update_mintlayer_batch_keeps [of r "st_db s" b] assms(3) by (auto simp: hash_safe_def)
    qed
  qed (simp add: hash_safe_def)
qed

lemma queue_batch_in_sync:
  assumes "db_ok cfg db" "get_pending_mintlayer_batches db = Some bs"
    "i \<notin> mr_id ` set (pending_mintlayer_batches db)" "r \<in> set (pending_mintlayer_batches db)"
    "mr_id r = mb_id (queue_batch cfg bs (PendingMintlayerBatch_new i t) h)"
  shows "set (mr_ipfs_hashes r) \<subseteq> set (mb_ipfs_hashes (queue_batch cfg bs (PendingMintlayerBatch_new i t) h))"
proof -
  let ?t = "queue_target cfg bs (PendingMintlayerBatch_new i t)"
  have id: "mr_id r = mb_id ?t" using assms queue_batch_ok(4) by metis
  have "?t \<noteq> PendingMintlayerBatch_new i t"
    using id assms(3,4) by (auto simp: PendingMintlayerBatch_new_def)
  then have "?t \<in> set bs"
    by (cases "List.find (\<lambda>b. mb_status b = Pending \<and> length (mb_ipfs_hashes b) < batch_size cfg) bs")
       (auto simp: queue_target_def dest!: find_SomeD)
  from read_batch_ok(5) [OF assms(1,2) this] obtain r' where r': "r' \<in> set (pending_mintlayer_batches db)"
    "mr_id r' = mb_id ?t" "mr_ipfs_hashes r' = mb_ipfs_hashes ?t" by blast
  have "r' = r"
    using r' id assms(1,4) by (intro batch_row_unique [of db]) (auto simp: db_ok_def)
  then show ?thesis using r' queue_batch_ok(5) [OF assms(1,2)] by auto
qed

lemma held_in_sync_read:
  assumes "db_ok cfg db" "get_pending_mintlayer_batches db = Some bs" "b \<in> set bs"
    "r \<in> set (pending_mintlayer_batches db)" "mr_id r = mb_id b"
  shows "mr_ipfs_hashes r = mb_ipfs_hashes b"
proof -
  obtain r' where r': "r' \<in> set (pending_mintlayer_batches db)" "mr_id r' = mb_id b"
    "mr_ipfs_hashes r' = mb_ipfs_hashes b"
    using read_batch_ok(5) [OF assms(1-3)] by blast
  then have "r' = r"
    using assms(1,4,5) by (intro batch_row_unique [of db]) (auto simp: db_ok_def)
  then show ?thesis using r' by simp
qed

lemma completed_rows_update_ipfs:
  assumes "r \<in> set (pending_ipfs_operations (update_ipfs_operations op db))"
    "ir_status r = ''completed''" "ir_ipfs_hash r = Some h"
  shows "op_ipfs_hash op = Some h \<or>
    (\<exists>r'\<in>set (pending_ipfs_operations db). ir_status r' = ''completed'' \<and> ir_ipfs_hash r' = Some h)"
  using assms by (auto simp: update_ipfs_operations_def split: if_splits)

lemma excl_inv_ipfs_commit:
  assumes "excl_inv cfg s" "st_ipfs s = IpfsQueue op b ops"
  shows "no_loss (s\<lparr> st_db := update_mintlayer_batch b (update_ipfs_operations op (st_db s)),
                    st_ipfs := IpfsNext ops \<rparr>)"
  unfolding no_loss_def
proof (intro ballI allI impI)
  let ?s' = "s\<lparr> st_db := update_mintlayer_batch b (update_ipfs_operations op (st_db s)), st_ipfs := IpfsNext ops \<rparr>"
  fix r h
  assume r: "r \<in> set (pending_ipfs_operations (st_db ?s'))" "ir_status r = ''completed'' \<and> ir_ipfs_hash r = Some h"
  have b: "mb_status b = Pending"
    "\<forall>h. op_ipfs_hash op = Some h \<longrightarrow> h \<in> set (mb_ipfs_hashes b)"
    "\<forall>r\<in>set (pending_mintlayer_batches (st_db s)). mr_id r = mb_id b \<and> mr_status r = ''pending''
           \<longrightarrow> set (mr_ipfs_hashes r) \<subseteq> set (mb_ipfs_hashes b)"
    using assms by (auto simp: excl_inv_def da_inv_def ipfs_pc_ok_def queue_in_sync_def)
  have "pending_mintlayer_batches (st_db ?s') = pending_mintlayer_batches (update_mintlayer_batch b (st_db s))"
    by (simp add: update_mintlayer_batch_def)
  note safe = hash_safe_update_batch [where b = b and s = s and mc = "st_ml s" and pc = "IpfsNext ops"
      and db' = "st_db ?s'", OF _ _ this]
  from completed_rows_update_ipfs [of r op "st_db s" h] r
  consider "op_ipfs_hash op = Some h"
    | r' where "r' \<in> set (pending_ipfs_operations (st_db s))" "ir_status r' = ''completed''" "ir_ipfs_hash r' = Some h"
    by auto
  then show "hash_safe ?s' h"
  proof cases
    case 1
    then show ?thesis
      using b update_mintlayer_batch_has [of b "update_ipfs_operations op (st_db s)"]
      by (auto simp: hash_safe_def)
  next
    case 2
    then have "hash_safe s h" using assms(1) by (auto simp: excl_inv_def no_loss_def)
    then have "hash_safe (s\<lparr> st_db := st_db ?s', st_ipfs := IpfsNext ops, st_ml := st_ml s \<rparr>) h"
      by (rule safe) (use b in auto)
    then show ?thesis by simp
  qed
qed

lemma excl_inv_ml_commit:
  assumes "excl_inv cfg s" "st_ml s = MlSubmitted b bs"
  shows "no_loss (s\<lparr> st_db := update_mintlayer_batch b (st_db s), st_ml := MlNext bs \<rparr>)"
  unfolding no_loss_def
proof (intro ballI allI impI)
  let ?s' = "s\<lparr> st_db := update_mintlayer_batch b (st_db s), st_ml := MlNext bs \<rparr>"
  fix r h
  assume r: "r \<in> set (pending_ipfs_operations (st_db ?s'))" "ir_status r = ''completed'' \<and> ir_ipfs_hash r = Some h"
  have posted: "mb_ipfs_hashes b \<in> set (st_posted s)"
    "\<forall>r\<in>set (pending_mintlayer_batches (st_db s)). mr_id r = mb_id b \<longrightarrow> mr_ipfs_hashes r = mb_ipfs_hashes b"
    using assms by (auto simp: excl_inv_def held_in_sync_def)
  have "hash_safe s h" using assms(1) r by (auto simp: excl_inv_def no_loss_def)
  then have "hash_safe (s\<lparr> st_db := st_db ?s', st_ipfs := st_ipfs s, st_ml := MlNext bs \<rparr>) h"
    by (rule hash_safe_update_batch [where b = b]) (use posted in auto)
  then show "hash_safe ?s' h" by simp
qed

lemma excl_inv_frame:
  assumes "excl_inv cfg s" "da_inv cfg s'" "exclusive s'"
    and "\<And>r h. r \<in> set (pending_ipfs_operations (st_db s')) \<Longrightarrow> ir_status r = ''completed'' \<Longrightarrow>
          ir_ipfs_hash r = Some h \<Longrightarrow> \<exists>r'\<in>set (pending_ipfs_operations (st_db s)). ir_status r' = ''completed'' \<and> ir_ipfs_hash r' = Some h"
    and "set (pending_mintlayer_batches (st_db s')) \<subseteq> set (pending_mintlayer_batches (st_db s))"
    and "\<And>r. r \<in> set (pending_mintlayer_batches (st_db s)) \<Longrightarrow> mr_status r = ''pending'' \<Longrightarrow>
          r \<in> set (pending_mintlayer_batches (st_db s'))"
    and "set (st_posted s) \<subseteq> set (st_posted s')" and "queue_in_sync s'" and "held_in_sync s'"
  shows "excl_inv cfg s'"
proof -
  have "hash_safe s h \<Longrightarrow> hash_safe s' h" for h
    using assms(6,7) by (auto simp: hash_safe_def)
  then have "no_loss s'"
    using assms(1,4) unfolding excl_inv_def no_loss_def by metis
  then show ?thesis using assms by (simp add: excl_inv_def)
qed

lemma save_mintlayer_tx_completed:
  assumes "save_mintlayer_tx fs i t c d db = Some db'" "r \<in> set (pending_ipfs_operations db')"
    "ir_status r = ''completed''"
  shows "r \<in> set (pending_ipfs_operations db)"
  using assms
  by (auto simp: save_mintlayer_tx_def save_pending_operation_def new_pending_op_def split: sum.splits if_splits)

lemma excl_inv_apply:
  assumes inv: "excl_inv cfg s" and ap: "da_apply cfg e s = Some s'" and ex: "exclusive s'"
  shows "excl_inv cfg s'"
proof -
  have da: "da_inv cfg s" and da': "da_inv cfg s'" and db: "db_ok cfg (st_db s)"
    using inv ap da_inv_apply by (auto simp: excl_inv_def da_inv_def)
  have sync: "queue_in_sync s" "held_in_sync s" "no_loss s" "exclusive s"
    using inv by (auto simp: excl_inv_def)
  note frame = excl_inv_frame [OF inv da' ex]
  show ?thesis
  proof (cases e)
    case (SaveOp fs i t c d)
    then obtain db' where db': "save_mintlayer_tx fs i t c d (st_db s) = Some db'" "s' = s\<lparr> st_db := db' \<rparr>"
      using ap by auto
    note * = db_ok_save(2) [OF db db'(1)] save_mintlayer_tx_completed [OF db'(1)]
    show ?thesis
      by (rule frame) (use * db'(2) sync in \<open>auto simp: queue_in_sync_def held_in_sync_def\<close>)
  next
    case (IpfsUpload call)
    then have s': "st_db s' = st_db s" "st_posted s' = st_posted s" "st_ml s' = st_ml s"
        "\<And>op b ops. st_ipfs s' \<noteq> IpfsQueue op b ops"
      using ap by (auto split: ipfs_pc.splits list.splits if_splits sum.splits prod.splits)
    show ?thesis
      by (rule frame) (use s' sync in \<open>auto simp: queue_in_sync_def held_in_sync_def\<close>)
  next
    case (IpfsReadBatches i t)
    then obtain op h ops bs where *: "st_ipfs s = IpfsUploaded op h ops"
      "i \<notin> mr_id ` set (pending_mintlayer_batches (st_db s))"
      "get_pending_mintlayer_batches (st_db s) = Some bs"
      "s' = s\<lparr> st_ipfs := IpfsQueue (complete_op op h)
          (queue_batch cfg bs (PendingMintlayerBatch_new i t) h) ops \<rparr>"
      using ap by (auto split: ipfs_pc.splits if_splits)
    have "queue_in_sync s'"
      using * queue_batch_in_sync [OF db *(3) *(2)] queue_batch_ok(5) [OF db *(3)]
      by (auto simp: queue_in_sync_def complete_op_def)
    then show ?thesis
      by (intro frame) (use * sync in \<open>auto simp: held_in_sync_def\<close>)
  next
    case IpfsCommit
    then obtain op b ops where pc: "st_ipfs s = IpfsQueue op b ops"
      and s': "s' = s\<lparr> st_db := update_mintlayer_batch b (update_ipfs_operations op (st_db s)), st_ipfs := IpfsNext ops \<rparr>"
      using ap by (auto split: ipfs_pc.splits)
    have "st_ml s = MlIdle" using sync(4) pc by (simp add: exclusive_def)
    then show ?thesis
      using excl_inv_ipfs_commit [OF inv pc] da' ex s'
      by (simp add: excl_inv_def queue_in_sync_def held_in_sync_def)
  next
    case MlPoll
    then obtain bs where s': "get_pending_mintlayer_batches (st_db s) = Some bs" "s' = s\<lparr> st_ml := MlNext bs \<rparr>"
      using ap by (auto split: if_splits)
    show ?thesis
      by (rule frame) (use s' sync held_in_sync_read [OF db s'(1)] in
          \<open>auto simp: queue_in_sync_def held_in_sync_def\<close>)
  next
    case (MlSubmit call)
    then obtain b bs where pc: "st_ml s = MlNext (b # bs)"
      using ap by (auto split: ml_pc.splits list.splits)
    obtain res b' ds where up: "submit_to_mintlayer_with_backoff cfg (mc_envs call) b = (res, b', ds)"
      by (cases "submit_to_mintlayer_with_backoff cfg (mc_envs call) b") auto
    have "res = Inr h \<Longrightarrow> \<exists>n. b' = b\<lparr> mb_attempts := n \<rparr>" for h
      using submit_with_backoff_frame up by fastforce
    then have held: "held_in_sync s'"
      using ap MlSubmit pc up sync(2) by (auto simp: held_in_sync_def split: if_splits sum.splits)
    have "st_db s' = st_db s" "st_ipfs s' = st_ipfs s"
      using ap MlSubmit pc up by (auto split: if_splits sum.splits)
    with sync(1) have "queue_in_sync s'" by (simp add: queue_in_sync_def)
    note this held
    then show ?thesis
      by (intro frame) (use ap MlSubmit pc up in \<open>auto split: if_splits sum.splits\<close>)
  next
    case MlCommit
    then obtain b bs where pc: "st_ml s = MlSubmitted b bs"
      and s': "s' = s\<lparr> st_db := update_mintlayer_batch b (st_db s), st_ml := MlNext bs \<rparr>"
      using ap by (auto split: ml_pc.splits)
    have nq: "\<nexists>op b ops. st_ipfs s = IpfsQueue op b ops" using sync(4) pc by (auto simp: exclusive_def)
    have "mb_id b' \<noteq> mb_id b" if "b' \<in> set bs" for b'
      using da pc that by (auto simp: da_inv_def ml_pc_ok_def image_iff)
    then have "held_in_sync s'"
      using s' pc sync(2) update_mintlayer_batch_mem [of _ b "st_db s"]
      by (fastforce simp: held_in_sync_def)
    then show ?thesis
      using excl_inv_ml_commit [OF inv pc] da' ex s' nq by (simp add: excl_inv_def queue_in_sync_def)
  next
    case (Cleanup fs t)
    have keep: "r \<in> set (pending_mintlayer_batches (st_db s'))"
      if "r \<in> set (pending_mintlayer_batches (st_db s))" "mr_status r = ''pending''" for r
      using that ap Cleanup db pending_row_kept [of cfg r]
      by (auto simp: run_cleanup_iteration_def cleanup_old_operations_def db_ok_def)
    have sub: "set (pending_mintlayer_batches (st_db s')) \<subseteq> set (pending_mintlayer_batches (st_db s))"
      "set (pending_ipfs_operations (st_db s')) \<subseteq> set (pending_ipfs_operations (st_db s))"
      "st_posted s' = st_posted s" "st_ipfs s' = st_ipfs s" "st_ml s' = st_ml s"
      using ap Cleanup
      by (auto simp: run_cleanup_iteration_def cleanup_old_operations_def split: if_splits)
    have "queue_in_sync s'" "held_in_sync s'"
      using sub sync by (fastforce simp: queue_in_sync_def held_in_sync_def)+
    then show ?thesis by (intro frame) (use keep sub in auto)
  next
    case MlFinish
    then have s': "s' = s\<lparr> st_ml := MlIdle \<rparr>" using ap by (simp split: if_splits)
    then have "queue_in_sync s'" "held_in_sync s'"
      using sync(1) by (simp_all add: queue_in_sync_def held_in_sync_def)
    then show ?thesis by (intro frame) (use s' in auto)
  next
    case MlDbError
    then obtain b bs where s': "st_ml s = MlSubmitted b bs" "s' = s\<lparr> st_ml := MlNext bs \<rparr>"
      using ap by (auto split: ml_pc.splits)
    then have "queue_in_sync s'" "held_in_sync s'"
      using sync(1,2) by (simp_all add: queue_in_sync_def held_in_sync_def)
    then show ?thesis by (intro frame) (use s' in auto)
  next
    case IpfsCommitPlain
    then show ?thesis
      using ap da by (auto simp: da_inv_def ipfs_pc_ok_def split: ipfs_pc.splits if_splits)
  qed (rule frame; use ap sync in \<open>auto simp: queue_in_sync_def held_in_sync_def split: if_splits ipfs_pc.splits ml_pc.splits\<close>)+
qed

lemma excl_inv_init: "excl_inv cfg (da_init cfg)"
  by (simp add: excl_inv_def da_inv_init)
     (simp add: da_init_def exclusive_def no_loss_def queue_in_sync_def held_in_sync_def empty_da_db_def)

lemma da_reach_exclusive_inv: "da_reach_exclusive cfg s \<Longrightarrow> excl_inv cfg s"
  by (induction rule: da_reach_exclusive.induct) (auto intro: excl_inv_init excl_inv_apply)

section \<open>A run in which the loops overlap\<close>

text \<open>
  A world in which every upload returns the given hash and every submission is acknowledged, and
  a run of two operations: the Mintlayer loop has read and posted the batch of the first when the
  IPFS loop adds the second hash to that batch; the Mintlayer commit then writes its older copy
  back.
\<close>

definition demo_s3 :: "string \<Rightarrow> (unit, unit) s3_env" where
  "demo_s3 hash =
     \<lparr> s3_env_var = (\<lambda>_. Some ''x''), credentials_new = (\<lambda>_ _. Inr ()), bucket_new = (\<lambda>_ _ _ _. Inr ()),
       doc_uuid = ''0'', put_object_stream = (\<lambda>_ _ _. Inr 200),
       head_object = (\<lambda>_ _. Inr (Some [''ipfs-hash'' \<mapsto> hash])), status_code_string = (\<lambda>_. []) \<rparr>"

definition demo_ml :: ml_env where
  "demo_ml =
     \<lparr> ml_env_var = (\<lambda>_. Some ''x''), base64_encode = id, hex_encode = id,
       http_post = (\<lambda>_ _ _. Inr \<lparr> is_success = True, status_string = [], body_text = Inr [] \<rparr>),
       json_from_str = (\<lambda>_. Inr (JObject [(''result'', JString ''tx'')])) \<rparr>"

definition demo_upload :: "string \<Rightarrow> (unit, unit) da_event" where
  "demo_upload hash = IpfsUpload \<lparr> ic_envs = (\<lambda>_. demo_s3 hash), ic_check_time = 0, ic_fail_time = 0,
     ic_new_id = 0, ic_batch_time = 0, ic_faults = (\<lambda>_. None) \<rparr>"

definition demo_submit :: "(unit, unit) da_event" where
  "demo_submit = MlSubmit \<lparr> mc_envs = (\<lambda>_. demo_ml), mc_check_time = 0, mc_fail_time = 0, mc_faults = (\<lambda>_. None) \<rparr>"

definition lost_update_run :: "(unit, unit) da_event list" where
  "lost_update_run =
     [SaveOp (\<lambda>_. None) 1 0 ''commit'' [],
      IpfsPoll, demo_upload ''h0'', IpfsReadBatches 10 0, IpfsCommit, IpfsFinish,
      SaveOp (\<lambda>_. None) 2 0 ''proof'' [],
      MlPoll, demo_submit,
      IpfsPoll, demo_upload ''h1'', IpfsReadBatches 11 0, IpfsCommit, IpfsFinish,
      MlCommit, MlFinish]"


lemma demo_upload_step:
  assumes "st_ipfs s = IpfsNext (op # ops)" "last_failure (st_ipfs_cb s) = None" "failures (st_ipfs_cb s) = 0" "failure_threshold (st_ipfs_cb s) = 5"
    "op_attempts op = 0"
  shows "da_apply aggregator_worker_config (demo_upload h) s = Some (s\<lparr> st_ipfs := IpfsUploaded op h ops \<rparr>)"
  using assms
  by (simp add: demo_upload_def is_open_def upload_to_ipfs_with_backoff_def upload_loop.simps
      setup_and_upload_to_ipfs_def upload_to_ipfs_def env_or_config_error_def demo_s3_def
      aggregator_worker_config_def split: option.splits)

lemma demo_submit_step:
  assumes "st_ml s = MlNext (b # bs)" "last_failure (st_ml_cb s) = None" "failures (st_ml_cb s) = 0" "failure_threshold (st_ml_cb s) = 5"
    "mb_attempts b = 0"
  shows "da_apply aggregator_worker_config demo_submit s =
     Some (s\<lparr> st_ml := MlSubmitted (b\<lparr> mb_status := Completed, mb_tx_hash := Some ''tx'' \<rparr>) bs,
              st_posted := st_posted s @ [mb_ipfs_hashes b] \<rparr>)"
  using assms
  by (simp add: demo_submit_def is_open_def submit_to_mintlayer_with_backoff_def submit_loop.simps
      submit_to_mintlayer_def env_or_config_error_def demo_ml_def
      aggregator_worker_config_def split: option.splits)

lemmas da_run_simps = get_pending_ipfs_operations_def get_pending_mintlayer_batches_def
  select_pending_ipfs_def select_pending_mintlayer_def MAX_BATCH_SIZE_def is_pending_text_def
  ipfs_row_to_op_def mintlayer_row_to_batch_def OperationType_from_str_def status_of_text_def
  update_ipfs_operations_def update_mintlayer_batch_def save_mintlayer_tx_def save_pending_operation_def
  new_pending_op_def complete_op_def queue_batch_def queue_target_def PendingMintlayerBatch_new_def


definition demo_state :: "da_db \<Rightarrow> ipfs_pc \<Rightarrow> ml_pc \<Rightarrow> string list list \<Rightarrow> da_state" where
  "demo_state db pc mc posted = (da_init aggregator_worker_config)\<lparr> st_db := db, st_ipfs := pc, st_ml := mc, st_posted := posted \<rparr>"

lemma demo_state_simps [simp]:
  "st_db (demo_state db pc mc p) = db" "st_ipfs (demo_state db pc mc p) = pc" "st_ml (demo_state db pc mc p) = mc"
  "st_posted (demo_state db pc mc p) = p" 
  "(demo_state db pc mc p)\<lparr> st_db := db' \<rparr> = demo_state db' pc mc p"
  "(demo_state db pc mc p)\<lparr> st_ipfs := pc' \<rparr> = demo_state db pc' mc p"
  "(demo_state db pc mc p)\<lparr> st_ml := mc' \<rparr> = demo_state db pc mc' p"
  "(demo_state db pc mc p)\<lparr> st_ml := mc', st_posted := p' \<rparr> = demo_state db pc mc' p'"
  "(demo_state db pc mc p)\<lparr> st_db := db', st_ml := mc' \<rparr> = demo_state db' pc mc' p"
  "(demo_state db pc mc p)\<lparr> st_db := db', st_ipfs := pc' \<rparr> = demo_state db' pc' mc p"
  "st_ipfs_cb (demo_state db pc mc p) = CircuitBreaker_new 5 300000"
  "st_ml_cb (demo_state db pc mc p) = CircuitBreaker_new 5 300000"
  "da_init aggregator_worker_config = demo_state empty_da_db IpfsIdle MlIdle []"
  by (simp_all add: demo_state_def da_init_def DataAvailabilityWorker_new_def)

lemma CircuitBreaker_new_simps [simp]: "last_failure (CircuitBreaker_new t d) = None" "failures (CircuitBreaker_new t d) = 0"
  "failure_threshold (CircuitBreaker_new t d) = t"
  by (simp_all add: CircuitBreaker_new_def)


definition lost_update_db :: da_db where
  "lost_update_db = \<lparr> pending_ipfs_operations =
            [\<lparr> ir_id = 1, ir_operation_type = ''commit'', ir_data = [], ir_attempts = 0, ir_last_attempt = None,
               ir_created_at = 0, ir_status = ''completed'', ir_ipfs_hash = Some ''h0'', ir_requires_mintlayer = True \<rparr>,
             \<lparr> ir_id = 2, ir_operation_type = ''proof'', ir_data = [], ir_attempts = 0, ir_last_attempt = None,
               ir_created_at = 0, ir_status = ''completed'', ir_ipfs_hash = Some ''h1'', ir_requires_mintlayer = True \<rparr>],
          pending_mintlayer_batches =
            [\<lparr> mr_id = 10, mr_ipfs_hashes = [''h0''], mr_attempts = 0, mr_last_attempt = None,
               mr_created_at = 0, mr_status = ''completed'', mr_tx_hash = None \<rparr>] \<rparr>"

lemma aggregator_batch_size: "batch_size aggregator_worker_config = 6" by (simp add: aggregator_worker_config_def)

lemma lost_update_run_result:
  "da_exec aggregator_worker_config lost_update_run (demo_state empty_da_db IpfsIdle MlIdle []) =
    Some (demo_state lost_update_db IpfsIdle MlIdle [[''h0'']])"
  by (simp add: lost_update_run_def lost_update_db_def empty_da_db_def demo_upload_step demo_submit_step da_run_simps aggregator_batch_size Let_def)

section \<open>Reachability of executed runs\<close>

lemma da_reach_exec:
  "da_reach cfg s \<Longrightarrow> da_exec cfg (es :: (unit, unit) da_event list) s = Some s' \<Longrightarrow> da_reach cfg s'"
proof (induction es arbitrary: s)
  case (Cons e es)
  then show ?case by (auto split: option.splits intro: da_reach.step)
qed simp

fun da_exec_exclusive :: "WorkerConfig \<Rightarrow> ('c, 'b) da_event list \<Rightarrow> da_state \<Rightarrow> da_state option" where
  "da_exec_exclusive cfg [] s = Some s"
| "da_exec_exclusive cfg (e # es) s =
     (case da_apply cfg e s of
        None \<Rightarrow> None
      | Some s' \<Rightarrow> if exclusive s' then da_exec_exclusive cfg es s' else None)"

lemma da_reach_exclusive_exec:
  "da_reach_exclusive cfg s \<Longrightarrow> da_exec_exclusive cfg (es :: (unit, unit) da_event list) s = Some s'
   \<Longrightarrow> da_reach_exclusive cfg s'"
proof (induction es arbitrary: s)
  case (Cons e es)
  then show ?case by (auto split: option.splits if_splits intro: da_reach_exclusive.step)
qed simp

section \<open>The sequential functions are runs of the protocol\<close>

fun ipfs_event :: "('c, 'b) da_event \<Rightarrow> bool" where
  "ipfs_event IpfsPoll \<longleftrightarrow> True"
| "ipfs_event IpfsFinish \<longleftrightarrow> True"
| "ipfs_event (IpfsUpload call) \<longleftrightarrow> True"
| "ipfs_event IpfsDbError \<longleftrightarrow> True"
| "ipfs_event IpfsCommitPlain \<longleftrightarrow> True"
| "ipfs_event (IpfsReadBatches new_id now) \<longleftrightarrow> True"
| "ipfs_event IpfsCommit \<longleftrightarrow> True"
| "ipfs_event _ \<longleftrightarrow> False"

text \<open>
  C8. Refinement: what \<open>process_ipfs_operation\<close> does to the database and to the breaker is a
  run of the step relation all of whose events are events of the IPFS loop, for every outcome of the upload and
  of the database calls, provided that the id for a new batch is fresh. So the interleaved model contains the sequential one.
\<close>

theorem process_ipfs_operation_steps:
  fixes call :: "('c, 'b) ipfs_call"
  assumes "st_ipfs s = IpfsNext (op # ops)"
    and "process_ipfs_operation cfg call op (st_db s, st_ipfs_cb s) = Some (r, db', cb')"
    and "ic_new_id call \<notin> mr_id ` set (pending_mintlayer_batches (st_db s))"
  shows "\<exists>es :: ('c, 'b) da_event list. list_all ipfs_event es \<and>
    da_exec cfg es s = Some (s\<lparr> st_db := db', st_ipfs_cb := cb', st_ipfs := IpfsNext ops \<rparr>)"
  using assms(2)
proof (cases rule: process_ipfs_operation_cases)
  case opened
  then show ?thesis by (intro exI [of _ "[IpfsUpload call]"]) (simp add: assms(1))
next
  case (upload_failed e op' ds)
  then show ?thesis by (intro exI [of _ "[IpfsUpload call]"]) (simp add: assms(1))
next
  case (db_failed h op' ds e)
  then show ?thesis by (intro exI [of _ "[IpfsUpload call, IpfsDbError]"]) (simp add: assms(1))
next
  case (queued h op' ds batches)
  then show ?thesis
    by (intro exI [of _ "[IpfsUpload call, IpfsReadBatches (ic_new_id call) (ic_batch_time call), IpfsCommit]"])
       (simp add: assms(1,3))
next
  case (plain h op' ds)
  then show ?thesis
    by (intro exI [of _ "[IpfsUpload call, IpfsCommitPlain]"]) (simp add: assms(1))
qed

theorem process_ipfs_operation_steps_witness:
  "\<exists>es :: (unit, unit) da_event list. list_all ipfs_event es \<and>
     da_exec aggregator_worker_config es
       (demo_state empty_da_db (IpfsNext [new_pending_op 2 0 OtCommit []]) MlIdle []) =
     Some ((demo_state empty_da_db (IpfsNext [new_pending_op 2 0 OtCommit []]) MlIdle [])
       \<lparr> st_ipfs_cb := (CircuitBreaker_new 5 300000)\<lparr> failures := 1, last_failure := Some 7 \<rparr>,
         st_ipfs := IpfsNext [] \<rparr>)"
proof -
  let ?env = "(demo_s3 [])\<lparr> put_object_stream := (\<lambda>_ _ _. Inr 503) \<rparr>"
  let ?call = "\<lparr> ic_envs = (\<lambda>_. ?env), ic_check_time = 0, ic_fail_time = 7, ic_new_id = 10,
    ic_batch_time = 0, ic_faults = (\<lambda>_. None) \<rparr>"
  let ?op = "new_pending_op 2 0 OtCommit []"
  let ?s = "demo_state empty_da_db (IpfsNext [?op]) MlIdle []"
  have le: "\<not> (5 :: u32) \<le> 1" by (simp add: word_le_nat_alt)
  have up: "upload_to_ipfs_with_backoff aggregator_worker_config (\<lambda>_. ?env) ?op =
      (Inl (IPFSError ''Upload failed with status: ''), ?op\<lparr> op_attempts := 5 \<rparr>, [1000, 2000, 4000, 8000])"
    by (simp add: upload_to_ipfs_with_backoff_def upload_loop.simps setup_and_upload_to_ipfs_def
        upload_to_ipfs_def env_or_config_error_def demo_s3_def aggregator_worker_config_def new_pending_op_def Let_def le)
  have "process_ipfs_operation aggregator_worker_config ?call ?op (st_db ?s, st_ipfs_cb ?s) =
      Some (Inl (IPFSError ''Upload failed with status: ''), empty_da_db,
            (CircuitBreaker_new 5 300000)\<lparr> failures := 1, last_failure := Some 7 \<rparr>)"
    by (simp add: process_ipfs_operation_def up is_open_def record_failure_def Let_def)
  from process_ipfs_operation_steps [OF _ this, of "[]"] show ?thesis
    by (simp add: empty_da_db_def)
qed

section \<open>Properties\<close>

text \<open>
  C4. Safety of publishing: as long as the IPFS loop and the Mintlayer loop do not overlap inside
  \<open>queue_mintlayer_batch\<close>, every operation marked completed has its IPFS hash either in a batch
  that is still pending or in a list that Mintlayer has acknowledged, in every reachable state,
  whatever fails in between.
\<close>

theorem no_hash_lost_when_exclusive:
  assumes "da_reach_exclusive cfg s" "r \<in> set (pending_ipfs_operations (st_db s))"
    "ir_status r = ''completed''"
  shows "\<exists>h. ir_ipfs_hash r = Some h \<and> hash_safe s h"
  using da_reach_exclusive_inv [OF assms(1)] assms(2,3)
  by (auto simp: excl_inv_def no_loss_def da_inv_def db_ok_def ipfs_row_ok_def)

definition first_publish :: "(unit, unit) da_event list" where
  "first_publish =
     [SaveOp (\<lambda>_. None) 1 0 ''commit'' [], IpfsPoll, demo_upload ''h0'', IpfsReadBatches 10 0, IpfsCommit]"

definition first_publish_row :: ipfs_row where
  "first_publish_row =
     \<lparr> ir_id = 1, ir_operation_type = ''commit'', ir_data = [], ir_attempts = 0, ir_last_attempt = None,
       ir_created_at = 0, ir_status = ''completed'', ir_ipfs_hash = Some ''h0'', ir_requires_mintlayer = True \<rparr>"

theorem no_hash_lost_when_exclusive_witness:
  "\<exists>s. da_exec aggregator_worker_config first_publish (da_init aggregator_worker_config) = Some s \<and>
     (\<exists>h. ir_ipfs_hash first_publish_row = Some h \<and> hash_safe s h)"
proof -
  let ?s = "demo_state \<lparr> pending_ipfs_operations = [first_publish_row], pending_mintlayer_batches =
      [\<lparr> mr_id = 10, mr_ipfs_hashes = [''h0''], mr_attempts = 0, mr_last_attempt = None,
         mr_created_at = 0, mr_status = ''pending'', mr_tx_hash = None \<rparr>] \<rparr> (IpfsNext []) MlIdle []"
  have run: "da_exec aggregator_worker_config first_publish (da_init aggregator_worker_config) = Some ?s"
    "da_exec_exclusive aggregator_worker_config first_publish (da_init aggregator_worker_config) = Some ?s"
    by (simp_all add: first_publish_def first_publish_row_def empty_da_db_def demo_upload_step
        da_run_simps aggregator_batch_size exclusive_def Let_def)
  have reach: "da_reach_exclusive aggregator_worker_config ?s"
    using da_reach_exclusive_exec [OF da_reach_exclusive.init run(2)] .
  have "\<exists>h. ir_ipfs_hash first_publish_row = Some h \<and> hash_safe ?s h"
    by (rule no_hash_lost_when_exclusive [OF reach]) (simp_all add: first_publish_row_def)
  with run(1) show ?thesis by blast
qed

text \<open>
  C5. Without that exclusion the guarantee fails: with the production configuration there is a
  reachable state in which both loops are idle, an operation is completed, and its hash is in no
  pending batch and in no list Mintlayer has acknowledged. The Mintlayer commit writes back the
  hash list it read, which removes a hash the IPFS loop added in the meantime.
\<close>

theorem hash_lost_when_loops_overlap:
  "\<exists>s r h. da_reach aggregator_worker_config s \<and> st_ipfs s = IpfsIdle \<and> st_ml s = MlIdle \<and>
     r \<in> set (pending_ipfs_operations (st_db s)) \<and> ir_status r = ''completed'' \<and>
     ir_ipfs_hash r = Some h \<and> \<not> hash_safe s h"
proof -
  let ?s = "demo_state lost_update_db IpfsIdle MlIdle [[''h0'']]"
  have "da_reach aggregator_worker_config ?s"
    using da_reach_exec [OF da_reach.init, of aggregator_worker_config lost_update_run] lost_update_run_result
    by simp
  moreover have "\<not> hash_safe ?s ''h1''" by (simp add: hash_safe_def lost_update_db_def)
  moreover have "\<exists>r\<in>set (pending_ipfs_operations lost_update_db).
      ir_status r = ''completed'' \<and> ir_ipfs_hash r = Some ''h1''"
    by (simp add: lost_update_db_def)
  ultimately show ?thesis by (intro exI [of _ ?s]) auto
qed

text \<open>
  C6. Bound and error bookkeeping, in every reachable state and under every interleaving: a batch
  row holds at least one and at most \<open>max 1 batch_size\<close> hashes; every status is pending or
  completed, never failed or in progress; the attempt counter of every batch row and of every pending operation is zero, so
  the limit \<open>MAX_RETRY_ATTEMPTS\<close> of the queries never applies; a completed operation has its hash and counts the
  failed uploads before the successful one, fewer than \<open>ipfs_max_attempts\<close>; no batch row has a
  transaction hash, so the hash of the Mintlayer transaction is not stored.
\<close>

theorem reachable_tables:
  assumes "da_reach cfg s"
  shows "(\<forall>r\<in>set (pending_mintlayer_batches (st_db s)).
           1 \<le> length (mr_ipfs_hashes r) \<and> length (mr_ipfs_hashes r) \<le> max 1 (batch_size cfg) \<and>
           mr_status r \<in> {''pending'', ''completed''} \<and> mr_attempts r = 0 \<and> mr_tx_hash r = None) \<and>
         (\<forall>r\<in>set (pending_ipfs_operations (st_db s)).
           (ir_status r = ''pending'' \<and> ir_attempts r = 0 \<and> ir_ipfs_hash r = None) \<or>
           (ir_status r = ''completed'' \<and> ir_attempts r < ipfs_max_attempts cfg \<and> ir_ipfs_hash r \<noteq> None))"
  using da_reach_inv [OF assms]
  by (auto simp: da_inv_def db_ok_def ml_row_ok_def ipfs_row_ok_def Suc_le_eq)

theorem reachable_tables_witness:
  "list_all (\<lambda>r. 1 \<le> length (mr_ipfs_hashes r) \<and> length (mr_ipfs_hashes r) \<le> 6 \<and>
     mr_status r \<in> {''pending'', ''completed''} \<and> mr_attempts r = 0 \<and> mr_tx_hash r = None)
     (pending_mintlayer_batches lost_update_db)"
proof -
  have reach: "da_reach aggregator_worker_config (demo_state lost_update_db IpfsIdle MlIdle [[''h0'']])"
    using da_reach_exec [OF da_reach.init, of aggregator_worker_config lost_update_run] lost_update_run_result
    by simp
  show ?thesis
    using reachable_tables [OF reach, THEN conjunct1] by (simp add: aggregator_batch_size list_all_iff)
qed

text \<open>
  C7. No panic: in every reachable state both queries decode every row they select, so neither the
  \<open>expect\<close> on the operation type nor the \<open>panic!\<close> on the status can fire.
\<close>

theorem reachable_queries_do_not_panic:
  assumes "da_reach cfg s"
  shows "get_pending_ipfs_operations (st_db s) \<noteq> None \<and> get_pending_mintlayer_batches (st_db s) \<noteq> None"
  using da_reach_inv [OF assms]
  by (simp add: da_inv_def db_ok_def get_pending_ipfs_operations_defined get_pending_mintlayer_batches_defined)

theorem reachable_queries_do_not_panic_witness:
  "get_pending_ipfs_operations lost_update_db \<noteq> None \<and> get_pending_mintlayer_batches lost_update_db \<noteq> None"
proof -
  have reach: "da_reach aggregator_worker_config (demo_state lost_update_db IpfsIdle MlIdle [[''h0'']])"
    using da_reach_exec [OF da_reach.init, of aggregator_worker_config lost_update_run] lost_update_run_result
    by simp
  show ?thesis using reachable_queries_do_not_panic [OF reach] by simp
qed

end
