(* ===== verification/MiniMerkleTree.thy ===== *)
theory MiniMerkleTree
  imports Prelude
begin

text \<open>
  The in-memory Merkle tree of \<^verbatim>\<open>core/lib/mini_merkle_tree/src/lib.rs\<close>, used for the tree of
  L2-to-L1 logs. The tree is modelled for its default hasher \<^verbatim>\<open>KeccakHasher\<close>, the only one that implements
  \<^verbatim>\<open>HashEmptySubtree\<close> (for leaves of 88 bytes); \<open>compute_empty_tree_hashes\<close> names it. Keccak-256 itself, which is
  a crate, is a parameter: a hash is a value of type \<open>'h\<close>, \<open>hash_bytes\<close> hashes a leaf and \<open>compress\<close> two
  children. Every \<open>assert!\<close>, \<open>expect\<close> and index of the
  code that can fail is a \<open>None\<close> of the model.

  The reference is \<open>node\<close>, the textbook recursion on the levels of a complete tree whose leaves
  are the leaves pushed so far, followed by empty leaves. The lemmas show that the level loop with
  its cache of trimmed subtrees computes the reference root and paths, for every sequence of
  \<open>push\<close> and \<open>trim_start\<close>.
\<close>

section \<open>Powers of two\<close>

fun trailing_zeros :: "nat \<Rightarrow> nat" where
  "trailing_zeros n = (if n = 0 \<or> odd n then 0 else Suc (trailing_zeros (n div 2)))"

declare trailing_zeros.simps [simp del]

definition is_power_of_two :: "nat \<Rightarrow> bool" where
  "is_power_of_two n \<longleftrightarrow> n = 2 ^ trailing_zeros n"

function next_power_of_two :: "nat \<Rightarrow> nat" where
  "next_power_of_two n = (if n \<le> 1 then 1 else 2 * next_power_of_two ((n + 1) div 2))"
  by pat_completeness auto
termination
  by (relation "measure id") auto

declare next_power_of_two.simps [simp del]

definition tree_depth_by_size :: "nat \<Rightarrow> nat" where
  "tree_depth_by_size tree_size = trailing_zeros tree_size"

definition MAX_TREE_DEPTH :: nat where
  "MAX_TREE_DEPTH = 32"

section \<open>The hasher\<close>

record 'h KeccakHasher =
  hash_bytes :: "bytes \<Rightarrow> 'h"
  compress :: "'h \<Rightarrow> 'h \<Rightarrow> 'h"

definition empty_leaf_hash :: "'h KeccakHasher \<Rightarrow> 'h" where
  "empty_leaf_hash H = hash_bytes H (replicate 88 0)"

fun successors :: "('a \<Rightarrow> 'a) \<Rightarrow> nat \<Rightarrow> 'a \<Rightarrow> 'a list" where
  "successors f 0 x = []"
| "successors f (Suc n) x = x # successors f n (f x)"

definition compute_empty_tree_hashes :: "'h KeccakHasher \<Rightarrow> 'h list" where
  "compute_empty_tree_hashes H =
     successors (\<lambda>hash. compress H hash hash) (MAX_TREE_DEPTH + 1) (empty_leaf_hash H)"

text \<open>Indexing the table beyond its end panics.\<close>

definition get :: "'a list \<Rightarrow> nat \<Rightarrow> 'a option" where
  "get xs i = (if i < length xs then Some (xs ! i) else None)"

definition empty_subtree_hash :: "'h KeccakHasher \<Rightarrow> nat \<Rightarrow> 'h option" where
  "empty_subtree_hash H depth = get (compute_empty_tree_hashes H) depth"

section \<open>The tree\<close>

datatype Side = LeftSide | RightSide

record 'h MiniMerkleTree =
  hashes :: "'h list"
  binary_tree_size :: nat
  start_index :: nat
  cache :: "'h option list"

definition from_hashes :: "'h list \<Rightarrow> nat option \<Rightarrow> 'h MiniMerkleTree option" where
  "from_hashes hs min_tree_size =
     (let size0 = next_power_of_two (length hs)
      in case min_tree_size of
           Some m \<Rightarrow>
             if \<not> is_power_of_two m then None
             else (let size = max m size0
                   in if tree_depth_by_size size \<le> MAX_TREE_DEPTH
                      then Some \<lparr> hashes = hs, binary_tree_size = size, start_index = 0,
                                  cache = replicate (tree_depth_by_size size) None \<rparr>
                      else None)
         | None \<Rightarrow>
             if tree_depth_by_size size0 \<le> MAX_TREE_DEPTH
             then Some \<lparr> hashes = hs, binary_tree_size = size0, start_index = 0,
                         cache = replicate (tree_depth_by_size size0) None \<rparr>
             else None)"

definition with_hasher :: "'h KeccakHasher \<Rightarrow> bytes list \<Rightarrow> nat option \<Rightarrow> 'h MiniMerkleTree option" where
  "with_hasher H leaves min_tree_size = from_hashes (map (hash_bytes H) leaves) min_tree_size"

definition is_empty :: "'h MiniMerkleTree \<Rightarrow> bool" where
  "is_empty t \<longleftrightarrow> start_index t = 0 \<and> hashes t = []"

text \<open>The inner loop over the pairs of a level.\<close>

fun compress_pairs :: "'h KeccakHasher \<Rightarrow> 'h list \<Rightarrow> 'h list" where
  "compress_pairs H (a # b # hs) = compress H a b # compress_pairs H hs"
| "compress_pairs H _ = []"

text \<open>\<open>index ^ 1\<close>\<close>

definition sibling :: "nat \<Rightarrow> nat" where
  "sibling i = (if even i then i + 1 else i - 1)"

definition path_entry :: "Side option \<Rightarrow> nat \<Rightarrow> 'h list \<Rightarrow> 'h option" where
  "path_entry side index hs =
     (case side of
        Some LeftSide \<Rightarrow> if even index then None else get hs (sibling index)
      | Some RightSide \<Rightarrow> if odd index then None else get hs (sibling index)
      | None \<Rightarrow> get hs (sibling index))"

text \<open>The loop \<open>for level in 0..depth\<close>: \<open>levels\<close> counts the levels left.\<close>

fun compute_levels ::
  "'h KeccakHasher \<Rightarrow> 'h option list \<Rightarrow> Side option \<Rightarrow> nat \<Rightarrow> nat \<Rightarrow> 'h list \<Rightarrow> nat \<Rightarrow> nat
   \<Rightarrow> ('h list \<times> 'h option list) option" where
  "compute_levels H ca side 0 level hs index start = Some (hs, [])"
| "compute_levels H ca side (Suc levels) level hs index start =
     (case (if odd start
            then (case get ca level of Some (Some h) \<Rightarrow> Some (h # hs, index + 1) | _ \<Rightarrow> None)
            else Some (hs, index)) of
        None \<Rightarrow> None
      | Some (hs1, index1) \<Rightarrow>
          (case (if odd (length hs1)
                 then map_option (\<lambda>h. hs1 @ [h]) (empty_subtree_hash H level)
                 else Some hs1) of
             None \<Rightarrow> None
           | Some hs2 \<Rightarrow>
               map_option (\<lambda>(top, path). (top, path_entry side index1 hs2 # path))
                 (compute_levels H ca side levels (Suc level) (compress_pairs H hs2)
                    (index1 div 2) (start div 2))))"

definition compute_merkle_root_and_path ::
  "'h KeccakHasher \<Rightarrow> 'h MiniMerkleTree \<Rightarrow> nat \<Rightarrow> Side option \<Rightarrow> ('h \<times> 'h option list) option" where
  "compute_merkle_root_and_path H t index side =
     (case compute_levels H (cache t) side (tree_depth_by_size (binary_tree_size t)) 0
             (hashes t) index (start_index t) of
        None \<Rightarrow> None
      | Some ([], _) \<Rightarrow> None
      | Some (root # _, path) \<Rightarrow> Some (root, path))"

definition merkle_root :: "'h KeccakHasher \<Rightarrow> 'h MiniMerkleTree \<Rightarrow> 'h option" where
  "merkle_root H t =
     (if hashes t = [] \<and> start_index t = 0
      then empty_subtree_hash H (tree_depth_by_size (binary_tree_size t))
      else if hashes t = [] \<and> start_index t = binary_tree_size t
      then (case get (cache t) (tree_depth_by_size (binary_tree_size t)) of
              Some r \<Rightarrow> r | None \<Rightarrow> None)
      else map_option fst (compute_merkle_root_and_path H t 0 None))"

definition merkle_root_and_path :: "'h KeccakHasher \<Rightarrow> 'h MiniMerkleTree \<Rightarrow> nat \<Rightarrow> ('h \<times> 'h list) option" where
  "merkle_root_and_path H t index =
     (if index < length (hashes t)
      then (case compute_merkle_root_and_path H t index None of
              None \<Rightarrow> None
            | Some (root, end_path) \<Rightarrow> map_option (\<lambda>path. (root, path)) (those end_path))
      else None)"

definition merkle_root_and_paths_for_range ::
  "'h KeccakHasher \<Rightarrow> 'h MiniMerkleTree \<Rightarrow> nat \<Rightarrow> ('h \<times> 'h option list \<times> 'h option list) option" where
  "merkle_root_and_paths_for_range H t len =
     (if 0 < len \<and> len \<le> length (hashes t)
      then map_option (\<lambda>(root, right_path). (root, cache t, right_path))
             (compute_merkle_root_and_path H t (len - 1) (Some RightSide))
      else None)"

definition push_hash :: "'h \<Rightarrow> 'h MiniMerkleTree \<Rightarrow> 'h MiniMerkleTree" where
  "push_hash leaf_hash t =
     (let t1 = t\<lparr> hashes := hashes t @ [leaf_hash] \<rparr>
      in if start_index t1 + length (hashes t1) > binary_tree_size t1
         then (let t2 = t1\<lparr> binary_tree_size := binary_tree_size t1 * 2 \<rparr>
               in if length (cache t2) < tree_depth_by_size (binary_tree_size t2)
                  then t2\<lparr> cache := cache t2 @ [None] \<rparr> else t2)
         else t1)"

definition push :: "'h KeccakHasher \<Rightarrow> bytes \<Rightarrow> 'h MiniMerkleTree \<Rightarrow> 'h MiniMerkleTree" where
  "push H leaf t = push_hash (hash_bytes H leaf) t"

definition trim_start :: "'h KeccakHasher \<Rightarrow> nat \<Rightarrow> 'h MiniMerkleTree \<Rightarrow> 'h MiniMerkleTree option" where
  "trim_start H count t =
     (if length (hashes t) \<ge> count
      then (case compute_merkle_root_and_path H t count (Some LeftSide) of
              None \<Rightarrow> None
            | Some (root, new_cache) \<Rightarrow>
                (let start = start_index t + count
                 in Some (t\<lparr> hashes := drop count (hashes t), start_index := start,
                             cache := (if start = binary_tree_size t then new_cache @ [Some root]
                                       else new_cache) \<rparr>)))
      else None)"

section \<open>The reference tree\<close>

definition leaf :: "'h KeccakHasher \<Rightarrow> 'h list \<Rightarrow> nat \<Rightarrow> 'h" where
  "leaf H ls i = (if i < length ls then ls ! i else empty_leaf_hash H)"

fun node :: "'h KeccakHasher \<Rightarrow> 'h list \<Rightarrow> nat \<Rightarrow> nat \<Rightarrow> 'h" where
  "node H ls 0 i = leaf H ls i"
| "node H ls (Suc d) i = compress H (node H ls d (2 * i)) (node H ls d (2 * i + 1))"

text \<open>Checking a Merkle path from a leaf up, the way the verifier on L1 does.\<close>

fun fold_path :: "'h KeccakHasher \<Rightarrow> nat \<Rightarrow> 'h \<Rightarrow> 'h list \<Rightarrow> 'h" where
  "fold_path H i h [] = h"
| "fold_path H i h (s # path) =
     fold_path H (i div 2) (if even i then compress H h s else compress H s h) path"

section \<open>Lemmas on sizes\<close>

lemma trailing_zeros_power [simp]: "trailing_zeros (2 ^ d) = d"
  by (induction d) (subst trailing_zeros.simps, simp)+

lemma tree_depth_power [simp]: "tree_depth_by_size (2 ^ d) = d"
  by (simp add: tree_depth_by_size_def)

lemma is_power_of_two_iff: "is_power_of_two n \<longleftrightarrow> (\<exists>d. n = 2 ^ d)"
  by (auto simp: is_power_of_two_def)

lemma next_power_of_two_is_power: "\<exists>d. next_power_of_two n = 2 ^ d"
proof (induction n rule: next_power_of_two.induct)
  case (1 n)
  show ?case
  proof (cases "n \<le> 1")
    case True
    then show ?thesis by (subst next_power_of_two.simps) (auto intro: exI [of _ 0])
  next
    case False
    then obtain d where "next_power_of_two ((n + 1) div 2) = 2 ^ d" using 1 by auto
    then show ?thesis using False by (subst next_power_of_two.simps) (auto intro: exI [of _ "Suc d"])
  qed
qed

lemma next_power_of_two_ge: "n \<le> next_power_of_two n"
proof (induction n rule: next_power_of_two.induct)
  case (1 n)
  then show ?case by (subst next_power_of_two.simps) auto
qed

lemma next_power_of_two_le: "n \<le> 2 ^ k \<Longrightarrow> next_power_of_two n \<le> 2 ^ k"
proof (induction k arbitrary: n)
  case (Suc k)
  then have "next_power_of_two ((n + 1) div 2) \<le> 2 ^ k" by simp
  then show ?case by (subst next_power_of_two.simps) simp
qed (subst next_power_of_two.simps, simp)

text \<open>The number of nodes of a level that have a leaf below them.\<close>

fun width :: "nat \<Rightarrow> nat \<Rightarrow> nat" where
  "width n 0 = n"
| "width n (Suc l) = (width n l + 1) div 2"

lemma width_le: "n \<le> 2 ^ (l + k) \<Longrightarrow> width n l \<le> 2 ^ k"
proof (induction l arbitrary: k)
  case (Suc l)
  then have "width n l \<le> 2 ^ Suc k" by (metis add_Suc_shift)
  then show ?case by simp
qed simp

lemma width_zero [simp]: "width 0 l = 0"
  by (induction l) auto

lemma width_pos: "0 < n \<Longrightarrow> 0 < width n l"
  by (induction l) auto

lemma width_top: "0 < n \<Longrightarrow> n \<le> 2 ^ d \<Longrightarrow> width n d = 1"
  using width_le [of n d 0] width_pos [of n d] by simp

section \<open>Lemmas on the reference tree\<close>

definition empty_node :: "'h KeccakHasher \<Rightarrow> nat \<Rightarrow> 'h" where
  "empty_node H d = ((\<lambda>hash. compress H hash hash) ^^ d) (empty_leaf_hash H)"

lemma length_successors [simp]: "length (successors f n x) = n"
  by (induction n arbitrary: x) auto

lemma nth_successors: "i < n \<Longrightarrow> successors f n x ! i = (f ^^ i) x"
  by (induction n arbitrary: x i) (auto simp: nth_Cons funpow_swap1 split: nat.split)

lemma empty_subtree_hash_eq: "d \<le> 32 \<Longrightarrow> empty_subtree_hash H d = Some (empty_node H d)"
  by (simp add: empty_subtree_hash_def get_def compute_empty_tree_hashes_def MAX_TREE_DEPTH_def
      nth_successors empty_node_def del: successors.simps)

lemma node_empty: "width (length ls) d \<le> i \<Longrightarrow> node H ls d i = empty_node H d"
proof (induction d arbitrary: i)
  case (Suc d)
  then have "width (length ls) d \<le> 2 * i" by simp
  then show ?case using Suc.IH [of "2 * i"] Suc.IH [of "2 * i + 1"] by (simp add: empty_node_def)
qed (simp add: leaf_def empty_node_def)

lemma node_append:
  "(i + 1) * 2 ^ d \<le> length ls \<Longrightarrow> node H (ls @ xs) d i = node H ls d i"
proof (induction d arbitrary: i)
  case (Suc d)
  have "(2 * i + 1) * 2 ^ d \<le> length ls" "(2 * i + 2) * 2 ^ d \<le> length ls"
    using Suc.prems by (simp_all add: algebra_simps)
  then show ?case using Suc.IH [of "2 * i"] Suc.IH [of "2 * i + 1"] by simp
qed (simp add: leaf_def nth_append)

lemma compress_pairs_nodes:
  "compress_pairs H (map (node H ls d) [2 * a..<2 * a + 2 * n]) = map (node H ls (Suc d)) [a..<a + n]"
proof (induction n arbitrary: a)
  case (Suc n)
  have "[2 * a..<2 * a + 2 * Suc n] = 2 * a # (2 * a + 1) # [2 * Suc a..<2 * Suc a + 2 * n]"
    by (simp add: upt_conv_Cons)
  moreover have "[a..<a + Suc n] = a # [Suc a..<Suc a + n]" by (simp add: upt_conv_Cons)
  ultimately show ?case using Suc.IH [of "Suc a"] by simp
qed simp

lemma compress_pairs_upt:
  assumes "even a" "a \<le> 2 * b"
  shows "compress_pairs H (map (node H ls d) [a..<2 * b]) = map (node H ls (Suc d)) [a div 2..<b]"
proof -
  have "a + 2 * (b - a div 2) = 2 * b" using assms by (auto elim!: evenE)
  then show ?thesis using compress_pairs_nodes [of H ls d "a div 2" "b - a div 2"] assms by auto
qed

section \<open>The level loop computes reference nodes\<close>

definition picks :: "Side option \<Rightarrow> nat \<Rightarrow> bool" where
  "picks side a \<longleftrightarrow>
     (case side of None \<Rightarrow> True | Some LeftSide \<Rightarrow> odd a | Some RightSide \<Rightarrow> even a)"

definition ref_path :: "'h KeccakHasher \<Rightarrow> 'h list \<Rightarrow> Side option \<Rightarrow> nat \<Rightarrow> nat \<Rightarrow> nat \<Rightarrow> 'h option list" where
  "ref_path H ls side l n a =
     map (\<lambda>k. if picks side (a div 2 ^ k) then Some (node H ls (l + k) (sibling (a div 2 ^ k))) else None)
       [0..<n]"

definition in_range :: "Side option \<Rightarrow> nat \<Rightarrow> nat \<Rightarrow> bool" where
  "in_range side a u \<longleftrightarrow> (if side = Some LeftSide then a \<le> u else a < u)"

lemma ref_path_Suc:
  "ref_path H ls side l (Suc n) a =
     (if picks side a then Some (node H ls l (sibling a)) else None) #
     ref_path H ls side (Suc l) n (a div 2)"
  by (simp add: ref_path_def upt_conv_Cons map_Suc_upt [symmetric] div_mult2_eq del: upt_Suc)

lemma in_range_step: "in_range side a u \<Longrightarrow> in_range side (a div 2) ((u + 1) div 2)"
  by (auto simp: in_range_def split: if_splits)

lemma path_entry_nodes:
  assumes "even s" "s \<le> a" "in_range side a u"
  shows "path_entry side (a - s) (map (node H ls l) [s..<2 * ((u + 1) div 2)]) =
     (if picks side a then Some (node H ls l (sibling a)) else None)"
proof -
  have par: "even (a - s) \<longleftrightarrow> even a" using assms(1,2) by simp
  have sib: "s + sibling (a - s) = sibling a"
    using assms(1,2) par by (auto simp: sibling_def elim!: oddE)
  have "sibling a < 2 * ((u + 1) div 2)" if "picks side a"
    using that assms(3)
    by (auto simp: picks_def in_range_def sibling_def split: option.splits Side.splits if_splits) presburger+
  then have "get (map (node H ls l) [s..<2 * ((u + 1) div 2)]) (sibling (a - s)) =
      Some (node H ls l (sibling a))" if "picks side a"
    using that sib by (simp add: get_def)
  then show ?thesis
    using par by (auto simp: path_entry_def picks_def split: option.splits Side.splits)
qed

lemma compute_levels_nodes:
  assumes "s \<le> width (length ls) l" "l + n \<le> 33"
    and "\<forall>k<n. odd (s div 2 ^ k) \<longrightarrow> get ca (l + k) = Some (Some (node H ls (l + k) (s div 2 ^ k - 1)))"
  shows "\<exists>path. compute_levels H ca side n l (map (node H ls l) [s..<width (length ls) l]) index s =
       Some (map (node H ls (l + n)) [s div 2 ^ n..<width (length ls) (l + n)], path) \<and>
     (in_range side (s + index) (width (length ls) l) \<longrightarrow> path = ref_path H ls side l n (s + index))"
  using assms
proof (induction n arbitrary: l s index)
  case 0
  then show ?case by (simp add: ref_path_def)
next
  case (Suc n)
  define u where "u = width (length ls) l"
  define s' where "s' = 2 * (s div 2)"
  define index' where "index' = (if odd s then index + 1 else index)"
  define hs1 where "hs1 = map (node H ls l) [s'..<u]"
  define hs2 where "hs2 = map (node H ls l) [s'..<2 * ((u + 1) div 2)]"
  have su: "s \<le> u" using Suc.prems(1) by (simp add: u_def)
  have s': "even s'" "s' \<le> u" "s' \<le> 2 * ((u + 1) div 2)" "s' div 2 = s div 2"
    using su by (auto simp: s'_def)
  have front: "(if odd s then (case get ca l of Some (Some h) \<Rightarrow>
        Some (h # map (node H ls l) [s..<u], index + 1) | _ \<Rightarrow> None)
      else Some (map (node H ls l) [s..<u], index)) = Some (hs1, index')"
  proof (cases "odd s")
    case True
    then have "get ca l = Some (Some (node H ls l (s - 1)))" using Suc.prems(3) by auto
    moreover have "s' = s - 1" "s - 1 < u" "Suc (s - 1) = s" using True su by (auto simp: s'_def elim!: oddE)
    ultimately show ?thesis using True by (simp add: hs1_def index'_def upt_conv_Cons)
  qed (simp add: hs1_def s'_def index'_def)
  have ending: "(if odd (length hs1) then map_option (\<lambda>h. hs1 @ [h]) (empty_subtree_hash H l) else Some hs1)
      = Some hs2"
  proof (cases "odd u")
    case True
    then have "2 * ((u + 1) div 2) = Suc u" by (auto elim!: oddE)
    moreover have "empty_subtree_hash H l = Some (node H ls l u)"
      using Suc.prems(2) node_empty [of ls l u] by (simp add: empty_subtree_hash_eq u_def)
    ultimately show ?thesis using True s' by (simp add: hs1_def hs2_def)
  qed (use s' in \<open>auto simp: hs1_def hs2_def elim!: evenE\<close>)
  have pairs: "compress_pairs H hs2 = map (node H ls (Suc l)) [s div 2..<width (length ls) (Suc l)]"
    using compress_pairs_upt [OF s'(1,3)] by (simp add: hs2_def s'(4) u_def)
  have shift: "\<forall>k<n. odd (s div 2 div 2 ^ k) \<longrightarrow>
      get ca (Suc l + k) = Some (Some (node H ls (Suc l + k) (s div 2 div 2 ^ k - 1)))"
    using Suc.prems(3) by (auto simp: div_mult2_eq dest: spec [of _ "Suc _"])
  have abs_index: "s div 2 + index' div 2 = (s + index) div 2" "s' + index' = s + index"
    by (auto simp: index'_def s'_def elim!: oddE)
  have half: "s div 2 \<le> width (length ls) (Suc l)" using Suc.prems(1) by simp
  obtain path where rest: "compute_levels H ca side n (Suc l)
        (map (node H ls (Suc l)) [s div 2..<width (length ls) (Suc l)]) (index' div 2) (s div 2) =
      Some (map (node H ls (l + Suc n)) [s div 2 ^ Suc n..<width (length ls) (l + Suc n)], path)"
    and path: "in_range side ((s + index) div 2) (width (length ls) (Suc l)) \<Longrightarrow>
      path = ref_path H ls side (Suc l) n ((s + index) div 2)"
    using Suc.IH [of "s div 2" "Suc l" "index' div 2"] shift Suc.prems(2) half
    by (auto simp: div_mult2_eq abs_index simp del: node.simps width.simps)
  have entry: "path_entry side index' hs2 =
      (if picks side (s + index) then Some (node H ls l (sibling (s + index))) else None)"
    if "in_range side (s + index) u"
    using path_entry_nodes [OF s'(1) _ that, of H ls l] by (simp add: hs2_def abs_index(2) [symmetric])
  show ?case
    using rest path entry in_range_step [of side "s + index" u]
    by (auto simp: front ending pairs u_def [symmetric] ref_path_Suc)
qed

section \<open>The representation invariant\<close>

text \<open>\<open>t\<close> represents the leaves \<open>ls\<close>: those pushed so far, trimmed ones included.\<close>

definition cache_ok :: "'h KeccakHasher \<Rightarrow> 'h list \<Rightarrow> 'h option list \<Rightarrow> nat \<Rightarrow> bool" where
  "cache_ok H ls ca s \<longleftrightarrow>
     (\<forall>k<length ca. odd (s div 2 ^ k) \<longrightarrow> ca ! k = Some (node H ls k (s div 2 ^ k - 1)))"

definition mt_ok :: "'h KeccakHasher \<Rightarrow> 'h list \<Rightarrow> nat \<Rightarrow> 'h MiniMerkleTree \<Rightarrow> bool" where
  "mt_ok H ls d t \<longleftrightarrow>
     start_index t \<le> length ls \<and> hashes t = drop (start_index t) ls \<and>
     binary_tree_size t = 2 ^ d \<and> d \<le> 32 \<and> length ls \<le> 2 ^ d \<and>
     length (cache t) = (if start_index t = 2 ^ d then d + 1 else d) \<and>
     cache_ok H ls (cache t) (start_index t)"

lemma drop_as_nodes: "drop s ls = map (node H ls 0) [s..<length ls]"
  by (rule nth_equalityI) (auto simp: leaf_def)

lemma compute_merkle_root_and_path_ok:
  assumes ok: "mt_ok H ls d t" and ne: "ls \<noteq> []" "start_index t < 2 ^ d"
  shows "\<exists>path. compute_merkle_root_and_path H t index side = Some (node H ls d 0, path) \<and>
     (in_range side (start_index t + index) (length ls) \<longrightarrow>
        path = ref_path H ls side 0 d (start_index t + index))"
proof -
  let ?s = "start_index t"
  have "\<forall>k<d. odd (?s div 2 ^ k) \<longrightarrow> get (cache t) (0 + k) = Some (Some (node H ls (0 + k) (?s div 2 ^ k - 1)))"
    using ok ne(2) by (simp add: mt_ok_def cache_ok_def get_def)
  moreover have "0 + d \<le> 33" "?s \<le> width (length ls) 0" using ok by (simp_all add: mt_ok_def)
  ultimately obtain path where
    "compute_levels H (cache t) side d 0 (map (node H ls 0) [?s..<width (length ls) 0]) index ?s =
       Some (map (node H ls (0 + d)) [?s div 2 ^ d..<width (length ls) (0 + d)], path)"
    "in_range side (?s + index) (width (length ls) 0) \<longrightarrow> path = ref_path H ls side 0 d (?s + index)"
    using compute_levels_nodes [of ?s ls 0 d "cache t" H side index] by auto
  moreover have "width (length ls) d = 1" using ok ne by (simp add: mt_ok_def width_top)
  ultimately show ?thesis
    using ok ne(2) drop_as_nodes [of ?s ls H]
    by (auto simp: compute_merkle_root_and_path_def mt_ok_def simp del: node.simps)
qed

lemma merkle_root_ok:
  assumes "mt_ok H ls d t"
  shows "merkle_root H t = Some (node H ls d 0)"
proof -
  consider (empty) "ls = []" | (full) "ls \<noteq> []" "start_index t = 2 ^ d" | (usual) "ls \<noteq> []" "start_index t < 2 ^ d"
    using assms by (force simp: mt_ok_def)
  then show ?thesis
  proof cases
    case empty
    then have "node H ls d 0 = empty_node H d" by (simp add: node_empty)
    then show ?thesis using assms empty by (simp add: merkle_root_def mt_ok_def empty_subtree_hash_eq)
  next
    case full
    then show ?thesis using assms by (simp add: merkle_root_def mt_ok_def get_def cache_ok_def)
  next
    case usual
    then show ?thesis
      using compute_merkle_root_and_path_ok [OF assms usual, of 0 None] assms
      by (auto simp: merkle_root_def mt_ok_def)
  qed
qed

lemma from_hashes_ok:
  assumes "length ls \<le> 2 ^ 32" "min_size = None \<or> (\<exists>k\<le>32. min_size = Some (2 ^ k))"
  shows "\<exists>t d. from_hashes ls min_size = Some t \<and> mt_ok H ls d t \<and>
     2 ^ d = max (next_power_of_two (length ls)) (case min_size of None \<Rightarrow> 1 | Some m \<Rightarrow> m)"
proof -
  obtain d0 where d0: "next_power_of_two (length ls) = 2 ^ d0"
    using next_power_of_two_is_power by blast
  have "2 ^ d0 \<le> (2 ^ 32 :: nat)" using next_power_of_two_le [OF assms(1)] d0 by simp
  then have le0: "d0 \<le> 32" by (simp only: power_increasing_iff) 
  have len: "length ls \<le> 2 ^ d0" using next_power_of_two_ge [of "length ls"] d0 by simp
  obtain k where k: "k \<le> 32" "(case min_size of None \<Rightarrow> 1 | Some m \<Rightarrow> m) = 2 ^ k"
      "min_size = None \<Longrightarrow> k = 0"
    using assms(2) by (auto intro: that [of 0])
  have mx: "max (2 ^ k) (2 ^ d0) = (2 ^ max k d0 :: nat)" by (simp add: max_def)
  have "length ls \<le> 2 ^ max k d0"
    using len power_increasing [of d0 "max k d0" "2 :: nat"] by linarith
  then show ?thesis
    using assms(2) k le0 d0 mx len
    by (cases min_size)
       (auto simp: from_hashes_def Let_def MAX_TREE_DEPTH_def is_power_of_two_iff mt_ok_def cache_ok_def
         max.commute)
qed

lemma cache_ok_push:
  assumes "cache_ok H ls ca s" "s \<le> length ls"
  shows "cache_ok H (ls @ xs) ca s"
proof -
  have "node H (ls @ xs) k (s div 2 ^ k - 1) = node H ls k (s div 2 ^ k - 1)" if "odd (s div 2 ^ k)" for k
  proof -
    have "s div 2 ^ k - 1 + 1 = s div 2 ^ k" using that by (cases "s div 2 ^ k") auto
    moreover have "s div 2 ^ k * 2 ^ k \<le> length ls" using assms(2) div_times_less_eq_dividend le_trans by blast
    ultimately show ?thesis by (intro node_append) simp
  qed
  with assms(1) show ?thesis by (auto simp: cache_ok_def)
qed

lemma push_hash_ok:
  assumes ok: "mt_ok H ls d t" and len: "length ls < 2 ^ 32"
  shows "mt_ok H (ls @ [h]) (if length ls < 2 ^ d then d else Suc d) (push_hash h t)"
proof -
  have size: "binary_tree_size t = 2 ^ d" "length ls \<le> 2 ^ d" "d \<le> 32" "start_index t \<le> length ls"
    "hashes t = drop (start_index t) ls"
    using ok by (simp_all add: mt_ok_def)
  have ca: "cache_ok H (ls @ [h]) (cache t) (start_index t)"
    using ok cache_ok_push [of H ls] by (simp add: mt_ok_def)
  have leaves: "start_index t + length (hashes t @ [h]) = Suc (length ls)" using size by simp
  show ?thesis
  proof (cases "length ls < 2 ^ d")
    case True
    then show ?thesis
      using ok ca leaves size by (auto simp: mt_ok_def push_hash_def Let_def)
  next
    case False
    then have eq: "length ls = 2 ^ d" using size by simp
    have "d < 32"
    proof (rule ccontr)
      assume "\<not> d < 32"
      then have "(2 :: nat) ^ 32 \<le> 2 ^ d" by (intro power_increasing) auto
      then show False using eq len by simp
    qed
    have depth: "tree_depth_by_size (2 ^ d * 2) = Suc d"
      using tree_depth_power [of "Suc d"] by (simp add: mult.commute)
    have "cache_ok H (ls @ [h]) (cache t @ [None]) (start_index t)" if "start_index t < 2 ^ d"
      using that ca ok by (auto simp: cache_ok_def nth_append mt_ok_def less_Suc_eq)
    then show ?thesis
      using False ok ca leaves size eq depth \<open>d < 32\<close>
      by (auto simp: mt_ok_def push_hash_def Let_def mult.commute)
  qed
qed

lemma cache_ok_ref_path: "cache_ok H ls (ref_path H ls (Some LeftSide) 0 d a) a"
  by (auto simp: cache_ok_def ref_path_def picks_def sibling_def)

lemma trim_start_ok:
  assumes ok: "mt_ok H ls d t" and ne: "ls \<noteq> []" "start_index t < 2 ^ d" and count: "count \<le> length (hashes t)"
  shows "\<exists>t'. trim_start H count t = Some t' \<and> mt_ok H ls d t' \<and> start_index t' = start_index t + count"
proof -
  let ?a = "start_index t + count"
  have a: "?a \<le> length ls" using ok count by (auto simp: mt_ok_def)
  then obtain path where "compute_merkle_root_and_path H t count (Some LeftSide) = Some (node H ls d 0, path)"
    and path: "path = ref_path H ls (Some LeftSide) 0 d ?a"
    using compute_merkle_root_and_path_ok [OF ok ne, of count "Some LeftSide"] by (auto simp: in_range_def)
  moreover have "length path = d" using path by (simp add: ref_path_def)
  moreover have "cache_ok H ls (path @ [Some (node H ls d 0)]) ?a" if "?a = 2 ^ d"
    using cache_ok_ref_path [of H ls d ?a] that \<open>length path = d\<close>
    by (auto simp: cache_ok_def path nth_append less_Suc_eq)
  ultimately show ?thesis
    using ok a count cache_ok_ref_path [of H ls d ?a] path
    by (auto simp: trim_start_def mt_ok_def Let_def add.commute)
qed

lemma fold_ref_path:
  "fold_path H a (node H ls l a) (map (\<lambda>k. node H ls (l + k) (sibling (a div 2 ^ k))) [0..<n]) =
     node H ls (l + n) (a div 2 ^ n)"
proof (induction n arbitrary: l a)
  case (Suc n)
  have "(if even a then compress H (node H ls l a) (node H ls l (sibling a))
         else compress H (node H ls l (sibling a)) (node H ls l a)) = node H ls (Suc l) (a div 2)"
    by (auto simp: sibling_def elim!: evenE oddE)
  then show ?case
    using Suc.IH [of "a div 2" "Suc l"]
    by (simp add: upt_conv_Cons map_Suc_upt [symmetric] div_mult2_eq comp_def del: upt_Suc node.simps)
qed simp

lemma fresh_tree_ok:
  assumes "length ls \<le> 2 ^ d" "d \<le> 32"
  shows "mt_ok H ls d \<lparr> hashes = ls, binary_tree_size = 2 ^ d, start_index = 0, cache = replicate d None \<rparr>"
  using assms by (simp add: mt_ok_def cache_ok_def)

lemma from_hashes_SomeD:
  assumes "from_hashes ls min_size = Some t"
  shows "\<exists>d. mt_ok H ls d t"
proof -
  obtain d0 where d0: "next_power_of_two (length ls) = 2 ^ d0"
    using next_power_of_two_is_power by blast
  have len: "length ls \<le> 2 ^ d0" using next_power_of_two_ge [of "length ls"] d0 by simp
  show ?thesis
  proof (cases min_size)
    case None
    then have "t = \<lparr> hashes = ls, binary_tree_size = 2 ^ d0, start_index = 0, cache = replicate d0 None \<rparr>"
      "d0 \<le> 32"
      using assms d0 by (simp_all add: from_hashes_def Let_def MAX_TREE_DEPTH_def split: if_splits)
    then show ?thesis using fresh_tree_ok [OF len] by blast
  next
    case (Some m)
    then obtain k where k: "m = 2 ^ k"
      using assms by (auto simp: from_hashes_def Let_def is_power_of_two_iff split: if_splits)
    have mx: "max (2 ^ k) (2 ^ d0) = (2 ^ max k d0 :: nat)" by (simp add: max_def)
    have len': "length ls \<le> 2 ^ max k d0"
      using len power_increasing [of d0 "max k d0" "2 :: nat"] by linarith
    have "t = \<lparr> hashes = ls, binary_tree_size = 2 ^ max k d0, start_index = 0,
        cache = replicate (max k d0) None \<rparr>" "max k d0 \<le> 32"
      using assms Some d0 k mx by (simp_all add: from_hashes_def Let_def MAX_TREE_DEPTH_def split: if_splits)
    then show ?thesis using fresh_tree_ok [OF len'] by blast
  qed
qed

section \<open>Sequences of operations\<close>

text \<open>
  A tree in use: leaves are pushed and trimmed in any order. The second component of the state is
  the list of all leaf hashes so far; a tree holds at most \<open>2 ^ 32\<close> of them.
\<close>

datatype 'h mt_event = PushHash 'h | TrimStart nat

fun mt_step :: "'h KeccakHasher \<Rightarrow> 'h mt_event \<Rightarrow> 'h MiniMerkleTree \<times> 'h list \<Rightarrow> ('h MiniMerkleTree \<times> 'h list) option" where
  "mt_step H (PushHash h) (t, ls) = (if int (length ls) < 2 ^ 32 then Some (push_hash h t, ls @ [h]) else None)"
| "mt_step H (TrimStart count) (t, ls) = map_option (\<lambda>t'. (t', ls)) (trim_start H count t)"

definition mt_inv :: "'h KeccakHasher \<Rightarrow> 'h MiniMerkleTree \<times> 'h list \<Rightarrow> bool" where
  "mt_inv H = (\<lambda>(t, ls). \<exists>d. mt_ok H ls d t)"

text \<open>The code also computes the root of a tree it is about to trim, and panics where there is none.\<close>

lemma compute_none:
  assumes "mt_ok H ls d t" "ls = [] \<or> start_index t = 2 ^ d"
  shows "compute_merkle_root_and_path H t index side = None"
proof -
  let ?s = "start_index t"
  have "\<forall>k<d. odd (?s div 2 ^ k) \<longrightarrow> get (cache t) (0 + k) = Some (Some (node H ls (0 + k) (?s div 2 ^ k - 1)))"
    using assms by (auto simp: mt_ok_def cache_ok_def get_def)
  moreover have "0 + d \<le> 33" "?s \<le> width (length ls) 0" using assms(1) by (simp_all add: mt_ok_def)
  ultimately obtain path where
    "compute_levels H (cache t) side d 0 (map (node H ls 0) [?s..<width (length ls) 0]) index ?s =
       Some (map (node H ls (0 + d)) [?s div 2 ^ d..<width (length ls) (0 + d)], path)"
    using compute_levels_nodes [of ?s ls 0 d "cache t" H side index] by auto
  moreover have "[?s div 2 ^ d..<width (length ls) d] = []"
  proof (cases "ls = []")
    case False
    then have "start_index t = 2 ^ d" "width (length ls) d = 1"
      using assms width_top [of "length ls" d] by (auto simp: mt_ok_def)
    then show ?thesis by simp
  qed simp
  ultimately show ?thesis
    using assms(1) drop_as_nodes [of ?s ls H]
    by (auto simp: compute_merkle_root_and_path_def mt_ok_def simp del: node.simps)
qed

lemma trim_start_SomeD:
  assumes "mt_ok H ls d t" "trim_start H count t = Some t'"
  shows "mt_ok H ls d t'"
proof -
  have "ls \<noteq> []" "start_index t \<noteq> 2 ^ d" "count \<le> length (hashes t)"
    using assms compute_none [OF assms(1)] by (auto simp: trim_start_def split: if_splits)
  moreover have "start_index t < 2 ^ d" using assms(1) \<open>start_index t \<noteq> 2 ^ d\<close> by (simp add: mt_ok_def)
  ultimately show ?thesis using trim_start_ok [OF assms(1), of count] assms(2) by auto
qed

interpretation mini_tree: machine "mt_step H"
  "\<lambda>(t, ls). \<exists>min_size. from_hashes ls min_size = Some t" "mt_inv H"
  for H :: "'h KeccakHasher"
proof unfold_locales
  fix s :: "'h MiniMerkleTree \<times> 'h list"
  assume "case s of (t, ls) \<Rightarrow> \<exists>min_size. from_hashes ls min_size = Some t"
  then show "mt_inv H s" by (auto simp: mt_inv_def dest: from_hashes_SomeD)
next
  fix s s' :: "'h MiniMerkleTree \<times> 'h list" and e
  assume inv: "mt_inv H s" and step: "mt_step H e s = Some s'"
  obtain t ls where s: "s = (t, ls)" by fastforce
  obtain d where ok: "mt_ok H ls d t" using inv s by (auto simp: mt_inv_def)
  show "mt_inv H s'"
  proof (cases e)
    case (PushHash h)
    then show ?thesis
      using step s push_hash_ok [OF ok, of h] by (auto simp: mt_inv_def nat_less_iff split: if_splits)
  next
    case (TrimStart count)
    then show ?thesis using step s trim_start_SomeD [OF ok, of count] by (auto simp: mt_inv_def)
  qed
qed

section \<open>Properties\<close>

text \<open>
  C18. For a tree built from any leaves and any minimum size and then used by any sequence of pushes
  and trims, \<open>merkle_root\<close> does not panic and is the root of the reference tree over all the leaves
  ever pushed, padded with empty leaves to the current size. So trimming never changes the root.
\<close>

theorem mini_tree_root:
  assumes "from_hashes ls0 min_size = Some t0" "run_events (mt_step H) es (t0, ls0) = Some (t, ls)"
  shows "\<exists>d. binary_tree_size t = 2 ^ d \<and> length ls \<le> 2 ^ d \<and> merkle_root H t = Some (node H ls d 0)"
proof -
  obtain d where "mt_ok H ls d t" using mini_tree.run_inv [OF _ assms(2)] assms(1) by (auto simp: mt_inv_def)
  then show ?thesis using merkle_root_ok by (auto simp: mt_ok_def)
qed

text \<open>A small hash function for evaluation.\<close>

definition int_hasher :: "int KeccakHasher" where
  "int_hasher = \<lparr> hash_bytes = (\<lambda>bs. int (length bs)), compress = (\<lambda>a b. (31 * a + 17 * b + 7) mod 65537) \<rparr>"

definition demo_leaves :: "int list" where
  "demo_leaves = [1, 2, 3]"

definition demo_events :: "int mt_event list" where
  "demo_events = [TrimStart 2, PushHash (4), PushHash (5), TrimStart 1]"

lemma demo_run:
  "\<exists>t0 t. from_hashes demo_leaves (Some 2) = Some t0 \<and>
     run_events (mt_step int_hasher) demo_events (t0, demo_leaves) =
       Some (t, demo_leaves @ [4, 5])"
proof -
  have "case from_hashes demo_leaves (Some 2) of Some t0 \<Rightarrow>
      map_option snd (run_events (mt_step int_hasher) demo_events (t0, demo_leaves)) =
        Some (demo_leaves @ [4, 5]) | None \<Rightarrow> False"
    by code_simp
  then show ?thesis by (auto split: option.splits)
qed

theorem mini_tree_root_witness:
  "\<exists>t0 t d. from_hashes demo_leaves (Some 2) = Some t0 \<and>
     run_events (mt_step int_hasher) demo_events (t0, demo_leaves) =
       Some (t, demo_leaves @ [4, 5]) \<and>
     merkle_root int_hasher t = Some (node int_hasher (demo_leaves @ [4, 5]) d 0)"
  using demo_run mini_tree_root by blast

text \<open>
  C19. For such a tree and the index of an untrimmed leaf, \<open>merkle_root_and_path\<close> returns the root and
  one sibling per level, and folding the siblings into the leaf gives the root.
\<close>

theorem mini_tree_path:
  assumes "from_hashes ls0 min_size = Some t0" "run_events (mt_step H) es (t0, ls0) = Some (t, ls)"
    and "index < length (hashes t)"
  shows "\<exists>root path. merkle_root_and_path H t index = Some (root, path) \<and>
     merkle_root H t = Some root \<and> length path = tree_depth_by_size (binary_tree_size t) \<and>
     fold_path H (start_index t + index) (hashes t ! index) path = root"
proof -
  obtain d where ok: "mt_ok H ls d t" using mini_tree.run_inv [OF _ assms(2)] assms(1) by (auto simp: mt_inv_def)
  let ?a = "start_index t + index" and ?ns = "\<lambda>k. node H ls k (sibling ((start_index t + index) div 2 ^ k))"
  have a: "?a < length ls" "length ls \<le> 2 ^ d" "hashes t ! index = node H ls 0 ?a" "binary_tree_size t = 2 ^ d"
    using ok assms(3) by (auto simp: mt_ok_def leaf_def)
  then have "ls \<noteq> []" "start_index t < 2 ^ d" by auto
  then have "compute_merkle_root_and_path H t index None = Some (node H ls d 0, ref_path H ls None 0 d ?a)"
    using compute_merkle_root_and_path_ok [OF ok, of index None] a(1) by (auto simp: in_range_def)
  moreover have "ref_path H ls None 0 d ?a = map Some (map ?ns [0..<d])"
    by (simp add: ref_path_def picks_def)
  moreover have "those (map Some xs) = Some xs" for xs :: "'a list" by (induction xs) auto
  ultimately have "merkle_root_and_path H t index = Some (node H ls d 0, map ?ns [0..<d])"
    using assms(3) by (simp add: merkle_root_and_path_def del: map_map)
  moreover have "fold_path H ?a (hashes t ! index) (map ?ns [0..<d]) = node H ls d 0"
    using fold_ref_path [of H ?a ls 0 d] a by (simp del: node.simps)
  ultimately show ?thesis using merkle_root_ok [OF ok] a(4) by simp
qed

theorem mini_tree_path_witness:
  "\<exists>t0 t root path. from_hashes demo_leaves (Some 2) = Some t0 \<and>
     run_events (mt_step int_hasher) demo_events (t0, demo_leaves) =
       Some (t, demo_leaves @ [4, 5]) \<and>
     merkle_root_and_path int_hasher t 1 = Some (root, path) \<and>
     fold_path int_hasher (start_index t + 1) (hashes t ! 1) path = root"
proof -
  obtain t0 t where run: "from_hashes demo_leaves (Some 2) = Some t0"
      "run_events (mt_step int_hasher) demo_events (t0, demo_leaves) =
         Some (t, demo_leaves @ [4, 5])"
    using demo_run by blast
  have "case from_hashes demo_leaves (Some 2) of Some t0 \<Rightarrow>
      map_option (length \<circ> hashes \<circ> fst) (run_events (mt_step int_hasher) demo_events (t0, demo_leaves)) =
        Some 2 | None \<Rightarrow> False"
    by code_simp
  then have "1 < length (hashes t)" using run by simp
  then show ?thesis using mini_tree_path [OF run] run by blast
qed

text \<open>Recomputing the root from a range of leaves, the left path and the right path.\<close>

fun fold_range :: "'h KeccakHasher \<Rightarrow> nat \<Rightarrow> 'h list \<Rightarrow> 'h option list \<Rightarrow> 'h option list \<Rightarrow> 'h list" where
  "fold_range H s hs (l # left) (r # right) =
     (let hs1 = (if odd s then the l # hs else hs);
          hs2 = (if odd (length hs1) then hs1 @ [the r] else hs1)
      in fold_range H (s div 2) (compress_pairs H hs2) left right)"
| "fold_range H s hs _ _ = hs"

lemma fold_range_nodes:
  assumes "s \<le> e" "length left = n"
    and "\<forall>k<n. odd (s div 2 ^ k) \<longrightarrow> left ! k = Some (node H ls (l + k) (s div 2 ^ k - 1))"
  shows "fold_range H s (map (node H ls l) [s..<e + 1]) left (ref_path H ls (Some RightSide) l n e) =
     map (node H ls (l + n)) [s div 2 ^ n..<e div 2 ^ n + 1]"
  using assms
proof (induction n arbitrary: s e l left)
  case 0
  then show ?case by (simp add: ref_path_def)
next
  case (Suc n)
  obtain x left' where left: "left = x # left'" "length left' = n" using Suc.prems(2) by (cases left) auto
  define s' where "s' = 2 * (s div 2)"
  define u where "u = 2 * (e div 2 + 1)"
  have s': "even s'" "s' \<le> e" "s' div 2 = s div 2" using Suc.prems(1) by (auto simp: s'_def)
  have hs1: "(if odd s then the x # map (node H ls l) [s..<e + 1] else map (node H ls l) [s..<e + 1]) =
      map (node H ls l) [s'..<e + 1]"
  proof (cases "odd s")
    case True
    then have "x = Some (node H ls l (s - 1))" using Suc.prems(3) left by auto
    moreover have "s' = s - 1" "s - 1 < e + 1" "Suc (s - 1) = s" using True Suc.prems(1) by (auto simp: s'_def elim!: oddE)
    ultimately show ?thesis using True by (simp add: upt_conv_Cons del: upt_Suc)
  qed (simp add: s'_def)
  have hs2: "(if odd (length (map (node H ls l) [s'..<e + 1]))
      then map (node H ls l) [s'..<e + 1] @ [the (if picks (Some RightSide) e then Some (node H ls l (sibling e)) else None)]
      else map (node H ls l) [s'..<e + 1]) = map (node H ls l) [s'..<u]"
  proof (cases "even e")
    case True
    then have "u = Suc (e + 1)" by (auto simp: u_def)
    then show ?thesis using True s' by (simp add: picks_def sibling_def)
  next
    case False
    then have "u = e + 1" by (auto simp: u_def elim!: oddE)
    then show ?thesis using False s' by (simp del: upt_Suc)
  qed
  have pairs: "compress_pairs H (map (node H ls l) [s'..<u]) =
      map (node H ls (Suc l)) [s div 2..<e div 2 + 1]"
    using compress_pairs_upt [of s' "e div 2 + 1" H ls l] s' by (simp add: u_def)
  have "\<forall>k<n. odd (s div 2 div 2 ^ k) \<longrightarrow> left' ! k = Some (node H ls (Suc l + k) (s div 2 div 2 ^ k - 1))"
    using Suc.prems(3) left by (auto simp: div_mult2_eq dest: spec [of _ "Suc _"])
  moreover have "s div 2 \<le> e div 2" using Suc.prems(1) by (rule div_le_mono)
  ultimately have "fold_range H (s div 2) (map (node H ls (Suc l)) [s div 2..<e div 2 + 1]) left'
      (ref_path H ls (Some RightSide) (Suc l) n (e div 2)) =
      map (node H ls (Suc l + n)) [s div 2 div 2 ^ n..<e div 2 div 2 ^ n + 1]"
    using Suc.IH [OF _ left(2)] by blast
  then show ?case
    by (simp only: left ref_path_Suc fold_range.simps Let_def hs1 hs2 pairs power_Suc div_mult2_eq
        add_Suc_right add_Suc)
qed

text \<open>
  C21. Range proofs: for a tree after any sequence of pushes and trims and a non-empty prefix of its untrimmed leaves, \<open>merkle_root_and_paths_for_range\<close> returns
  the root and two partial paths from which, with the leaves of the range, the root can be
  recomputed.
\<close>

theorem mini_tree_range:
  assumes "from_hashes ls0 min_size = Some t0" "run_events (mt_step H) es (t0, ls0) = Some (t, ls)"
    and "0 < len" "len \<le> length (hashes t)"
  shows "\<exists>root left right. merkle_root_and_paths_for_range H t len = Some (root, left, right) \<and>
     merkle_root H t = Some root \<and> fold_range H (start_index t) (take len (hashes t)) left right = [root]"
proof -
  obtain d where ok: "mt_ok H ls d t" using mini_tree.run_inv [OF _ assms(2)] assms(1) by (auto simp: mt_inv_def)
  let ?s = "start_index t" and ?e = "start_index t + (len - 1)"
  let ?right = "ref_path H ls (Some RightSide) 0 d ?e"
  have e: "?e < length ls" "length ls \<le> 2 ^ d" "hashes t = drop ?s ls" using ok assms(3,4) by (auto simp: mt_ok_def)
  then have ne: "ls \<noteq> []" "?s < 2 ^ d" by auto
  have "compute_merkle_root_and_path H t (len - 1) (Some RightSide) = Some (node H ls d 0, ?right)"
    using compute_merkle_root_and_path_ok [OF ok ne, of "len - 1" "Some RightSide"] e(1) by (auto simp: in_range_def)
  then have run: "merkle_root_and_paths_for_range H t len = Some (node H ls d 0, cache t, ?right)"
    using assms(3,4) by (simp add: merkle_root_and_paths_for_range_def)
  have "take len (hashes t) = map (node H ls 0) [?s..<?e + 1]"
    using e assms(3) by (intro nth_equalityI) (auto simp: leaf_def)
  moreover have "length (cache t) = d" "cache_ok H ls (cache t) ?s" using ok ne(2) by (auto simp: mt_ok_def)
  then have "fold_range H ?s (map (node H ls 0) [?s..<?e + 1]) (cache t) ?right =
      map (node H ls (0 + d)) [?s div 2 ^ d..<?e div 2 ^ d + 1]"
    by (intro fold_range_nodes) (auto simp: cache_ok_def)
  ultimately have "fold_range H ?s (take len (hashes t)) (cache t) ?right = [node H ls d 0]"
    using e ne(2) by simp
  then show ?thesis using run merkle_root_ok [OF ok] by blast
qed

theorem mini_tree_range_witness:
  "\<exists>t0 t root left right. from_hashes demo_leaves (Some 2) = Some t0 \<and>
     run_events (mt_step int_hasher) demo_events (t0, demo_leaves) = Some (t, demo_leaves @ [4, 5]) \<and>
     merkle_root_and_paths_for_range int_hasher t 1 = Some (root, left, right) \<and>
     fold_range int_hasher (start_index t) (take 1 (hashes t)) left right = [root]"
proof -
  obtain t0 t where run: "from_hashes demo_leaves (Some 2) = Some t0"
      "run_events (mt_step int_hasher) demo_events (t0, demo_leaves) = Some (t, demo_leaves @ [4, 5])"
    using demo_run by blast
  have "case from_hashes demo_leaves (Some 2) of Some t0 \<Rightarrow>
      map_option (length \<circ> hashes \<circ> fst) (run_events (mt_step int_hasher) demo_events (t0, demo_leaves)) =
        Some 2 | None \<Rightarrow> False"
    by code_simp
  then have "1 \<le> length (hashes t)" using run by simp
  then show ?thesis using mini_tree_range [OF run, of 1] run by auto
qed

text \<open>The pairs that are hashed below the root of a tree of depth \<open>d\<close>.\<close>

definition node_inputs :: "'h KeccakHasher \<Rightarrow> 'h list \<Rightarrow> nat \<Rightarrow> ('h \<times> 'h) set" where
  "node_inputs H ls d =
     (\<Union>l\<in>{..<d}. (\<lambda>i. (node H ls l (2 * i), node H ls l (2 * i + 1))) ` {..<2 ^ (d - Suc l)})"

lemma node_inputsI:
  "l < d \<Longrightarrow> i < 2 ^ (d - Suc l) \<Longrightarrow> (node H ls l (2 * i), node H ls l (2 * i + 1)) \<in> node_inputs H ls d"
  by (auto simp: node_inputs_def)

lemma node_inj:
  assumes inj: "inj_on (case_prod (compress H)) (node_inputs H ls D \<union> node_inputs H ms D)"
    and "node H ls d i = node H ms d i" "j < 2 ^ d" "d \<le> D" "i < 2 ^ (D - d)"
  shows "leaf H ls (i * 2 ^ d + j) = leaf H ms (i * 2 ^ d + j)"
  using assms(2-)
proof (induction d arbitrary: i j)
  case (Suc d)
  have D: "d < D" "2 ^ (D - d) = 2 * (2 :: nat) ^ (D - Suc d)"
    using Suc.prems(3) by (simp_all add: Suc_diff_Suc flip: power_Suc)
  then have below: "2 * i < 2 ^ (D - d)" "2 * i + 1 < 2 ^ (D - d)" using Suc.prems(4) by simp_all
  have "(node H ls d (2 * i), node H ls d (2 * i + 1)) = (node H ms d (2 * i), node H ms d (2 * i + 1))"
    using Suc.prems D(1) node_inputsI [of d D i H] by (intro inj_onD [OF inj]) auto
  then have halves: "node H ls d (2 * i) = node H ms d (2 * i)" "node H ls d (2 * i + 1) = node H ms d (2 * i + 1)"
    by simp_all
  show ?case
  proof (cases "j < 2 ^ d")
    case True
    have "i * 2 ^ Suc d + j = 2 * i * 2 ^ d + j" by simp
    then show ?thesis using Suc.IH [OF halves(1) True _ below(1)] D(1) by (simp only: less_imp_le)
  next
    case False
    then have "i * 2 ^ Suc d + j = (2 * i + 1) * 2 ^ d + (j - 2 ^ d)" "j - 2 ^ d < 2 ^ d"
      using Suc.prems(2) by (simp_all add: distrib_right)
    then show ?thesis using Suc.IH [OF halves(2) _ _ below(2), of "j - 2 ^ d"] D(1) by (simp only: less_imp_le)
  qed
qed simp

text \<open>
  C20. The root commits to the leaves: two trees of the same size with the same root have the same leaves,
  counting an absent leaf as the empty leaf, unless two different ones of the pairs hashed inside these two
  trees collide.
\<close>

theorem mini_tree_root_binding:
  assumes "from_hashes ls size1 = Some t" "from_hashes ms size2 = Some u"
    and "binary_tree_size t = binary_tree_size u" "merkle_root H t = merkle_root H u"
    and "inj_on (case_prod (compress H))
      (node_inputs H ls (tree_depth_by_size (binary_tree_size t)) \<union> node_inputs H ms (tree_depth_by_size (binary_tree_size t)))"
    and "i < binary_tree_size t"
  shows "leaf H ls i = leaf H ms i"
proof -
  obtain d e where ok: "mt_ok H ls d t" "mt_ok H ms e u"
    using from_hashes_SomeD [OF assms(1)] from_hashes_SomeD [OF assms(2)] by blast
  then have d: "d = e" "binary_tree_size t = 2 ^ d" using assms(3) by (simp_all add: mt_ok_def)
  then have "node H ls d 0 = node H ms d 0"
    using assms(4) merkle_root_ok [OF ok(1)] merkle_root_ok [OF ok(2)] by simp
  moreover have "inj_on (case_prod (compress H)) (node_inputs H ls d \<union> node_inputs H ms d)"
    using assms(5) d(2) by (simp add: tree_depth_by_size_def)
  ultimately show ?thesis
    using node_inj [where D = d and d = d and i = 0 and j = i and H = H and ls = ls and ms = ms] assms(6) d(2) by simp
qed

text \<open>The three pairs hashed in a tree of four leaves, of which one is absent in one of the trees, do not collide.\<close>

theorem mini_tree_root_binding_witness:
  "\<exists>t u. from_hashes [3, 5, 7] None = Some t \<and> from_hashes [3, 5, 7, 88] (Some 4) = Some u \<and>
     merkle_root int_hasher t = merkle_root int_hasher u \<and>
     leaf int_hasher [3, 5, 7] 3 = leaf int_hasher [3, 5, 7, 88] 3"
proof -
  let ?t = "\<lparr> hashes = [3, 5, 7], binary_tree_size = 4, start_index = 0, cache = [None, None] \<rparr> :: int MiniMerkleTree"
  let ?u = "\<lparr> hashes = [3, 5, 7, 88], binary_tree_size = 4, start_index = 0, cache = [None, None] \<rparr> :: int MiniMerkleTree"
  have a: "from_hashes [3, 5, 7] None = Some ?t" by code_simp
  have b: "from_hashes [3, 5, 7, 88] (Some 4) = Some ?u" by code_simp
  have root: "merkle_root int_hasher ?t = merkle_root int_hasher ?u" by code_simp
  have "tree_depth_by_size 4 = 2" by code_simp
  moreover have "node_inputs int_hasher [3, 5, 7] 2 = {(3, 5), (7, 88), (185, 1720)}"
    "node_inputs int_hasher [3, 5, 7, 88] 2 = {(3, 5), (7, 88), (185, 1720)}"
    by code_simp+
  ultimately have "inj_on (case_prod (compress int_hasher))
      (node_inputs int_hasher [3, 5, 7] (tree_depth_by_size (binary_tree_size ?t)) \<union>
       node_inputs int_hasher [3, 5, 7, 88] (tree_depth_by_size (binary_tree_size ?t)))"
    by (simp add: int_hasher_def)
  from mini_tree_root_binding [OF a b _ root this, of 3] a b root show ?thesis by simp
qed



end
