(* ===== verification/Bytes.thy ===== *)
theory Bytes
  imports Prelude
begin

text \<open>
  Big-endian encodings (\<open>to_be_bytes\<close>, \<open>U256::to_big_endian\<close>, \<open>from_be_bytes\<close>) as functions on
  natural numbers and words, with their lengths, ranges and round trips.
\<close>

fun be_bytes :: "nat \<Rightarrow> nat \<Rightarrow> bytes" where
  "be_bytes 0 v = []"
| "be_bytes (Suc n) v = be_bytes n (v div 256) @ [of_nat v]"

fun from_be :: "bytes \<Rightarrow> nat" where
  "from_be [] = 0"
| "from_be (b # bs) = unat b * 256 ^ length bs + from_be bs"

definition word_be :: "nat \<Rightarrow> 'l::len word \<Rightarrow> bytes" where
  "word_be n w = be_bytes n (unat w)"

definition word_of_be :: "bytes \<Rightarrow> 'l::len word" where
  "word_of_be bs = of_nat (from_be bs)"

named_theorems be_simps

lemma length_be_bytes [simp, be_simps]: "length (be_bytes n v) = n"
  by (induction n arbitrary: v) auto

lemma length_word_be [simp, be_simps]: "length (word_be n w) = n"
  by (simp add: word_be_def)

lemma from_be_append: "from_be (xs @ ys) = from_be xs * 256 ^ length ys + from_be ys"
  by (induction xs) (auto simp: power_add algebra_simps)

lemma from_be_less: "from_be bs < 256 ^ length bs"
proof (induction bs)
  case (Cons b bs)
  have "unat b < 256" using unsigned_less [of b, where 'a = nat] by simp
  then have "unat b * 256 ^ length bs + 256 ^ length bs \<le> 256 * 256 ^ length bs"
    by (metis Suc_leI add.commute mult_Suc mult_le_mono1)
  then have "from_be (b # bs) < 256 * 256 ^ length bs" using Cons unfolding from_be.simps by linarith
  then show ?case by simp
qed simp

lemma unat_of_nat_u8: "unat (of_nat v :: u8) = v mod 256"
  by (simp add: unat_of_nat take_bit_nat_def)

lemma from_be_be_bytes: "from_be (be_bytes n v) = v mod 256 ^ n"
proof (induction n arbitrary: v)
  case (Suc n)
  have "v mod 256 ^ Suc n = 256 * (v div 256 mod 256 ^ n) + v mod 256"
    by (simp add: mod_mult2_eq)
  then show ?case using Suc by (simp add: from_be_append unat_of_nat_u8)
qed simp

lemma from_be_be_bytes_id [simp]: "v < 256 ^ n \<Longrightarrow> from_be (be_bytes n v) = v"
  by (simp add: from_be_be_bytes)

lemma be_bytes_from_be: "be_bytes (length bs) (from_be bs) = bs"
proof (induction bs rule: rev_induct)
  case (snoc b bs)
  have zero: "(256 :: u8) = 0" by (rule word_uint_eqI) simp
  have "from_be (bs @ [b]) div 256 = from_be bs" "of_nat (from_be (bs @ [b])) = b"
    using unsigned_less [of b, where 'a = nat] by (simp_all add: from_be_append zero)
  then show ?case using snoc by simp
qed simp

lemma word_of_be_word_be:
  fixes w :: "'l::len word"
  assumes "2 ^ LENGTH('l) \<le> (256 :: nat) ^ n"
  shows "word_of_be (word_be n w) = w"
proof -
  have "unat w < 256 ^ n" using unsigned_less [of w, where 'a = nat] assms by linarith
  then show ?thesis by (simp add: word_of_be_def word_be_def)
qed

lemma word_be_word_of_be:
  assumes "length bs = n" "256 ^ n \<le> (2 :: nat) ^ LENGTH('l)"
  shows "word_be n (word_of_be bs :: 'l::len word) = bs"
proof -
  have "from_be bs < 2 ^ LENGTH('l)" using from_be_less [of bs] assms by simp
  then have "unat (word_of_be bs :: 'l word) = from_be bs"
    by (simp add: word_of_be_def unat_of_nat take_bit_nat_eq_self)
  then show ?thesis using assms(1) be_bytes_from_be [of bs] by (simp add: word_be_def)
qed

lemma be_bytes_drop: "m \<le> n \<Longrightarrow> v < 256 ^ m \<Longrightarrow> drop (n - m) (be_bytes n v) = be_bytes m v"
proof (induction n arbitrary: m v)
  case (Suc n)
  show ?case
  proof (cases m)
    case 0
    then show ?thesis by simp
  next
    case (Suc k)
    then have "v div 256 < 256 ^ k" using Suc.prems by (simp add: less_mult_imp_div_less mult.commute)
    then show ?thesis using Suc.IH [of k "v div 256"] Suc.prems Suc by simp
  qed
qed simp

section \<open>The number of bits and bytes of a number\<close>

fun bit_length :: "nat \<Rightarrow> nat" where
  "bit_length n = (if n = 0 then 0 else Suc (bit_length (n div 2)))"

declare bit_length.simps [simp del]

lemma less_bit_length: "n < 2 ^ bit_length n"
proof (induction n rule: bit_length.induct)
  case (1 n)
  then show ?case by (subst bit_length.simps) auto
qed

lemma bit_length_le: "n < 2 ^ k \<Longrightarrow> bit_length n \<le> k"
proof (induction k arbitrary: n)
  case (Suc k)
  then have "bit_length (n div 2) \<le> k" by auto
  then show ?case by (subst bit_length.simps) simp
qed (subst bit_length.simps, simp)

definition byte_length :: "nat \<Rightarrow> nat" where
  "byte_length n = (bit_length n + 7) div 8"

lemma less_byte_length: "n < 256 ^ byte_length n"
proof -
  have "n < 2 ^ bit_length n" by (rule less_bit_length)
  also have "\<dots> \<le> 2 ^ (8 * byte_length n)"
    by (intro power_increasing) (auto simp: byte_length_def)
  finally show ?thesis by (simp add: power_mult)
qed

lemma byte_length_le: "n < 256 ^ k \<Longrightarrow> byte_length n \<le> k"
  using bit_length_le [of n "8 * k"] by (simp add: power_mult byte_length_def)

end
