(* ===== verification/MerkleHash.thy ===== *)
theory MerkleHash
  imports Bytes
begin

text \<open>
  Hashing in the persistent Merkle tree: \<^verbatim>\<open>core/lib/merkle_tree/src/hasher/mod.rs\<close> (the hasher, Merkle
  paths), \<^verbatim>\<open>hasher/nodes.rs\<close> (hashes of leaves and of internal nodes with 16 children) and \<^verbatim>\<open>hasher/proofs.rs\<close>
  (verification of entries, of block outputs and of key ranges), against the full binary tree with a leaf for
  each of the \<open>2 ^ 256\<close> keys. Hashes are values of an arbitrary type \<open>'h\<close>.
\<close>

unbundle bit_operations_syntax

section \<open>The hasher\<close>

definition KEY_SIZE :: nat where "KEY_SIZE = 32"

definition TREE_DEPTH :: nat where "TREE_DEPTH = KEY_SIZE * 8"

text \<open>\<open>hash_zero\<close> is the all-zero hash, \<open>ValueHash::zero()\<close>.\<close>

record 'h HashTree =
  hash_name :: string
  hash_leaf :: "'h \<Rightarrow> u64 \<Rightarrow> 'h"
  hash_branch :: "'h \<Rightarrow> 'h \<Rightarrow> 'h"
  empty_subtree_hash :: "nat \<Rightarrow> 'h"
  hash_zero :: 'h

definition empty_tree_hash :: "'h HashTree \<Rightarrow> 'h" where
  "empty_tree_hash H = empty_subtree_hash H TREE_DEPTH"

text \<open>
  The Blake2 hasher, whose hashes are byte strings, over the functions \<open>hash_bytes\<close> and \<open>compress\<close> of the hashing
  crate. The hashes of empty subtrees are the hash_successors of the hash of 40 zero bytes.
\<close>

fun hash_successors :: "('h \<Rightarrow> 'h) \<Rightarrow> nat \<Rightarrow> 'h \<Rightarrow> 'h list" where
  "hash_successors f 0 h = []"
| "hash_successors f (Suc n) h = h # hash_successors f n (f h)"

definition compute_empty_hashes :: "(bytes \<Rightarrow> bytes) \<Rightarrow> (bytes \<Rightarrow> bytes \<Rightarrow> bytes) \<Rightarrow> bytes list" where
  "compute_empty_hashes hash_bytes compress =
     hash_successors (\<lambda>hash. compress hash hash) (TREE_DEPTH + 1) (hash_bytes (replicate 40 0))"

definition Blake2Hasher :: "(bytes \<Rightarrow> bytes) \<Rightarrow> (bytes \<Rightarrow> bytes \<Rightarrow> bytes) \<Rightarrow> bytes HashTree" where
  "Blake2Hasher hash_bytes compress =
     \<lparr>hash_name = ''blake2s256'',
      hash_leaf = (\<lambda>value_hash leaf_index. hash_bytes (word_be 8 leaf_index @ value_hash)),
      hash_branch = compress,
      empty_subtree_hash = (\<lambda>depth. compute_empty_hashes hash_bytes compress ! depth),
      hash_zero = replicate 32 0\<rparr>"

section \<open>Entries and leaves\<close>

record 'h TreeEntry =
  te_key :: u256
  te_value :: 'h
  te_leaf_index :: u64

definition empty_entry :: "'h HashTree \<Rightarrow> u256 \<Rightarrow> 'h TreeEntry" where
  "empty_entry H key = \<lparr>te_key = key, te_value = hash_zero H, te_leaf_index = 0\<rparr>"

record 'h LeafNode =
  full_key :: u256
  value_hash :: 'h
  leaf_index :: u64

definition LeafNode_new :: "'h TreeEntry \<Rightarrow> 'h LeafNode" where
  "LeafNode_new e = \<lparr>full_key = te_key e, value_hash = te_value e, leaf_index = te_leaf_index e\<rparr>"

text \<open>One step towards the root: the adjacent hash is on the left exactly if the bit of the key is set.\<close>

definition join_adjacent :: "'h HashTree \<Rightarrow> u256 \<Rightarrow> nat \<Rightarrow> 'h \<Rightarrow> 'h \<Rightarrow> 'h" where
  "join_adjacent H key depth adjacent hash =
     (if bit key depth then hash_branch H adjacent hash else hash_branch H hash adjacent)"

fun hash_up :: "'h HashTree \<Rightarrow> u256 \<Rightarrow> nat \<Rightarrow> (nat \<Rightarrow> 'h) \<Rightarrow> 'h \<Rightarrow> 'h" where
  "hash_up H key 0 adjacent hash = hash"
| "hash_up H key (Suc n) adjacent hash = join_adjacent H key n (adjacent n) (hash_up H key n adjacent hash)"

definition leaf_node_hash :: "'h HashTree \<Rightarrow> 'h LeafNode \<Rightarrow> nat \<Rightarrow> 'h" where
  "leaf_node_hash H l level =
     hash_up H (full_key l) (TREE_DEPTH - level) (empty_subtree_hash H) (hash_leaf H (value_hash l) (leaf_index l))"

section \<open>Merkle paths\<close>

text \<open>A path of more than 256 hashes makes the subtraction \<open>TREE_DEPTH - path.len()\<close> underflow.\<close>

definition extend_merkle_path :: "'h HashTree \<Rightarrow> 'h list \<Rightarrow> 'h list option" where
  "extend_merkle_path H path =
     (if length path \<le> TREE_DEPTH
      then Some (map (empty_subtree_hash H) [0..<TREE_DEPTH - length path] @ path) else None)"

definition fold_merkle_path :: "'h HashTree \<Rightarrow> 'h list \<Rightarrow> 'h TreeEntry \<Rightarrow> 'h option" where
  "fold_merkle_path H path entry =
     map_option (\<lambda>full_path. hash_up H (te_key entry) (length full_path) (nth full_path)
         (hash_leaf H (te_value entry) (te_leaf_index entry)))
       (extend_merkle_path H path)"

section \<open>Internal nodes\<close>

text \<open>
  The hashes of the 16 children of a node (\<open>None\<close>: no child) are combined level by level, each level in place over
  the previous one. The cache keeps the intermediate levels.
\<close>

fun hash_optional_branch :: "'h HashTree \<Rightarrow> nat \<Rightarrow> 'h option \<Rightarrow> 'h option \<Rightarrow> 'h option" where
  "hash_optional_branch H subtree_depth None None = None"
| "hash_optional_branch H subtree_depth (Some lhs) None = Some (hash_branch H lhs (empty_subtree_hash H subtree_depth))"
| "hash_optional_branch H subtree_depth None (Some rhs) = Some (hash_branch H (empty_subtree_hash H subtree_depth) rhs)"
| "hash_optional_branch H subtree_depth (Some lhs) (Some rhs) = Some (hash_branch H lhs rhs)"

record 'h InternalNodeCache =
  level1 :: "'h option list"
  level2 :: "'h option list"
  level3 :: "'h option list"

definition cache_default :: "'h InternalNodeCache" where
  "cache_default = \<lparr>level1 = replicate 2 None, level2 = replicate 4 None, level3 = replicate 8 None\<rparr>"

definition set_level :: "nat \<Rightarrow> 'h option list \<Rightarrow> 'h InternalNodeCache \<Rightarrow> 'h InternalNodeCache" where
  "set_level level_in_tree source cache =
     (if level_in_tree = 1 then cache\<lparr>level1 := take 2 source\<rparr>
      else if level_in_tree = 2 then cache\<lparr>level2 := take 4 source\<rparr>
      else if level_in_tree = 3 then cache\<lparr>level3 := take 8 source\<rparr> else cache)"

definition hash_level :: "'h HashTree \<Rightarrow> nat \<Rightarrow> nat \<Rightarrow> 'h option list \<Rightarrow> 'h option list" where
  "hash_level H subtree_depth next_level_len level_hashes =
     fold (\<lambda>i hs. hs[i := hash_optional_branch H subtree_depth (hs ! (2 * i)) (hs ! (2 * i + 1))])
       [0..<next_level_len] level_hashes"

fun hash_levels ::
  "'h HashTree \<Rightarrow> nat \<Rightarrow> nat \<Rightarrow> nat \<Rightarrow> 'h option list \<times> 'h InternalNodeCache option \<Rightarrow>
   'h option list \<times> 'h InternalNodeCache option" where
  "hash_levels H level 0 next_level_len (hs, cache) = (hs, cache)"
| "hash_levels H level (Suc l) next_level_len (hs, cache) =
     (let hs' = hash_level H (TREE_DEPTH - (level + Suc l)) next_level_len hs
      in hash_levels H level l (next_level_len div 2) (hs', map_option (set_level l hs') cache))"

definition hash_inner ::
  "'h HashTree \<Rightarrow> 'h option list \<Rightarrow> nat \<Rightarrow> 'h InternalNodeCache option \<Rightarrow> 'h \<times> 'h InternalNodeCache option" where
  "hash_inner H level_hashes level cache =
     (let (hs, cache') = hash_levels H level 4 (length level_hashes div 2) (level_hashes, cache)
      in (case hs ! 0 of Some h \<Rightarrow> h | None \<Rightarrow> empty_subtree_hash H (TREE_DEPTH - level), cache'))"

text \<open>
  One changed child: the hashes on the way to the top of the node are recomputed from the cached levels. \<open>None\<close>
  is the \<open>unwrap\<close> of a node with no child.
\<close>

definition update_nibble ::
  "'h HashTree \<Rightarrow> 'h option list \<Rightarrow> nat \<Rightarrow> nat \<Rightarrow> 'h InternalNodeCache \<Rightarrow> 'h option \<times> 'h InternalNodeCache" where
  "update_nibble H level_hashes level nibble cache =
     (let pair = (\<lambda>l hs i. hash_optional_branch H (TREE_DEPTH - (level + l)) (hs ! (i - i mod 2)) (hs ! (i - i mod 2 + 1)));
          l3 = (level3 cache)[nibble div 2 := pair 4 level_hashes nibble];
          l2 = (level2 cache)[nibble div 4 := pair 3 l3 (nibble div 2)];
          l1 = (level1 cache)[nibble div 8 := pair 2 l2 (nibble div 4)]
      in (pair 1 l1 (nibble div 8), \<lparr>level1 = l1, level2 = l2, level3 = l3\<rparr>))"

section \<open>The reference tree\<close>

text \<open>
  The content of the tree, and the hash of a subtree: \<open>p\<close> is the number formed by the bits of its keys above
  height \<open>d\<close>.
\<close>

type_synonym 'h content = "u256 \<rightharpoonup> 'h \<times> u64"

definition content_leaf :: "'h HashTree \<Rightarrow> ('h \<times> u64) option \<Rightarrow> 'h" where
  "content_leaf H c = (case c of None \<Rightarrow> hash_leaf H (hash_zero H) 0 | Some (v, i) \<Rightarrow> hash_leaf H v i)"

fun tree_hash :: "'h HashTree \<Rightarrow> 'h content \<Rightarrow> nat \<Rightarrow> nat \<Rightarrow> 'h" where
  "tree_hash H M 0 p = content_leaf H (M (of_nat p))"
| "tree_hash H M (Suc d) p = hash_branch H (tree_hash H M d (2 * p)) (tree_hash H M d (2 * p + 1))"

definition root_of :: "'h HashTree \<Rightarrow> 'h content \<Rightarrow> 'h" where
  "root_of H M = tree_hash H M TREE_DEPTH 0"

definition prefix_at :: "nat \<Rightarrow> u256 \<Rightarrow> nat" where
  "prefix_at d k = unat k div 2 ^ d"

definition adjacent_prefix :: "nat \<Rightarrow> nat" where
  "adjacent_prefix p = (if odd p then p - 1 else p + 1)"

text \<open>The adjacent hashes on the way from a key to the root.\<close>

definition tree_path :: "'h HashTree \<Rightarrow> 'h content \<Rightarrow> u256 \<Rightarrow> 'h list" where
  "tree_path H M k = map (\<lambda>d. tree_hash H M d (adjacent_prefix (prefix_at d k))) [0..<TREE_DEPTH]"

definition entry_at :: "'h HashTree \<Rightarrow> 'h content \<Rightarrow> u256 \<Rightarrow> 'h TreeEntry" where
  "entry_at H M k = (case M k of None \<Rightarrow> empty_entry H k | Some (v, i) \<Rightarrow> \<lparr>te_key = k, te_value = v, te_leaf_index = i\<rparr>)"

lemma TREE_DEPTH_eq [simp]: "TREE_DEPTH = 256"
  by (simp add: TREE_DEPTH_def KEY_SIZE_def)

lemma prefix_at_0 [simp]: "prefix_at 0 k = unat k"
  by (simp add: prefix_at_def)

lemma prefix_at_256 [simp]: "prefix_at 256 k = 0"
  using unsigned_less [of k, where ?'a = nat] by (simp add: prefix_at_def)

lemma bit_prefix_at: "bit k d \<longleftrightarrow> odd (prefix_at d k)"
  by (simp add: prefix_at_def bit_iff_odd [symmetric] bit_unsigned_iff)

lemma prefix_at_Suc: "prefix_at (Suc d) k = prefix_at d k div 2"
  by (simp only: prefix_at_def power_Suc2 div_mult2_eq)

lemma join_prefix:
  "join_adjacent H k d (tree_hash H M d (adjacent_prefix (prefix_at d k))) (tree_hash H M d (prefix_at d k)) =
   tree_hash H M (Suc d) (prefix_at (Suc d) k)"
  by (cases "odd (prefix_at d k)")
     (auto simp: join_adjacent_def bit_prefix_at adjacent_prefix_def prefix_at_Suc elim!: oddE evenE)

lemma hash_up_cong:
  "(\<And>d. d < n \<Longrightarrow> f d = g d) \<Longrightarrow> hash_up H k n f h = hash_up H k n g h"
  by (induction n) auto

lemma hash_up_tree:
  "hash_up H k n (\<lambda>d. tree_hash H M d (adjacent_prefix (prefix_at d k))) (content_leaf H (M k)) = tree_hash H M n (prefix_at n k)"
  by (induction n) (simp_all add: join_prefix del: tree_hash.simps(2))


lemma prefix_at_mono_eq: "prefix_at d k = prefix_at d k' \<Longrightarrow> d \<le> n \<Longrightarrow> prefix_at n k = prefix_at n k'"
  by (auto simp: le_iff_add prefix_at_def power_add div_mult2_eq)

lemma prefix_at_le: "k \<le> k' \<Longrightarrow> prefix_at d k \<le> prefix_at d k'"
  by (simp add: prefix_at_def word_le_nat_alt div_le_mono)

lemma prefix_at_less: "d \<le> TREE_DEPTH \<Longrightarrow> prefix_at d k < 2 ^ (TREE_DEPTH - d)"
  using unsigned_less [of k, where ?'a = nat]
  by (simp add: prefix_at_def less_mult_imp_div_less flip: power_add)

lemma adjacent_less: "p < 2 ^ n \<Longrightarrow> 0 < n \<Longrightarrow> adjacent_prefix p < 2 ^ n"
  by (cases n) (auto simp: adjacent_prefix_def elim!: evenE)

section \<open>The laws of the hasher\<close>

locale hash_tree =
  fixes H :: "'h HashTree"
  assumes empty_leaf: "empty_subtree_hash H 0 = hash_leaf H (hash_zero H) 0"
    and empty_branch: "d < TREE_DEPTH \<Longrightarrow>
      empty_subtree_hash H (Suc d) = hash_branch H (empty_subtree_hash H d) (empty_subtree_hash H d)"
begin

lemma tree_hash_empty:
  "d \<le> TREE_DEPTH \<Longrightarrow> (\<And>k. prefix_at d k = p \<Longrightarrow> M k = None) \<Longrightarrow> p < 2 ^ (TREE_DEPTH - d) \<Longrightarrow>
   tree_hash H M d p = empty_subtree_hash H d"
proof (induction d arbitrary: p)
  case 0
  then have "unat (of_nat p :: u256) = p"
    by (simp add: unsigned_of_nat take_bit_nat_eq_self)
  then show ?case
    using 0 by (simp add: content_leaf_def empty_leaf)
next
  case (Suc d)
  have "tree_hash H M d q = empty_subtree_hash H d" if "q div 2 = p" for q
  proof (rule Suc.IH)
    show "d \<le> TREE_DEPTH" using Suc.prems by simp
    show "M k = None" if "prefix_at d k = q" for k
      using Suc.prems(2) [of k] that \<open>q div 2 = p\<close> by (simp add: prefix_at_Suc)
    have "TREE_DEPTH - d = Suc (TREE_DEPTH - Suc d)" using Suc.prems(1) by simp
    then show "q < 2 ^ (TREE_DEPTH - d)"
      using Suc.prems(3) \<open>q div 2 = p\<close> by (simp del: TREE_DEPTH_eq)
  qed
  then show ?case
    using Suc.prems(1) by (simp add: empty_branch)
qed

lemma root_of_empty: "root_of H Map.empty = empty_tree_hash H"
  unfolding root_of_def empty_tree_hash_def by (rule tree_hash_empty) simp_all

text \<open>The hash of a leaf at a level is the hash of the subtree that contains nothing else.\<close>

lemma leaf_node_hash_tree:
  assumes "level \<le> TREE_DEPTH" and "M (full_key l) = Some (value_hash l, leaf_index l)"
    and "\<And>k. k \<noteq> full_key l \<Longrightarrow> prefix_at (TREE_DEPTH - level) k = prefix_at (TREE_DEPTH - level) (full_key l) \<Longrightarrow> M k = None"
  shows "leaf_node_hash H l level = tree_hash H M (TREE_DEPTH - level) (prefix_at (TREE_DEPTH - level) (full_key l))"
proof -
  let ?k = "full_key l" and ?n = "TREE_DEPTH - level"
  have "empty_subtree_hash H d = tree_hash H M d (adjacent_prefix (prefix_at d ?k))" if "d < ?n" for d
  proof (rule tree_hash_empty [symmetric])
    show "d \<le> TREE_DEPTH" using that by simp
    have half: "adjacent_prefix (prefix_at d ?k) div 2 = prefix_at d ?k div 2" "adjacent_prefix (prefix_at d ?k) \<noteq> prefix_at d ?k"
      by (auto simp: adjacent_prefix_def elim!: oddE)
    show "M k = None" if "prefix_at d k = adjacent_prefix (prefix_at d ?k)" for k
    proof (rule assms(3))
      show "k \<noteq> ?k" using that half(2) by auto
      have "prefix_at (Suc d) k = prefix_at (Suc d) ?k"
        using that half(1) by (simp add: prefix_at_Suc)
      then show "prefix_at ?n k = prefix_at ?n ?k"
        using \<open>d < ?n\<close> by (rule prefix_at_mono_eq [OF _ Suc_leI])
    qed
    show "adjacent_prefix (prefix_at d ?k) < 2 ^ (TREE_DEPTH - d)"
      using that by (intro adjacent_less prefix_at_less) auto
  qed
  then have "hash_up H ?k ?n (empty_subtree_hash H) h = hash_up H ?k ?n (\<lambda>d. tree_hash H M d (adjacent_prefix (prefix_at d ?k))) h" for h
    by (rule hash_up_cong)
  then have "leaf_node_hash H l level = hash_up H ?k ?n (\<lambda>d. tree_hash H M d (adjacent_prefix (prefix_at d ?k))) (content_leaf H (M ?k))"
    by (simp only: leaf_node_hash_def assms(2) content_leaf_def option.case prod.case)
  then show ?thesis
    by (simp only: hash_up_tree)
qed

text \<open>An optional hash of height \<open>d\<close> stands for the empty subtree if it is absent.\<close>

definition opt_hash :: "nat \<Rightarrow> 'h option \<Rightarrow> 'h" where
  "opt_hash d c = (case c of None \<Rightarrow> empty_subtree_hash H d | Some h \<Rightarrow> h)"

lemma opt_hash_branch:
  "d < TREE_DEPTH \<Longrightarrow> opt_hash (Suc d) (hash_optional_branch H d l r) = hash_branch H (opt_hash d l) (opt_hash d r)"
  by (cases l; cases r) (simp_all add: opt_hash_def empty_branch)

end

lemma length_hash_level [simp]: "length (hash_level H d n hs) = length hs"
  unfolding hash_level_def by (induction n) simp_all

lemma hash_level_above: "n \<le> i \<Longrightarrow> hash_level H d n hs ! i = hs ! i"
  unfolding hash_level_def by (induction n) simp_all

lemma hash_level_Suc:
  "hash_level H d (Suc n) hs =
   (hash_level H d n hs)[n := hash_optional_branch H d (hash_level H d n hs ! (2 * n)) (hash_level H d n hs ! (2 * n + 1))]"
  by (simp add: hash_level_def)

lemma hash_level_nth:
  "2 * n \<le> length hs \<Longrightarrow> i < n \<Longrightarrow>
   hash_level H d n hs ! i = hash_optional_branch H d (hs ! (2 * i)) (hs ! (2 * i + 1))"
proof (induction n)
  case (Suc n)
  then show ?case
    by (cases "i = n") (simp_all add: hash_level_Suc hash_level_above)
qed simp

text \<open>A whole level as a function of the one below it, and the levels of a node.\<close>

definition pairs :: "'h HashTree \<Rightarrow> nat \<Rightarrow> 'h option list \<Rightarrow> 'h option list" where
  "pairs H d hs = map (\<lambda>i. hash_optional_branch H d (hs ! (2 * i)) (hs ! (2 * i + 1))) [0..<length hs div 2]"

definition node_levels :: "'h HashTree \<Rightarrow> nat \<Rightarrow> 'h option list \<Rightarrow> 'h InternalNodeCache" where
  "node_levels H level hs =
     (let l3 = pairs H (TREE_DEPTH - (level + 4)) hs;
          l2 = pairs H (TREE_DEPTH - (level + 3)) l3;
          l1 = pairs H (TREE_DEPTH - (level + 2)) l2
      in \<lparr>level1 = l1, level2 = l2, level3 = l3\<rparr>)"

definition node_top :: "'h HashTree \<Rightarrow> nat \<Rightarrow> 'h option list \<Rightarrow> 'h option" where
  "node_top H level hs = pairs H (TREE_DEPTH - (level + 1)) (level1 (node_levels H level hs)) ! 0"

lemma length_pairs [simp]: "length (pairs H d hs) = length hs div 2"
  by (simp add: pairs_def)

lemma take_hash_level: "2 * n \<le> length hs \<Longrightarrow> take n (hash_level H d n hs) = pairs H d (take (2 * n) hs)"
  by (rule nth_equalityI) (auto simp: pairs_def hash_level_nth)

lemma pairs_update:
  "i < length hs \<Longrightarrow> even (length hs) \<Longrightarrow>
   pairs H d (hs[i := v]) =
   (pairs H d hs)[i div 2 := hash_optional_branch H d (hs[i := v] ! (i - i mod 2)) (hs[i := v] ! (i - i mod 2 + 1))]"
proof (rule nth_equalityI)
  fix j
  assume i: "i < length hs" "even (length hs)" and j: "j < length (pairs H d (hs[i := v]))"
  then have j': "j < length hs div 2" by simp
  have "2 * j \<noteq> i \<and> 2 * j + 1 \<noteq> i" if "i div 2 \<noteq> j" using that by auto
  moreover have "i - i mod 2 = 2 * (i div 2)" by (simp add: minus_mod_eq_mult_div)
  ultimately show "pairs H d (hs[i := v]) ! j =
      (pairs H d hs)[i div 2 := hash_optional_branch H d (hs[i := v] ! (i - i mod 2)) (hs[i := v] ! (i - i mod 2 + 1))] ! j"
    using j' by (cases "i div 2 = j") (simp_all add: pairs_def del: One_nat_def)
qed simp

lemma hash_levels_step:
  "0 < l \<Longrightarrow> hash_levels H level l n (hs, cache) =
   (let hs' = hash_level H (TREE_DEPTH - (level + l)) n hs
    in hash_levels H level (l - 1) (n div 2) (hs', map_option (set_level (l - 1) hs') cache))"
  by (cases l) simp_all

lemma hash_inner_levels:
  assumes "length hs = 16"
  shows "hash_inner H hs level cache =
    (case node_top H level hs of Some h \<Rightarrow> h | None \<Rightarrow> empty_subtree_hash H (TREE_DEPTH - level),
     map_option (\<lambda>_. node_levels H level hs) cache)"
proof -
  let ?d = "\<lambda>l. TREE_DEPTH - (level + l)"
  define h3 where "h3 = hash_level H (?d 4) 8 hs"
  define h2 where "h2 = hash_level H (?d 3) 4 h3"
  define h1 where "h1 = hash_level H (?d 2) 2 h2"
  define h0 where "h0 = hash_level H (?d 1) 1 h1"
  have len: "length h3 = 16" "length h2 = 16" "length h1 = 16"
    by (simp_all add: h3_def h2_def h1_def assms)
  have l3: "take 8 h3 = pairs H (?d 4) hs"
    using take_hash_level [of 8 hs H "?d 4"] by (simp add: h3_def assms)
  have l2: "take 4 h2 = pairs H (?d 3) (take 8 h3)"
    using take_hash_level [of 4 h3 H "?d 3"] by (simp add: h2_def len)
  have l1: "take 2 h1 = pairs H (?d 2) (take 4 h2)"
    using take_hash_level [of 2 h2 H "?d 2"] by (simp add: h1_def len)
  have "take 1 h0 = pairs H (?d 1) (take 2 h1)"
    using take_hash_level [of 1 h1 H "?d 1"] by (simp add: h0_def len)
  then have l0: "h0 ! 0 = pairs H (?d 1) (take 2 h1) ! 0"
    by (metis nth_take zero_less_one)
  have "hash_levels H level 4 8 (hs, cache) =
      (h0, map_option (\<lambda>c. set_level 0 h0 (set_level 1 h1 (set_level 2 h2 (set_level 3 h3 c)))) cache)"
    by (simp add: hash_levels_step h0_def h1_def h2_def h3_def Let_def option.map_comp comp_def del: TREE_DEPTH_eq)
  moreover have "set_level 0 h0 (set_level 1 h1 (set_level 2 h2 (set_level 3 h3 c))) = node_levels H level hs"
    for c :: "'a InternalNodeCache"
    by (simp add: set_level_def node_levels_def Let_def l3 l2 l1)
  ultimately show ?thesis
    by (simp add: hash_inner_def assms l0 l1 l2 l3 node_top_def node_levels_def Let_def)
qed

text \<open>The incremental update agrees with hashing the node from scratch.\<close>

lemma update_nibble_levels:
  assumes "length hs = 16" and "nibble < 16"
  shows "update_nibble H (hs[nibble := v]) level nibble (node_levels H level hs) =
    (node_top H level (hs[nibble := v]), node_levels H level (hs[nibble := v]))"
proof -
  have even: "even (length hs)" "even (length hs div 2)" "even (length hs div 2 div 2)" "even (length hs div 2 div 2 div 2)"
    by (simp_all add: assms)
  have div: "nibble div 2 div 2 = nibble div 4" "nibble div 4 div 2 = nibble div 8"
    by (simp_all add: div_mult2_eq [symmetric])
  have small: "nibble div 8 - nibble div 8 mod 2 = 0" using assms(2) by auto
  show ?thesis
    using assms even
    by (simp add: update_nibble_def node_levels_def node_top_def Let_def pairs_update div small)
qed

context hash_tree
begin

lemma pairs_tree:
  assumes "d < TREE_DEPTH" and "\<And>i. i < 2 * m \<Longrightarrow> opt_hash d (hs ! i) = tree_hash H M d (2 * m * p + i)"
    and "length hs = 2 * m" and "i < m"
  shows "opt_hash (Suc d) (pairs H d hs ! i) = tree_hash H M (Suc d) (m * p + i)"
proof -
  have "opt_hash (Suc d) (pairs H d hs ! i) = hash_branch H (opt_hash d (hs ! (2 * i))) (opt_hash d (hs ! (2 * i + 1)))"
    using assms by (simp add: pairs_def opt_hash_branch del: One_nat_def)
  then show ?thesis
    using assms(2) [of "2 * i"] assms(2) [of "2 * i + 1"] assms(4) by (simp add: algebra_simps)
qed

text \<open>Hashing the optional hashes of 16 adjacent subtrees gives the hash of their common ancestor.\<close>

lemma hash_inner_tree:
  assumes "level + 4 \<le> TREE_DEPTH" and "length hs = 16"
    and "\<And>i. i < 16 \<Longrightarrow> opt_hash (TREE_DEPTH - (level + 4)) (hs ! i) = tree_hash H M (TREE_DEPTH - (level + 4)) (16 * p + i)"
  shows "fst (hash_inner H hs level cache) = tree_hash H M (TREE_DEPTH - level) p"
proof -
  define d where "d = TREE_DEPTH - (level + 4)"
  have d: "TREE_DEPTH - (level + 3) = Suc d" "TREE_DEPTH - (level + 2) = Suc (Suc d)"
    "TREE_DEPTH - (level + 1) = Suc (Suc (Suc d))" "TREE_DEPTH - level = Suc (Suc (Suc (Suc d)))"
    using assms(1) by (simp_all add: d_def)
  then have less: "d < TREE_DEPTH" "Suc d < TREE_DEPTH" "Suc (Suc d) < TREE_DEPTH" "Suc (Suc (Suc d)) < TREE_DEPTH"
    by linarith+
  define l3 where "l3 = pairs H d hs"
  define l2 where "l2 = pairs H (Suc d) l3"
  define l1 where "l1 = pairs H (Suc (Suc d)) l2"
  have len: "length l3 = 8" "length l2 = 4" "length l1 = 2"
    by (simp_all add: l3_def l2_def l1_def assms(2))
  have t3: "opt_hash (Suc d) (l3 ! i) = tree_hash H M (Suc d) (8 * p + i)" if "i < 8" for i
    unfolding l3_def by (rule pairs_tree) (use assms less that in \<open>simp_all add: d_def [symmetric] del: TREE_DEPTH_eq tree_hash.simps\<close>)
  have t2: "opt_hash (Suc (Suc d)) (l2 ! i) = tree_hash H M (Suc (Suc d)) (4 * p + i)" if "i < 4" for i
    unfolding l2_def by (rule pairs_tree) (use t3 len less that in \<open>simp_all del: TREE_DEPTH_eq tree_hash.simps\<close>)
  have t1: "opt_hash (Suc (Suc (Suc d))) (l1 ! i) = tree_hash H M (Suc (Suc (Suc d))) (2 * p + i)" if "i < 2" for i
    unfolding l1_def by (rule pairs_tree) (use t2 len less that in \<open>simp_all del: TREE_DEPTH_eq tree_hash.simps\<close>)
  have "opt_hash (Suc (Suc (Suc (Suc d)))) (pairs H (Suc (Suc (Suc d))) l1 ! 0) =
      tree_hash H M (Suc (Suc (Suc (Suc d)))) (1 * p + 0)"
    by (rule pairs_tree) (use t1 len less in \<open>simp_all del: TREE_DEPTH_eq tree_hash.simps\<close>)
  moreover have "node_top H level hs = pairs H (Suc (Suc (Suc d))) l1 ! 0"
    by (simp only: node_top_def node_levels_def Let_def d d_def [symmetric] l1_def l2_def l3_def InternalNodeCache.simps)
  ultimately show ?thesis
    unfolding hash_inner_levels [OF assms(2)] fst_conv d(4) opt_hash_def by simp
qed

end

lemma length_hash_successors [simp]: "length (hash_successors f n h) = n"
  by (induction n arbitrary: h) auto

lemma hash_successors_nth: "d < n \<Longrightarrow> hash_successors f n h ! d = (f ^^ d) h"
  by (induction n arbitrary: h d) (auto simp: nth_Cons funpow_swap1 split: nat.splits)

lemma be_bytes_zero: "be_bytes n 0 = replicate n 0"
  by (induction n) (auto simp: replicate_append_same)

lemma word_be_zero: "word_be n 0 = replicate n 0"
  by (simp add: word_be_def be_bytes_zero)

interpretation blake2: hash_tree "Blake2Hasher hash_bytes compress" for hash_bytes compress
proof
  show "empty_subtree_hash (Blake2Hasher hash_bytes compress) 0 =
      hash_leaf (Blake2Hasher hash_bytes compress) (hash_zero (Blake2Hasher hash_bytes compress)) 0"
    by (simp add: Blake2Hasher_def compute_empty_hashes_def hash_successors_nth word_be_zero flip: replicate_add)
next
  fix d
  assume "d < TREE_DEPTH"
  then show "empty_subtree_hash (Blake2Hasher hash_bytes compress) (Suc d) =
      hash_branch (Blake2Hasher hash_bytes compress) (empty_subtree_hash (Blake2Hasher hash_bytes compress) d)
        (empty_subtree_hash (Blake2Hasher hash_bytes compress) d)"
    by (simp add: Blake2Hasher_def compute_empty_hashes_def hash_successors_nth)
qed

lemma pairs_some: "i < length hs \<Longrightarrow> even (length hs) \<Longrightarrow> hs ! i \<noteq> None \<Longrightarrow> pairs H d hs ! (i div 2) \<noteq> None"
proof -
  assume i: "i < length hs" "even (length hs)" "hs ! i \<noteq> None"
  have "i = 2 * (i div 2) \<or> i = 2 * (i div 2) + 1" by presburger
  then have "hs ! (2 * (i div 2)) \<noteq> None \<or> hs ! (2 * (i div 2) + 1) \<noteq> None" using i(3) by metis
  moreover have "i div 2 < length hs div 2" using i(1,2) by auto
  ultimately show ?thesis
    by (cases "hs ! (2 * (i div 2))"; cases "hs ! (2 * (i div 2) + 1)") (auto simp: pairs_def)
qed

lemma node_top_some:
  assumes "length hs = 16" "i < 16" "hs ! i \<noteq> None"
  shows "node_top H level hs \<noteq> None"
proof -
  have "level1 (node_levels H level hs) ! (i div 2 div 2 div 2) \<noteq> None"
    unfolding node_levels_def Let_def InternalNodeCache.simps using assms by (intro pairs_some) auto
  then have "pairs H d (level1 (node_levels H level hs)) ! (i div 2 div 2 div 2 div 2) \<noteq> None" for d
    using assms by (intro pairs_some) (auto simp: node_levels_def Let_def)
  moreover have "i div 2 div 2 div 2 div 2 = 0"
    using assms(2) by simp
  ultimately show ?thesis
    unfolding node_top_def by metis
qed

text \<open>
  C27. The cache of an internal node is coherent: after one of the 16 children of a node got a new hash,
  \<open>InternalNodeCache::update_nibble\<close> on the cache that hashing the node produced before returns the hash that
  \<open>InternalNode::hash_inner\<close> computes from scratch, and leaves the cache that it would produce.
\<close>
theorem incremental_node_hash:
  assumes "length hs = 16" and "nibble < 16" and "snd (hash_inner H hs level (Some cache0)) = Some cache"
  shows "update_nibble H (hs[nibble := Some h]) level nibble cache =
    (Some (fst (hash_inner H (hs[nibble := Some h]) level None)),
     the (snd (hash_inner H (hs[nibble := Some h]) level (Some cache0))))"
proof -
  have "node_top H level (hs[nibble := Some h]) \<noteq> None"
    by (rule node_top_some [of _ nibble]) (simp_all add: assms)
  then obtain t where "node_top H level (hs[nibble := Some h]) = Some t" by blast
  moreover have "cache = node_levels H level hs"
    using assms(3) by (simp add: hash_inner_levels assms(1))
  ultimately show ?thesis
    by (simp add: update_nibble_levels hash_inner_levels assms(1,2))
qed

definition sum_hasher :: "nat HashTree" where
  "sum_hasher = \<lparr>hash_name = ''sum'', hash_leaf = (\<lambda>v i. v + unat i), hash_branch = (\<lambda>l r. l + 2 * r), empty_subtree_hash = (\<lambda>d. 0), hash_zero = 0\<rparr>"

theorem incremental_node_hash_witness:
  "fst (update_nibble sum_hasher ((replicate 16 None)[2 := Some 7, 5 := Some 9]) 0 5
     (the (snd (hash_inner sum_hasher ((replicate 16 None)[2 := Some 7]) 0 (Some cache_default))))) =
   Some (fst (hash_inner sum_hasher ((replicate 16 None)[2 := Some 7, 5 := Some 9]) 0 None))"
  using incremental_node_hash [of "(replicate 16 None)[2 := Some 7]" 5 sum_hasher 0 cache_default _ 9]
  by (simp add: hash_inner_levels)

text \<open>
  C28. The hash of an internal node is the hash of the full binary tree: if the 16 children of a node at a level have the
  hashes of the 16 adjacent subtrees four levels below, children that are absent standing for empty subtrees, then
  \<open>InternalNode::hash\<close> with the Blake2 hasher is the hash of the subtree of the node.
\<close>
theorem internal_node_hash_is_subtree_hash:
  assumes "level + 4 \<le> TREE_DEPTH" and "length hs = 16"
    and "\<And>i. i < 16 \<Longrightarrow> (case hs ! i of None \<Rightarrow> empty_subtree_hash (Blake2Hasher hash_bytes compress) (TREE_DEPTH - (level + 4)) | Some h \<Rightarrow> h) =
      tree_hash (Blake2Hasher hash_bytes compress) M (TREE_DEPTH - (level + 4)) (16 * p + i)"
  shows "fst (hash_inner (Blake2Hasher hash_bytes compress) hs level None) =
    tree_hash (Blake2Hasher hash_bytes compress) M (TREE_DEPTH - level) p"
  using assms by (intro blake2.hash_inner_tree) (simp_all add: blake2.opt_hash_def del: TREE_DEPTH_eq)

theorem internal_node_hash_is_subtree_hash_witness:
  "fst (hash_inner (Blake2Hasher id (@)) (replicate 16 None) 252 None) =
   tree_hash (Blake2Hasher id (@)) Map.empty (TREE_DEPTH - 252) 3"
proof -
  have "tree_hash (Blake2Hasher id (@)) Map.empty 0 q = empty_subtree_hash (Blake2Hasher id (@)) 0" for q
    using blake2.empty_leaf [of id "(@)"] by (simp add: content_leaf_def)
  then show ?thesis
    using internal_node_hash_is_subtree_hash [of 252 "replicate 16 None" id "(@)" Map.empty 3] by simp
qed

end
