(* ===== verification/MerkleProofs.thy ===== *)
theory MerkleProofs
  imports MerkleHash
begin

text \<open>
  Verification of Merkle proofs (\<^verbatim>\<open>core/lib/merkle_tree/src/hasher/proofs.rs\<close>): of a single entry, of the output of
  a block of instructions, and of a range of keys. The proofs are compared with the reference tree of
  \<^verbatim>\<open>MerkleHash\<close>. Soundness is stated relative to the inputs that are actually hashed: no two of them have the
  same hash.
\<close>

section \<open>Single entries\<close>

record 'h TreeEntryWithProof =
  base_entry :: "'h TreeEntry"
  merkle_path :: "'h list"

text \<open>\<open>None\<close> is the panic of \<open>extend_merkle_path\<close>.\<close>

datatype proof_error = InvalidMissingValue | RootHashMismatch

definition verify_entry :: "'h HashTree \<Rightarrow> 'h TreeEntryWithProof \<Rightarrow> 'h \<Rightarrow> (proof_error + unit) option" where
  "verify_entry H e trusted_root_hash =
     (if te_leaf_index (base_entry e) = 0 \<and> te_value (base_entry e) \<noteq> hash_zero H
      then Some (Inl InvalidMissingValue)
      else map_option (\<lambda>root_hash. if root_hash = trusted_root_hash then Inr () else Inl RootHashMismatch)
        (fold_merkle_path H (merkle_path e) (base_entry e)))"

section \<open>Block outputs\<close>

datatype 'h TreeInstruction = Read u256 | Write "'h TreeEntry"

fun instruction_key :: "'h TreeInstruction \<Rightarrow> u256" where
  "instruction_key (Read key) = key"
| "instruction_key (Write e) = te_key e"

datatype 'h TreeLogEntry = Inserted | Updated u64 'h | ReadLog u64 'h | ReadMissingKey

fun is_read :: "'h TreeLogEntry \<Rightarrow> bool" where
  "is_read (ReadLog _ _) = True"
| "is_read ReadMissingKey = True"
| "is_read _ = False"

record 'h TreeLogEntryWithProof =
  log_base :: "'h TreeLogEntry"
  log_path :: "'h list"
  log_root_hash :: 'h

fun prev_entry :: "'h HashTree \<Rightarrow> u256 \<Rightarrow> 'h TreeLogEntry \<Rightarrow> 'h TreeEntry" where
  "prev_entry H key (Updated i v) = \<lparr>te_key = key, te_value = v, te_leaf_index = i\<rparr>"
| "prev_entry H key (ReadLog i v) = \<lparr>te_key = key, te_value = v, te_leaf_index = i\<rparr>"
| "prev_entry H key Inserted = empty_entry H key"
| "prev_entry H key ReadMissingKey = empty_entry H key"

definition verify_log :: "'h HashTree \<Rightarrow> 'h \<Rightarrow> 'h TreeLogEntryWithProof \<Rightarrow> 'h TreeInstruction \<Rightarrow> bool" where
  "verify_log H root_hash op instruction \<longleftrightarrow>
     length (log_path op) \<le> TREE_DEPTH \<and>
     (case instruction of
        Read _ \<Rightarrow> log_root_hash op = root_hash \<and> is_read (log_base op)
      | Write _ \<Rightarrow> \<not> is_read (log_base op)) \<and>
     fold_merkle_path H (log_path op) (prev_entry H (instruction_key instruction) (log_base op)) = Some root_hash \<and>
     (case instruction of
        Read _ \<Rightarrow> True
      | Write new_entry \<Rightarrow> fold_merkle_path H (log_path op) new_entry = Some (log_root_hash op))"

fun verify_logs ::
  "'h HashTree \<Rightarrow> 'h \<Rightarrow> 'h TreeLogEntryWithProof list \<Rightarrow> 'h TreeInstruction list \<Rightarrow> bool" where
  "verify_logs H root_hash (op # ops) (instruction # instructions) \<longleftrightarrow>
     verify_log H root_hash op instruction \<and> verify_logs H (log_root_hash op) ops instructions"
| "verify_logs H root_hash _ _ \<longleftrightarrow> True"

definition verify_proofs ::
  "'h HashTree \<Rightarrow> 'h \<Rightarrow> 'h TreeLogEntryWithProof list \<Rightarrow> 'h TreeInstruction list \<Rightarrow> bool" where
  "verify_proofs H old_root_hash logs instructions \<longleftrightarrow>
     length instructions = length logs \<and> verify_logs H old_root_hash logs instructions"

section \<open>Ranges of keys\<close>

text \<open>\<open>find_diverging_bit\<close> counts the leading zeros of the exclusive or of the keys.\<close>

definition leading_zeros :: "u256 \<Rightarrow> nat" where
  "leading_zeros w = length (takeWhile (\<lambda>i. \<not> bit w (TREE_DEPTH - 1 - i)) [0..<TREE_DEPTH])"

definition find_diverging_bit :: "u256 \<Rightarrow> u256 \<Rightarrow> nat" where
  "find_diverging_bit lhs rhs = leading_zeros (xor lhs rhs)"

record 'h TreeRangeDigest =
  current_leaf :: "'h LeafNode"
  left_contour :: "'h list"

definition digest_new :: "'h HashTree \<Rightarrow> u256 \<Rightarrow> 'h TreeEntryWithProof \<Rightarrow> 'h TreeRangeDigest option" where
  "digest_new H start_key start_entry =
     map_option (\<lambda>full_path. \<lparr>current_leaf = LeafNode_new (base_entry start_entry),
         left_contour = map (\<lambda>(depth, adjacent_hash). if bit start_key depth then adjacent_hash else empty_subtree_hash H depth)
           (enumerate 0 full_path)\<rparr>)
       (extend_merkle_path H (merkle_path start_entry))"

fun collapse :: "'h HashTree \<Rightarrow> u256 \<Rightarrow> nat \<Rightarrow> 'h \<times> 'h list \<Rightarrow> 'h \<times> 'h list" where
  "collapse H key 0 (hash, contour) = (hash, contour)"
| "collapse H key (Suc depth) (hash, contour) =
     (let (hash, contour) = collapse H key depth (hash, contour);
          left_hash = contour ! depth
      in (if bit key depth then hash_branch H left_hash hash else hash_branch H hash (empty_subtree_hash H depth),
          contour[depth := empty_subtree_hash H depth]))"

text \<open>\<open>None\<close> is the panic for a key that is not greater than the previous one.\<close>

definition digest_update :: "'h HashTree \<Rightarrow> 'h TreeEntry \<Rightarrow> 'h TreeRangeDigest \<Rightarrow> 'h TreeRangeDigest option" where
  "digest_update H entry dg =
     (if full_key (current_leaf dg) < te_key entry then
        let diverging_level = find_diverging_bit (full_key (current_leaf dg)) (te_key entry) + 1;
            (hash, contour) = collapse H (full_key (current_leaf dg)) (TREE_DEPTH - diverging_level)
              (hash_leaf H (value_hash (current_leaf dg)) (leaf_index (current_leaf dg)), left_contour dg)
        in Some \<lparr>current_leaf = LeafNode_new entry, left_contour = contour[TREE_DEPTH - diverging_level := hash]\<rparr>
      else None)"

definition digest_finalize :: "'h HashTree \<Rightarrow> 'h TreeEntryWithProof \<Rightarrow> 'h TreeRangeDigest \<Rightarrow> 'h option" where
  "digest_finalize H final_entry dg =
     (case digest_update H (base_entry final_entry) dg of
        None \<Rightarrow> None
      | Some dg' \<Rightarrow>
          (case extend_merkle_path H (merkle_path final_entry) of
             None \<Rightarrow> None
           | Some full_path \<Rightarrow>
               Some (hash_up H (te_key (base_entry final_entry)) (length full_path)
                 (\<lambda>depth. if bit (te_key (base_entry final_entry)) depth then left_contour dg' ! depth else full_path ! depth)
                 (hash_leaf H (te_value (base_entry final_entry)) (te_leaf_index (base_entry final_entry))))))"

text \<open>The use of a digest: a start entry, entries in between, a final entry.\<close>

fun digest_updates :: "'h HashTree \<Rightarrow> 'h TreeEntry list \<Rightarrow> 'h TreeRangeDigest \<Rightarrow> 'h TreeRangeDigest option" where
  "digest_updates H [] dg = Some dg"
| "digest_updates H (e # es) dg = (case digest_update H e dg of None \<Rightarrow> None | Some dg' \<Rightarrow> digest_updates H es dg')"

definition range_root ::
  "'h HashTree \<Rightarrow> 'h TreeEntryWithProof \<Rightarrow> 'h TreeEntry list \<Rightarrow> 'h TreeEntryWithProof \<Rightarrow> 'h option" where
  "range_root H start_entry entries final_entry =
     (case digest_new H (te_key (base_entry start_entry)) start_entry of
        None \<Rightarrow> None
      | Some dg \<Rightarrow> (case digest_updates H entries dg of None \<Rightarrow> None | Some dg' \<Rightarrow> digest_finalize H final_entry dg'))"

section \<open>Hashed inputs\<close>

datatype 'h preimage = LeafIn 'h u64 | BranchIn 'h 'h

fun hash_input :: "'h HashTree \<Rightarrow> 'h preimage \<Rightarrow> 'h" where
  "hash_input H (LeafIn v i) = hash_leaf H v i"
| "hash_input H (BranchIn l r) = hash_branch H l r"

text \<open>What is hashed in a tree with content \<open>M\<close>, and in folding a path.\<close>

definition leaf_input :: "'h HashTree \<Rightarrow> ('h \<times> u64) option \<Rightarrow> 'h preimage" where
  "leaf_input H c = (case c of None \<Rightarrow> LeafIn (hash_zero H) 0 | Some (v, i) \<Rightarrow> LeafIn v i)"

definition tree_inputs :: "'h HashTree \<Rightarrow> 'h content \<Rightarrow> 'h preimage set" where
  "tree_inputs H M = range (\<lambda>k. leaf_input H (M k)) \<union>
     {BranchIn (tree_hash H M d (2 * p)) (tree_hash H M d (2 * p + 1)) | d p. d < TREE_DEPTH}"

definition join_input :: "u256 \<Rightarrow> nat \<Rightarrow> 'h \<Rightarrow> 'h \<Rightarrow> 'h preimage" where
  "join_input key depth adjacent hash = (if bit key depth then BranchIn adjacent hash else BranchIn hash adjacent)"

definition fold_inputs :: "'h HashTree \<Rightarrow> 'h list \<Rightarrow> 'h TreeEntry \<Rightarrow> 'h preimage set" where
  "fold_inputs H path e =
     (case extend_merkle_path H path of
        None \<Rightarrow> {}
      | Some full \<Rightarrow> insert (LeafIn (te_value e) (te_leaf_index e))
          {join_input (te_key e) d (full ! d) (hash_up H (te_key e) d (nth full) (hash_leaf H (te_value e) (te_leaf_index e))) | d.
             d < TREE_DEPTH})"

lemma tree_hash_cong:
  "(\<And>k. content_leaf H (M k) = content_leaf H (M' k)) \<Longrightarrow> tree_hash H M d p = tree_hash H M' d p"
  by (induction d arbitrary: p) auto

lemma tree_hash_agree:
  "d \<le> TREE_DEPTH \<Longrightarrow> p < 2 ^ (TREE_DEPTH - d) \<Longrightarrow> (\<And>k. prefix_at d k = p \<Longrightarrow> M k = M' k) \<Longrightarrow>
   tree_hash H M d p = tree_hash H M' d p"
proof (induction d arbitrary: p)
  case 0
  then have "unat (of_nat p :: u256) = p"
    by (simp add: unsigned_of_nat take_bit_nat_eq_self)
  then show ?case
    using 0 by simp
next
  case (Suc d)
  have *: "tree_hash H M d q = tree_hash H M' d q" if "q div 2 = p" for q
  proof (rule Suc.IH)
    show "d \<le> TREE_DEPTH" using Suc.prems by simp
    have "TREE_DEPTH - d = Suc (TREE_DEPTH - Suc d)" using Suc.prems(1) by simp
    then show "q < 2 ^ (TREE_DEPTH - d)"
      using Suc.prems(2) that by (simp del: TREE_DEPTH_eq)
    show "M k = M' k" if "prefix_at d k = q" for k
      using Suc.prems(3) [of k] that \<open>q div 2 = p\<close> by (simp add: prefix_at_Suc)
  qed
  show ?case
    using * [of "2 * p"] * [of "Suc (2 * p)"] by simp
qed

lemma tree_hash_adjacent_upd:
  assumes "d < TREE_DEPTH"
  shows "tree_hash H (M(k \<mapsto> v)) d (adjacent_prefix (prefix_at d k)) = tree_hash H M d (adjacent_prefix (prefix_at d k))"
proof (rule tree_hash_agree)
  show "adjacent_prefix (prefix_at d k) < 2 ^ (TREE_DEPTH - d)"
    using assms by (intro adjacent_less prefix_at_less) auto
  show "(M(k \<mapsto> v)) k' = M k'" if "prefix_at d k' = adjacent_prefix (prefix_at d k)" for k'
    using that by (auto simp: adjacent_prefix_def elim!: oddE split: if_splits)
qed (use assms in simp)

lemma length_extend: "extend_merkle_path H path = Some full \<Longrightarrow> length full = TREE_DEPTH"
  by (auto simp: extend_merkle_path_def split: if_splits)

lemma join_join_input: "join_adjacent H k d a h = hash_input H (join_input k d a h)"
  by (simp add: join_adjacent_def join_input_def)

lemma join_input_eq: "join_input k d a h = join_input k d a' h' \<longleftrightarrow> a = a' \<and> h = h'"
  by (auto simp: join_input_def)

lemma content_leaf_input: "content_leaf H c = hash_input H (leaf_input H c)"
  by (auto simp: content_leaf_def leaf_input_def split: option.splits)

lemma branch_in_tree: "d < TREE_DEPTH \<Longrightarrow> BranchIn (tree_hash H M d (2 * p)) (tree_hash H M d (Suc (2 * p))) \<in> tree_inputs H M"
  unfolding tree_inputs_def Suc_eq_plus1 by blast

lemma tree_join_input:
  "d < TREE_DEPTH \<Longrightarrow>
   join_input k d (tree_hash H M d (adjacent_prefix (prefix_at d k))) (tree_hash H M d (prefix_at d k)) \<in> tree_inputs H M"
  by (cases "odd (prefix_at d k)")
     (auto simp: join_input_def bit_prefix_at adjacent_prefix_def intro: branch_in_tree simp del: TREE_DEPTH_eq elim!: oddE evenE)

lemma path_binding:
  assumes "inj_on (hash_input H) (tree_inputs H M \<union> fold_inputs H path e)"
    and "fold_merkle_path H path e = Some (root_of H M)"
    and full: "extend_merkle_path H path = Some full"
  shows "LeafIn (te_value e) (te_leaf_index e) = leaf_input H (M (te_key e)) \<and>
    (\<forall>d<TREE_DEPTH. full ! d = tree_hash H M d (adjacent_prefix (prefix_at d (te_key e))))"
proof -
  let ?k = "te_key e" and ?leaf = "hash_leaf H (te_value e) (te_leaf_index e)"
  let ?up = "\<lambda>n. hash_up H ?k n (nth full) ?leaf"
  have top: "?up 256 = tree_hash H M 256 (prefix_at 256 ?k)"
    using assms(2) length_extend [OF full] by (simp add: fold_merkle_path_def full root_of_def)
  have down: "?up n = tree_hash H M n (prefix_at n ?k) \<Longrightarrow> n \<le> TREE_DEPTH \<Longrightarrow>
      ?leaf = content_leaf H (M ?k) \<and> (\<forall>d<n. full ! d = tree_hash H M d (adjacent_prefix (prefix_at d ?k)))" for n
  proof (induction n)
    case (Suc n)
    let ?in = "join_input ?k n (full ! n) (?up n)"
      and ?in' = "join_input ?k n (tree_hash H M n (adjacent_prefix (prefix_at n ?k))) (tree_hash H M n (prefix_at n ?k))"
    have "hash_input H ?in = hash_input H ?in'"
      using Suc.prems(1) by (simp only: join_join_input [symmetric] join_prefix hash_up.simps)
    moreover have "?in \<in> fold_inputs H path e"
      using Suc.prems(2) by (auto simp: fold_inputs_def full)
    ultimately have "?in = ?in'"
      using assms(1) tree_join_input [of n ?k H M] Suc.prems(2) by (blast dest: inj_onD intro: Suc_le_lessD)
    then show ?case
      using Suc by (auto simp: join_input_eq less_Suc_eq)
  qed simp
  have leaf: "?leaf = content_leaf H (M ?k)" and path: "\<forall>d<256. full ! d = tree_hash H M d (adjacent_prefix (prefix_at d ?k))"
    using down [OF top] by simp_all
  have "LeafIn (te_value e) (te_leaf_index e) \<in> fold_inputs H path e" "leaf_input H (M ?k) \<in> tree_inputs H M"
    by (auto simp: fold_inputs_def full tree_inputs_def)
  moreover have "hash_input H (LeafIn (te_value e) (te_leaf_index e)) = hash_input H (leaf_input H (M ?k))"
    using leaf by (simp add: content_leaf_input)
  ultimately have "LeafIn (te_value e) (te_leaf_index e) = leaf_input H (M ?k)"
    using assms(1) by (blast dest: inj_onD)
  then show ?thesis
    using path by simp
qed

lemma leaf_input_entry: "LeafIn (te_value e) (te_leaf_index e) = leaf_input H (M (te_key e)) \<longleftrightarrow> e = entry_at H M (te_key e)"
  by (cases e) (auto simp: leaf_input_def entry_at_def empty_entry_def split: option.splits)

lemma leaf_hash_entry: "hash_leaf H (te_value (entry_at H M k)) (te_leaf_index (entry_at H M k)) = content_leaf H (M k)"
  by (auto simp: content_leaf_def entry_at_def empty_entry_def split: option.splits)

lemma te_key_entry_at [simp]: "te_key (entry_at H M k) = k"
  by (auto simp: entry_at_def empty_entry_def split: option.splits)

section \<open>Correctness of single entries\<close>

text \<open>The path of a key with the hashes of empty subtrees at its start left out.\<close>

definition compact_path :: "'h HashTree \<Rightarrow> 'h content \<Rightarrow> u256 \<Rightarrow> nat \<Rightarrow> 'h list" where
  "compact_path H M k n = drop n (tree_path H M k)"

definition skippable :: "'h HashTree \<Rightarrow> 'h content \<Rightarrow> u256 \<Rightarrow> nat \<Rightarrow> bool" where
  "skippable H M k n \<longleftrightarrow> n \<le> TREE_DEPTH \<and> (\<forall>d<n. tree_hash H M d (adjacent_prefix (prefix_at d k)) = empty_subtree_hash H d)"

lemma extend_compact: "skippable H M k n \<Longrightarrow> extend_merkle_path H (compact_path H M k n) = Some (tree_path H M k)"
  by (auto simp: skippable_def extend_merkle_path_def compact_path_def tree_path_def nth_append intro!: nth_equalityI)

lemma fold_tree_path:
  assumes "extend_merkle_path H path = Some (tree_path H M (te_key e))"
  shows "fold_merkle_path H path e = Some (root_of H (M(te_key e \<mapsto> (te_value e, te_leaf_index e))))"
proof -
  let ?k = "te_key e" and ?M' = "M(te_key e \<mapsto> (te_value e, te_leaf_index e))"
  have "hash_up H ?k 256 (nth (tree_path H M ?k)) (content_leaf H (?M' ?k)) =
      hash_up H ?k 256 (\<lambda>d. tree_hash H ?M' d (adjacent_prefix (prefix_at d ?k))) (content_leaf H (?M' ?k))"
    by (rule hash_up_cong) (simp add: tree_path_def tree_hash_adjacent_upd)
  also have "\<dots> = root_of H ?M'"
    by (simp only: hash_up_tree root_of_def TREE_DEPTH_eq prefix_at_256)
  finally show ?thesis
    by (simp add: fold_merkle_path_def assms content_leaf_def tree_path_def)
qed

lemma root_of_entry_at: "root_of H (M(k \<mapsto> (te_value (entry_at H M k), te_leaf_index (entry_at H M k)))) = root_of H M"
  unfolding root_of_def by (rule tree_hash_cong) (auto simp: content_leaf_def entry_at_def empty_entry_def split: option.splits)


section \<open>Correctness of block outputs\<close>

fun exec_instruction :: "'h content \<Rightarrow> 'h TreeInstruction \<Rightarrow> 'h content" where
  "exec_instruction M (Read key) = M"
| "exec_instruction M (Write e) = M(te_key e \<mapsto> (te_value e, te_leaf_index e))"

fun run_inputs :: "'h HashTree \<Rightarrow> 'h content \<Rightarrow> 'h TreeLogEntryWithProof list \<Rightarrow> 'h TreeInstruction list \<Rightarrow> 'h preimage set" where
  "run_inputs H M (op # ops) (instruction # instructions) =
     tree_inputs H M \<union> fold_inputs H (log_path op) (prev_entry H (instruction_key instruction) (log_base op)) \<union>
     run_inputs H (exec_instruction M instruction) ops instructions"
| "run_inputs H M _ _ = {}"

lemma te_key_prev_entry [simp]: "te_key (prev_entry H k l) = k"
  by (cases l) (simp_all add: empty_entry_def)

lemma verify_log_sound:
  assumes "verify_log H (root_of H M) op instruction"
    and "inj_on (hash_input H) (tree_inputs H M \<union>
      fold_inputs H (log_path op) (prev_entry H (instruction_key instruction) (log_base op)))"
  shows "prev_entry H (instruction_key instruction) (log_base op) = entry_at H M (instruction_key instruction) \<and>
    log_root_hash op = root_of H (exec_instruction M instruction)"
proof -
  let ?k = "instruction_key instruction"
  let ?e = "prev_entry H ?k (log_base op)"
  have fold: "fold_merkle_path H (log_path op) ?e = Some (root_of H M)"
    using assms(1) by (simp add: verify_log_def)
  then obtain full where full: "extend_merkle_path H (log_path op) = Some full"
    by (auto simp: fold_merkle_path_def)
  note bind = path_binding [OF assms(2) fold full]
  then have "full = tree_path H M ?k"
    using length_extend [OF full] by (intro nth_equalityI) (simp_all add: tree_path_def)
  then have "log_root_hash op = root_of H (exec_instruction M instruction)"
    using assms(1) fold_tree_path [of H "log_path op" M] full
    by (cases instruction) (auto simp: verify_log_def)
  then show ?thesis
    using bind leaf_input_entry [of ?e H M] by simp
qed

lemma verify_logs_sound:
  "verify_logs H (root_of H M) logs instructions \<Longrightarrow> length instructions = length logs \<Longrightarrow>
   inj_on (hash_input H) (run_inputs H M logs instructions) \<Longrightarrow> i < length logs \<Longrightarrow>
   prev_entry H (instruction_key (instructions ! i)) (log_base (logs ! i)) =
     entry_at H (foldl exec_instruction M (take i instructions)) (instruction_key (instructions ! i)) \<and>
   log_root_hash (logs ! i) = root_of H (foldl exec_instruction M (take (Suc i) instructions))"
proof (induction logs instructions arbitrary: M i rule: list_induct2')
  case (4 op ops instruction instructions)
  have head: "prev_entry H (instruction_key instruction) (log_base op) = entry_at H M (instruction_key instruction) \<and>
      log_root_hash op = root_of H (exec_instruction M instruction)"
    using 4(2,4) by (intro verify_log_sound) (auto intro: inj_on_subset)
  then have tail: "verify_logs H (root_of H (exec_instruction M instruction)) ops instructions"
    using 4(2) by simp
  show ?case
  proof (cases i)
    case 0
    then show ?thesis using head by simp
  next
    case (Suc j)
    then show ?thesis
      using 4(1) [OF tail, of j] 4(3-5) by (auto intro: inj_on_subset)
  qed
qed simp_all

section \<open>Correctness of ranges\<close>

text \<open>
  The tree that a range of keys from \<open>lo\<close> to \<open>hi\<close> describes: subtrees entirely before the range have the hashes
  \<open>L\<close>, subtrees entirely after it the hashes \<open>R\<close>, and the keys of the range have the content \<open>M\<close>.
\<close>

fun range_hash :: "'h HashTree \<Rightarrow> 'h content \<Rightarrow> u256 \<Rightarrow> u256 \<Rightarrow> (nat \<Rightarrow> 'h) \<Rightarrow> (nat \<Rightarrow> 'h) \<Rightarrow> nat \<Rightarrow> nat \<Rightarrow> 'h" where
  "range_hash H M lo hi L R 0 p =
     (if p < prefix_at 0 lo then L 0 else if prefix_at 0 hi < p then R 0 else content_leaf H (M (of_nat p)))"
| "range_hash H M lo hi L R (Suc d) p =
     (if p < prefix_at (Suc d) lo then L (Suc d) else if prefix_at (Suc d) hi < p then R (Suc d)
      else hash_branch H (range_hash H M lo hi L R d (2 * p)) (range_hash H M lo hi L R d (2 * p + 1)))"

definition range_inputs ::
  "'h HashTree \<Rightarrow> 'h content \<Rightarrow> u256 \<Rightarrow> u256 \<Rightarrow> (nat \<Rightarrow> 'h) \<Rightarrow> (nat \<Rightarrow> 'h) \<Rightarrow> 'h preimage set" where
  "range_inputs H M lo hi L R = (\<lambda>k. leaf_input H (M k)) ` {lo..hi} \<union>
     {BranchIn (range_hash H M lo hi L R d (2 * p)) (range_hash H M lo hi L R d (2 * p + 1)) | d p.
        d < TREE_DEPTH \<and> prefix_at (Suc d) lo \<le> p \<and> p \<le> prefix_at (Suc d) hi}"

lemma range_hash_binding:
  assumes "inj_on (hash_input H) (tree_inputs H M' \<union> range_inputs H M lo hi L R)"
    and "range_hash H M lo hi L R d (prefix_at d k) = tree_hash H M' d (prefix_at d k)"
    and "lo \<le> k" and "k \<le> hi" and "d \<le> TREE_DEPTH"
  shows "leaf_input H (M k) = leaf_input H (M' k)"
  using assms(2,5)
proof (induction d)
  case 0
  then have "hash_input H (leaf_input H (M k)) = hash_input H (leaf_input H (M' k))"
    using assms(3,4) by (simp add: content_leaf_input word_le_nat_alt)
  moreover have "leaf_input H (M k) \<in> range_inputs H M lo hi L R" "leaf_input H (M' k) \<in> tree_inputs H M'"
    using assms(3,4) by (auto simp: range_inputs_def tree_inputs_def)
  ultimately show ?case
    using assms(1) by (blast dest: inj_onD)
next
  case (Suc d)
  let ?p = "prefix_at (Suc d) k"
  let ?in = "BranchIn (range_hash H M lo hi L R d (2 * ?p)) (range_hash H M lo hi L R d (2 * ?p + 1))"
    and ?in' = "BranchIn (tree_hash H M' d (2 * ?p)) (tree_hash H M' d (2 * ?p + 1))"
  have le: "prefix_at (Suc d) lo \<le> ?p" "?p \<le> prefix_at (Suc d) hi"
    using assms(3,4) by (simp_all add: prefix_at_le)
  then have "hash_input H ?in = hash_input H ?in'"
    using Suc.prems(1) by simp
  moreover have "?in \<in> range_inputs H M lo hi L R"
    using le Suc.prems(2) unfolding range_inputs_def by (blast intro: Suc_le_lessD)
  moreover have "?in' \<in> tree_inputs H M'"
    using Suc.prems(2) by (auto intro: branch_in_tree)
  ultimately have "?in = ?in'"
    using assms(1) by (blast dest: inj_onD)
  moreover have "prefix_at d k = 2 * ?p \<or> prefix_at d k = 2 * ?p + 1"
    by (simp add: prefix_at_Suc) presburger
  ultimately show ?case
    using Suc by auto
qed


lemma word_xor_zero: "xor a b = 0 \<Longrightarrow> a = (b :: u256)"
  by (auto simp: bit_eq_iff bit_xor_iff)

text \<open>The highest bit in which two keys differ.\<close>

lemma prefix_at_drop_bit: "prefix_at d k = unat (drop_bit d k)"
  by (rule bit_eqI) (simp add: prefix_at_def bit_unsigned_iff bit_drop_bit_eq flip: drop_bit_eq_div)

lemma prefix_at_eqI:
  assumes "\<And>i. d \<le> i \<Longrightarrow> i < TREE_DEPTH \<Longrightarrow> bit k i = bit k' i"
  shows "prefix_at d k = prefix_at d k'"
proof -
  have "bit k (d + n) = bit k' (d + n)" for n
    using assms [of "d + n"] bit_imp_le_length [of k "d + n"] bit_imp_le_length [of k' "d + n"] by auto
  then have "drop_bit d k = drop_bit d k'"
    by (simp add: bit_eq_iff bit_drop_bit_eq)
  then show ?thesis
    by (simp add: prefix_at_drop_bit)
qed

lemma leading_zeros_bit:
  assumes "w \<noteq> 0"
  shows "leading_zeros w < TREE_DEPTH" "bit w (TREE_DEPTH - 1 - leading_zeros w)"
    "TREE_DEPTH - 1 - leading_zeros w < i \<Longrightarrow> i < TREE_DEPTH \<Longrightarrow> \<not> bit w i"
proof -
  let ?P = "\<lambda>i. \<not> bit w (TREE_DEPTH - 1 - i)" and ?xs = "[0..<TREE_DEPTH]"
  obtain b where "bit w b" "b < TREE_DEPTH"
    using assms by (auto simp: bit_eq_iff dest: bit_imp_le_length)
  then have "\<not> ?P (TREE_DEPTH - 1 - b)" "TREE_DEPTH - 1 - b \<in> set ?xs"
    by auto
  then have "takeWhile ?P ?xs \<noteq> ?xs"
    by (metis set_takeWhileD)
  then show less: "leading_zeros w < TREE_DEPTH"
    unfolding leading_zeros_def
    by (metis diff_zero le_neq_implies_less length_takeWhile_le length_upt takeWhile_eq_take take_all_iff order_refl)
  then have "\<not> ?P (?xs ! length (takeWhile ?P ?xs))"
    by (intro nth_length_takeWhile) (simp add: leading_zeros_def)
  then show "bit w (TREE_DEPTH - 1 - leading_zeros w)"
    using less unfolding leading_zeros_def by simp
  assume "TREE_DEPTH - 1 - leading_zeros w < i" "i < TREE_DEPTH"
  then have j: "TREE_DEPTH - 1 - i < leading_zeros w" "TREE_DEPTH - 1 - (TREE_DEPTH - 1 - i) = i" "TREE_DEPTH - 1 - i < TREE_DEPTH"
    by auto
  then have "takeWhile ?P ?xs ! (TREE_DEPTH - 1 - i) \<in> set (takeWhile ?P ?xs)"
    unfolding leading_zeros_def by (intro nth_mem)
  then have "?P (takeWhile ?P ?xs ! (TREE_DEPTH - 1 - i))"
    by (blast dest: set_takeWhileD)
  then show "\<not> bit w i"
    using j unfolding leading_zeros_def by (simp add: takeWhile_nth)
qed

lemma diverging_bit:
  assumes "c < e"
  defines "n \<equiv> TREE_DEPTH - (find_diverging_bit c e + 1)"
  shows "n < TREE_DEPTH" "prefix_at (Suc n) c = prefix_at (Suc n) e" "even (prefix_at n c)" "prefix_at n e = Suc (prefix_at n c)"
proof -
  let ?w = "xor c e"
  have w: "?w \<noteq> 0" using assms(1) word_xor_zero [of c e] by auto
  have n: "n = TREE_DEPTH - 1 - leading_zeros ?w"
    by (simp add: n_def find_diverging_bit_def)
  then show "n < TREE_DEPTH" by simp
  show top: "prefix_at (Suc n) c = prefix_at (Suc n) e"
  proof (rule prefix_at_eqI)
    fix i assume "Suc n \<le> i" "i < TREE_DEPTH"
    then have "\<not> bit ?w i" using leading_zeros_bit(3) [OF w] n by simp
    then show "bit c i = bit e i" by (simp add: bit_xor_iff)
  qed
  have "bit ?w n" using leading_zeros_bit(2) [OF w] n by simp
  then have "bit c n \<noteq> bit e n" by (simp add: bit_xor_iff)
  then have "odd (prefix_at n c) \<noteq> odd (prefix_at n e)" by (simp add: bit_prefix_at)
  moreover have "prefix_at n c \<le> prefix_at n e" using assms(1) by (simp add: prefix_at_le)
  ultimately show "even (prefix_at n c)" "prefix_at n e = Suc (prefix_at n c)"
    using top unfolding prefix_at_Suc by presburger+
qed

lemma collapse_fst:
  "n \<le> length contour \<Longrightarrow> fst (collapse H k n (h, contour)) =
   hash_up H k n (\<lambda>d. if bit k d then contour ! d else empty_subtree_hash H d) h"
  and collapse_snd:
  "n \<le> length contour \<Longrightarrow> snd (collapse H k n (h, contour)) = map (empty_subtree_hash H) [0..<n] @ drop n contour"
proof (induction n)
  case (Suc n)
  {
    case 1
    then show ?case using Suc by (simp add: split_beta Let_def join_adjacent_def nth_append)
  next
    case 2
    then show ?case
      using Suc by (simp add: split_beta Let_def list_update_append Cons_nth_drop_Suc [symmetric])
  }
qed simp_all

lemma range_hash_in:
  "prefix_at (Suc d) lo \<le> p \<Longrightarrow> p \<le> prefix_at (Suc d) hi \<Longrightarrow>
   range_hash H M lo hi L R (Suc d) p = hash_branch H (range_hash H M lo hi L R d (2 * p)) (range_hash H M lo hi L R d (2 * p + 1))"
  by simp

lemma range_join:
  assumes "lo \<le> k" "k \<le> hi"
  shows "join_adjacent H k d (range_hash H M lo hi L R d (adjacent_prefix (prefix_at d k))) (range_hash H M lo hi L R d (prefix_at d k)) =
    range_hash H M lo hi L R (Suc d) (prefix_at (Suc d) k)"
proof -
  have "prefix_at (Suc d) lo \<le> prefix_at (Suc d) k" "prefix_at (Suc d) k \<le> prefix_at (Suc d) hi"
    using assms by (simp_all add: prefix_at_le)
  note u = range_hash_in [OF this]
  show ?thesis
    unfolding u unfolding prefix_at_Suc
    by (cases "odd (prefix_at d k)") (auto simp: join_adjacent_def bit_prefix_at adjacent_prefix_def elim!: oddE evenE)
qed

lemma range_hash_up:
  assumes "lo \<le> k" "k \<le> hi" and "\<And>d. d < n \<Longrightarrow> f d = range_hash H M lo hi L R d (adjacent_prefix (prefix_at d k))"
  shows "hash_up H k n f (content_leaf H (M k)) = range_hash H M lo hi L R n (prefix_at n k)"
  using assms(3)
proof (induction n)
  case 0
  then show ?case using assms(1,2) by (simp add: word_le_nat_alt)
next
  case (Suc n)
  then have "hash_up H k (Suc n) f (content_leaf H (M k)) =
      join_adjacent H k n (range_hash H M lo hi L R n (adjacent_prefix (prefix_at n k))) (range_hash H M lo hi L R n (prefix_at n k))"
    by simp
  then show ?case by (simp only: range_join [OF assms(1,2)])
qed


text \<open>What holds of a digest whose last key is \<open>c\<close>.\<close>

definition digest_ok ::
  "'h HashTree \<Rightarrow> 'h content \<Rightarrow> u256 \<Rightarrow> u256 \<Rightarrow> (nat \<Rightarrow> 'h) \<Rightarrow> (nat \<Rightarrow> 'h) \<Rightarrow> u256 \<Rightarrow> 'h TreeRangeDigest \<Rightarrow> bool" where
  "digest_ok H M lo hi L R c dg \<longleftrightarrow>
     full_key (current_leaf dg) = c \<and> lo \<le> c \<and> length (left_contour dg) = TREE_DEPTH \<and>
     hash_leaf H (value_hash (current_leaf dg)) (leaf_index (current_leaf dg)) = content_leaf H (M c) \<and>
     (\<forall>d<TREE_DEPTH. bit c d \<longrightarrow> left_contour dg ! d = range_hash H M lo hi L R d (prefix_at d c - 1))"

lemma adjacent_half: "adjacent_prefix x div 2 = x div 2"
  by (auto simp: adjacent_prefix_def elim!: oddE)

lemma prefix_at_div: "d \<le> n \<Longrightarrow> prefix_at d k div 2 ^ (n - d) = prefix_at n k"
  by (simp add: prefix_at_def flip: div_mult2_eq power_add)

lemma adjacent_prefix:
  assumes "d < n"
  shows "adjacent_prefix (prefix_at d k) div 2 ^ (n - d) = prefix_at n k"
proof -
  have "n - d = Suc (n - Suc d)" using assms by simp
  then have "adjacent_prefix (prefix_at d k) div 2 ^ (n - d) = prefix_at d k div 2 ^ (n - d)"
    by (simp add: div_mult2_eq adjacent_half)
  then show ?thesis
    using assms by (simp add: prefix_at_div)
qed

lemma adjacent_between:
  assumes "prefix_at n c < prefix_at n e" "d < n"
  shows "adjacent_prefix (prefix_at d c) < prefix_at d e" "prefix_at d c < adjacent_prefix (prefix_at d e)"
  using assms adjacent_prefix [OF assms(2)] prefix_at_div [OF less_imp_le, OF assms(2)] by (metis div_le_mono not_le)+

lemma key_in_subtree:
  assumes "d \<le> TREE_DEPTH" "p < 2 ^ (TREE_DEPTH - d)"
  shows "prefix_at d (of_nat (p * 2 ^ d)) = p"
proof -
  have "p * 2 ^ d < 2 ^ (TREE_DEPTH - d) * 2 ^ d"
    using assms(2) by (rule mult_strict_right_mono) simp
  also have "\<dots> = 2 ^ TREE_DEPTH"
    using assms(1) by (simp flip: power_add)
  finally have "unat (of_nat (p * 2 ^ d) :: u256) = p * 2 ^ d"
    by (simp add: unsigned_of_nat take_bit_nat_eq_self del: of_nat_mult of_nat_power)
  then show ?thesis
    by (simp add: prefix_at_def)
qed

context hash_tree
begin

lemma range_hash_gap:
  "d \<le> TREE_DEPTH \<Longrightarrow> p < 2 ^ (TREE_DEPTH - d) \<Longrightarrow>
   (\<And>k. prefix_at d k = p \<Longrightarrow> lo \<le> k \<and> k \<le> hi \<and> M k = None) \<Longrightarrow>
   range_hash H M lo hi L R d p = empty_subtree_hash H d"
proof (induction d arbitrary: p)
  case 0
  then have "unat (of_nat p :: u256) = p"
    by (simp add: unsigned_of_nat take_bit_nat_eq_self)
  then show ?case
    using 0(3) [of "of_nat p"] by (simp add: content_leaf_def empty_leaf word_le_nat_alt)
next
  case (Suc d)
  let ?k = "of_nat (p * 2 ^ Suc d) :: u256"
  have "prefix_at (Suc d) ?k = p"
    using Suc.prems by (intro key_in_subtree)
  with Suc.prems(3) [OF this] have "prefix_at (Suc d) lo \<le> p" "p \<le> prefix_at (Suc d) hi"
    by (metis prefix_at_le)+
  moreover have "range_hash H M lo hi L R d q = empty_subtree_hash H d" if "q div 2 = p" for q
  proof (rule Suc.IH)
    show "d \<le> TREE_DEPTH" using Suc.prems by simp
    have "TREE_DEPTH - d = Suc (TREE_DEPTH - Suc d)" using Suc.prems(1) by simp
    then show "q < 2 ^ (TREE_DEPTH - d)"
      using Suc.prems(2) that by (simp del: TREE_DEPTH_eq)
    show "lo \<le> k \<and> k \<le> hi \<and> M k = None" if "prefix_at d k = q" for k
      using Suc.prems(3) [of k] that \<open>q div 2 = p\<close> by (simp add: prefix_at_Suc)
  qed
  ultimately show ?case
    using Suc.prems(1) by (simp add: range_hash_in empty_branch del: range_hash.simps)
qed

text \<open>A subtree strictly between two adjacent keys of the range is empty.\<close>

lemma range_hash_between:
  assumes "prefix_at d c < p" "p < prefix_at d e" "d \<le> TREE_DEPTH" "lo \<le> c" "e \<le> hi"
    and gap: "\<And>k. c < k \<Longrightarrow> k < e \<Longrightarrow> M k = None"
  shows "range_hash H M lo hi L R d p = empty_subtree_hash H d"
proof (rule range_hash_gap)
  show "p < 2 ^ (TREE_DEPTH - d)"
    using assms(2) prefix_at_less [OF assms(3), of e] by linarith
  show "lo \<le> k \<and> k \<le> hi \<and> M k = None" if "prefix_at d k = p" for k
  proof -
    have "c < k" "k < e"
      using that assms(1,2) prefix_at_le [of k c d] prefix_at_le [of e k d] by (auto simp flip: not_le)
    then show ?thesis
      using assms(4,5) gap by (auto intro: order.trans less_imp_le)
  qed
qed (rule assms(3))

lemma digest_update_ok:
  assumes ok: "digest_ok H M lo hi L R c dg" and "c < te_key e" "te_key e \<le> hi"
    and gap: "\<And>k. c < k \<Longrightarrow> k < te_key e \<Longrightarrow> M k = None"
    and leaf: "hash_leaf H (te_value e) (te_leaf_index e) = content_leaf H (M (te_key e))"
  obtains dg' where "digest_update H e dg = Some dg'" "digest_ok H M lo hi L R (te_key e) dg'"
proof -
  let ?e = "te_key e" and ?r = "range_hash H M lo hi L R" and ?C = "left_contour dg"
  define n where "n = TREE_DEPTH - (find_diverging_bit c ?e + 1)"
  note div = diverging_bit [OF assms(2), folded n_def]
  define leaf_h where "leaf_h = hash_leaf H (value_hash (current_leaf dg)) (leaf_index (current_leaf dg))"
  define dg' where "dg' = \<lparr>current_leaf = LeafNode_new e,
    left_contour = (snd (collapse H c n (leaf_h, ?C)))[n := fst (collapse H c n (leaf_h, ?C))]\<rparr>"
  have len: "length ?C = TREE_DEPTH" and lo: "lo \<le> c" and c: "full_key (current_leaf dg) = c"
    and leaf_c: "leaf_h = content_leaf H (M c)"
    using ok by (simp_all add: digest_ok_def leaf_h_def)
  have lt: "prefix_at n c < prefix_at n ?e" using div by simp
  have empty: "?r d p = empty_subtree_hash H d" if "prefix_at d c < p" "p < prefix_at d ?e" "d < n" for d p
    using that div(1) lo assms(3) gap by (intro range_hash_between) auto
  have hash: "fst (collapse H c n (leaf_h, ?C)) = ?r n (prefix_at n c)"
    unfolding leaf_c collapse_fst [OF less_imp_le, OF div(1) [folded len]]
  proof (rule range_hash_up)
    fix d
    assume d: "d < n"
    show "(if bit c d then ?C ! d else empty_subtree_hash H d) = ?r d (adjacent_prefix (prefix_at d c))"
      using ok d div(1) empty [of d "adjacent_prefix (prefix_at d c)"] adjacent_between(1) [OF lt d]
      by (auto simp: digest_ok_def bit_prefix_at adjacent_prefix_def)
  qed (use lo assms(2,3) in auto)
  have "digest_update H e dg = Some dg'"
    using assms(2) by (simp add: digest_update_def c dg'_def n_def leaf_h_def Let_def split_beta)
  moreover have "left_contour dg' ! d = ?r d (prefix_at d ?e - 1)" if "d < TREE_DEPTH" "bit ?e d" for d
  proof -
    have C: "left_contour dg' = (map (empty_subtree_hash H) [0..<n] @ drop n ?C)[n := ?r n (prefix_at n c)]"
      using div(1) len by (simp add: dg'_def hash collapse_snd)
    consider "d < n" | "d = n" | "n < d" by linarith
    then show ?thesis
    proof cases
      case 1
      then show ?thesis
        using that empty [of d "adjacent_prefix (prefix_at d ?e)"] adjacent_between(2) [OF lt 1]
        by (simp add: C nth_append bit_prefix_at adjacent_prefix_def odd_pos)
    next
      case 2
      then show ?thesis using div len by (simp add: C)
    next
      case 3
      then have same: "prefix_at d c = prefix_at d ?e"
        using div(2) by (auto intro: prefix_at_mono_eq)
      then show ?thesis
        using ok that 3 len by (simp add: C nth_append digest_ok_def bit_prefix_at)
    qed
  qed
  then have "digest_ok H M lo hi L R ?e dg'"
    using lo assms(2) leaf len div(1) by (simp add: digest_ok_def dg'_def LeafNode_new_def collapse_snd)
  ultimately show thesis by (rule that)
qed

lemma digest_updates_ok:
  assumes "digest_ok H M lo hi L R c dg" and "sorted_wrt (<) (c # map te_key es)" and "\<forall>e\<in>set es. te_key e \<le> hi"
    and "\<And>k. c < k \<Longrightarrow> k \<le> last (c # map te_key es) \<Longrightarrow> k \<notin> te_key ` set es \<Longrightarrow> M k = None"
    and "\<And>e. e \<in> set es \<Longrightarrow> hash_leaf H (te_value e) (te_leaf_index e) = content_leaf H (M (te_key e))"
  shows "\<exists>dg'. digest_updates H es dg = Some dg' \<and> digest_ok H M lo hi L R (last (c # map te_key es)) dg'"
  using assms
proof (induction es arbitrary: c dg)
  case (Cons e es)
  have le: "te_key e \<le> last (te_key e # map te_key es)"
    using Cons.prems(2) by (cases es rule: rev_cases) (auto simp: sorted_wrt_append intro: less_imp_le)
  obtain dg' where dg': "digest_update H e dg = Some dg'" "digest_ok H M lo hi L R (te_key e) dg'"
  proof (rule digest_update_ok [OF Cons.prems(1), of e])
    show "M k = None" if "c < k" "k < te_key e" for k
    proof (rule Cons.prems(4))
      show "k \<notin> te_key ` set (e # es)" using that Cons.prems(2) by auto
      show "k \<le> last (c # map te_key (e # es))" using that(2) le by simp
    qed (rule that(1))
  qed (use Cons.prems in auto)
  have "\<exists>dg''. digest_updates H es dg' = Some dg'' \<and> digest_ok H M lo hi L R (last (te_key e # map te_key es)) dg''"
  proof (rule Cons.IH [OF dg'(2)])
    show "M k = None" if "te_key e < k" "k \<le> last (te_key e # map te_key es)" "k \<notin> te_key ` set es" for k
      using Cons.prems(2) that by (intro Cons.prems(4)) auto
  qed (use Cons.prems in auto)
  then show ?case using dg'(1) by simp
qed simp

lemma digest_new_ok:
  assumes "extend_merkle_path H (merkle_path s) = Some full"
    and "hash_leaf H (te_value (base_entry s)) (te_leaf_index (base_entry s)) = content_leaf H (M (te_key (base_entry s)))"
  obtains dg where "digest_new H (te_key (base_entry s)) s = Some dg"
    "digest_ok H M (te_key (base_entry s)) hi (nth full) R (te_key (base_entry s)) dg"
proof -
  let ?k = "te_key (base_entry s)"
  define dg where "dg = \<lparr>current_leaf = LeafNode_new (base_entry s),
    left_contour = map (\<lambda>(depth, adjacent_hash). if bit ?k depth then adjacent_hash else empty_subtree_hash H depth) (enumerate 0 full)\<rparr>"
  have "range_hash H M ?k hi (nth full) R d (prefix_at d ?k - 1) = full ! d" if "bit ?k d" for d
    using that by (cases d) (auto simp: bit_prefix_at odd_pos)
  then have "digest_ok H M ?k hi (nth full) R ?k dg"
    using assms(2) length_extend [OF assms(1)] by (simp add: digest_ok_def dg_def LeafNode_new_def nth_enumerate_eq)
  moreover have "digest_new H ?k s = Some dg"
    by (simp add: digest_new_def assms(1) dg_def)
  ultimately show thesis by (rule that [rotated])
qed

lemma digest_finalize_ok:
  assumes "digest_ok H M lo (te_key (base_entry f)) L (nth full) c dg" and "c < te_key (base_entry f)"
    and "extend_merkle_path H (merkle_path f) = Some full"
    and "\<And>k. c < k \<Longrightarrow> k < te_key (base_entry f) \<Longrightarrow> M k = None"
    and "hash_leaf H (te_value (base_entry f)) (te_leaf_index (base_entry f)) = content_leaf H (M (te_key (base_entry f)))"
  shows "digest_finalize H f dg = Some (range_hash H M lo (te_key (base_entry f)) L (nth full) TREE_DEPTH 0)"
proof -
  let ?k = "te_key (base_entry f)"
  obtain dg' where dg': "digest_update H (base_entry f) dg = Some dg'" "digest_ok H M lo ?k L (nth full) ?k dg'"
    using digest_update_ok [OF assms(1,2) order_refl assms(4,5)] by blast
  have "range_hash H M lo ?k L (nth full) d (Suc (prefix_at d ?k)) = full ! d" if "lo \<le> ?k" for d
    using prefix_at_le [OF that, of d] by (cases d) auto
  then have "hash_up H ?k 256 (\<lambda>d. if bit ?k d then left_contour dg' ! d else full ! d) (content_leaf H (M ?k)) =
      range_hash H M lo ?k L (nth full) 256 (prefix_at 256 ?k)"
    using dg'(2) by (intro range_hash_up) (auto simp: digest_ok_def bit_prefix_at adjacent_prefix_def)
  then show ?thesis
    using length_extend [OF assms(3)] by (simp add: digest_finalize_def dg'(1) assms(3,5))
qed

end

text \<open>The content that a list of entries describes.\<close>

definition content_of :: "'h TreeEntry list \<Rightarrow> 'h content" where
  "content_of es = map_of (map (\<lambda>e. (te_key e, te_value e, te_leaf_index e)) es)"

definition range_entries :: "'h TreeEntryWithProof \<Rightarrow> 'h TreeEntry list \<Rightarrow> 'h TreeEntryWithProof \<Rightarrow> 'h TreeEntry list" where
  "range_entries s es f = base_entry s # es @ [base_entry f]"

lemma content_of_none: "k \<notin> te_key ` set es \<Longrightarrow> content_of es k = None"
  by (force simp: content_of_def map_of_eq_None_iff)

lemma content_of_leaf:
  assumes "sorted_wrt (<) (map te_key es)" "e \<in> set es"
  shows "hash_leaf H (te_value e) (te_leaf_index e) = content_leaf H (content_of es (te_key e))"
proof -
  have "distinct (map te_key es)"
    using assms(1) by (simp add: strict_sorted_iff)
  then have "content_of es (te_key e) = Some (te_value e, te_leaf_index e)"
    using assms(2) unfolding content_of_def by (intro map_of_is_SomeI) (auto simp: comp_def)
  then show ?thesis by (simp add: content_leaf_def)
qed

context hash_tree
begin

lemma range_root_value:
  assumes sorted: "sorted_wrt (<) (map te_key (range_entries s es f))"
    and s: "extend_merkle_path H (merkle_path s) = Some full_s" and f: "extend_merkle_path H (merkle_path f) = Some full_f"
  shows "range_root H s es f = Some (range_hash H (content_of (range_entries s es f)) (te_key (base_entry s))
    (te_key (base_entry f)) (nth full_s) (nth full_f) TREE_DEPTH 0)"
proof -
  let ?M = "content_of (range_entries s es f)" and ?lo = "te_key (base_entry s)" and ?hi = "te_key (base_entry f)"
  let ?c = "last (?lo # map te_key es)"
  have leaf: "hash_leaf H (te_value e) (te_leaf_index e) = content_leaf H (?M (te_key e))"
    if "e \<in> set (range_entries s es f)" for e
    using sorted that by (rule content_of_leaf)
  have lt: "?c < ?hi" and keys: "\<forall>e\<in>set es. te_key e \<le> ?hi"
    using sorted by (cases es rule: rev_cases; auto simp: range_entries_def sorted_wrt_append intro: less_imp_le)+
  have max: "k \<le> ?c" if "k \<in> te_key ` set es" for k
    using sorted that by (cases es rule: rev_cases) (auto simp: range_entries_def sorted_wrt_append intro: less_imp_le)
  have "?lo \<le> ?c"
    using sorted by (cases es rule: rev_cases) (auto simp: range_entries_def sorted_wrt_append intro: less_imp_le)
  obtain dg where dg: "digest_new H ?lo s = Some dg" "digest_ok H ?M ?lo ?hi (nth full_s) (nth full_f) ?lo dg"
    using digest_new_ok [OF s, where M = ?M and hi = ?hi and R = "nth full_f"] leaf [of "base_entry s"]
    by (auto simp: range_entries_def)
  obtain dg' where dg': "digest_updates H es dg = Some dg'" "digest_ok H ?M ?lo ?hi (nth full_s) (nth full_f) ?c dg'"
  proof -
    have "\<exists>dg'. digest_updates H es dg = Some dg' \<and> digest_ok H ?M ?lo ?hi (nth full_s) (nth full_f) ?c dg'"
    proof (rule digest_updates_ok [OF dg(2)])
      show "?M k = None" if "?lo < k" "k \<le> ?c" "k \<notin> te_key ` set es" for k
        using that lt by (intro content_of_none) (auto simp: range_entries_def)
    qed (use sorted keys leaf in \<open>auto simp: range_entries_def sorted_wrt_append\<close>)
    then show thesis using that by blast
  qed
  have "digest_finalize H f dg' = Some (range_hash H ?M ?lo ?hi (nth full_s) (nth full_f) TREE_DEPTH 0)"
  proof (rule digest_finalize_ok [OF dg'(2) lt f])
    show "?M k = None" if "?c < k" "k < ?hi" for k
      using that max [of k] \<open>?lo \<le> ?c\<close> by (intro content_of_none) (auto simp: range_entries_def simp del: last.simps)
  qed (use leaf in \<open>simp add: range_entries_def\<close>)
  then show ?thesis
    by (simp add: range_root_def dg(1) dg'(1))
qed

end

text \<open>With the paths of a tree, and its entries in the range, the described tree is that tree.\<close>

lemma range_hash_complete:
  assumes "\<And>k. lo \<le> k \<Longrightarrow> k \<le> hi \<Longrightarrow> content_leaf H (M k) = content_leaf H (M' k)"
    and "\<And>d. d < n \<Longrightarrow> L d = tree_hash H M' d (adjacent_prefix (prefix_at d lo))"
    and "\<And>d. d < n \<Longrightarrow> R d = tree_hash H M' d (adjacent_prefix (prefix_at d hi))"
    and "prefix_at n lo \<le> p" "p \<le> prefix_at n hi"
  shows "range_hash H M lo hi L R n p = tree_hash H M' n p"
  using assms(2-)
proof (induction n arbitrary: p)
  case 0
  have "unat hi < 2 ^ 256"
    using unsigned_less [of hi, where ?'a = nat] by simp
  then have "unat (of_nat p :: u256) = p"
    using 0 by (simp add: unsigned_of_nat take_bit_nat_eq_self)
  then show ?case
    using 0 assms(1) [of "of_nat p"] by (simp add: word_le_nat_alt)
next
  case (Suc n)
  have "range_hash H M lo hi L R n q = tree_hash H M' n q" if q: "q div 2 = p" for q
  proof -
    have parents: "prefix_at n lo div 2 \<le> q div 2" "q div 2 \<le> prefix_at n hi div 2"
      using Suc.prems q by (simp_all add: prefix_at_Suc)
    consider "prefix_at n lo \<le> q" "q \<le> prefix_at n hi" | "q < prefix_at n lo" | "prefix_at n hi < q" "\<not> q < prefix_at n lo"
      by linarith
    then show ?thesis
    proof cases
      case 1
      then show ?thesis using Suc by simp
    next
      case 2
      then have "adjacent_prefix (prefix_at n lo) = q"
        using parents(1) by (auto simp: adjacent_prefix_def elim!: oddE)
      then show ?thesis using 2 Suc.prems(1) [of n] by (cases n) auto
    next
      case 3
      then have "adjacent_prefix (prefix_at n hi) = q"
        using parents(2) by (auto simp: adjacent_prefix_def elim!: oddE evenE)
      then show ?thesis using 3 Suc.prems(2) [of n] by (cases n) auto
    qed
  qed
  from this [of "2 * p"] this [of "2 * p + 1"] show ?case
    using Suc.prems by simp
qed

lemma range_root_complete:
  assumes "hash_tree H" and "sorted_wrt (<) (map te_key (range_entries s es f))"
    and "\<And>k. te_key (base_entry s) \<le> k \<Longrightarrow> k \<le> te_key (base_entry f) \<Longrightarrow>
      entry_at H M k = entry_at H (content_of (range_entries s es f)) k"
    and "skippable H M (te_key (base_entry s)) m" and "merkle_path s = compact_path H M (te_key (base_entry s)) m"
    and "skippable H M (te_key (base_entry f)) n" and "merkle_path f = compact_path H M (te_key (base_entry f)) n"
  shows "range_root H s es f = Some (root_of H M)"
proof -
  let ?M = "content_of (range_entries s es f)" and ?lo = "te_key (base_entry s)" and ?hi = "te_key (base_entry f)"
  have "content_leaf H (?M k) = content_leaf H (M k)" if "?lo \<le> k" "k \<le> ?hi" for k
    using assms(3) [OF that] leaf_hash_entry [of H M k] leaf_hash_entry [of H ?M k] by simp
  then have "range_hash H ?M ?lo ?hi (nth (tree_path H M ?lo)) (nth (tree_path H M ?hi)) 256 0 = tree_hash H M 256 0"
    by (rule range_hash_complete) (simp_all add: tree_path_def)
  then show ?thesis
    using hash_tree.range_root_value [OF assms(1,2)] extend_compact [OF assms(4)] extend_compact [OF assms(6)]
    by (simp add: assms(5,7) root_of_def)
qed

section \<open>The claims\<close>

text \<open>A hasher that builds terms, for which distinct inputs always have distinct hashes.\<close>

datatype free_hash = ZeroHash | LeafHash free_hash u64 | BranchHash free_hash free_hash

fun empty_free :: "nat \<Rightarrow> free_hash" where
  "empty_free 0 = LeafHash ZeroHash 0"
| "empty_free (Suc d) = BranchHash (empty_free d) (empty_free d)"

definition free_hasher :: "free_hash HashTree" where
  "free_hasher = \<lparr>hash_name = ''free'', hash_leaf = LeafHash, hash_branch = BranchHash, empty_subtree_hash = empty_free, hash_zero = ZeroHash\<rparr>"

interpretation free_hasher: hash_tree free_hasher
  by unfold_locales (simp_all add: free_hasher_def)

lemma inj_free_hasher: "inj_on (hash_input free_hasher) S"
proof (rule inj_onI)
  fix x y
  assume "hash_input free_hasher x = hash_input free_hasher y"
  then show "x = y" by (cases x; cases y) (simp_all add: free_hasher_def)
qed

text \<open>
  C26. An accepted proof shows what the tree contains: if \<open>TreeEntryWithProof::verify\<close> succeeds against the root hash
  of a tree, and no two of the inputs hashed in the tree and in the proof have the same hash, the entry is the
  one that the tree has under its key (the empty entry if it has none).
\<close>
theorem entry_proof_sound:
  assumes "verify_entry H e (root_of H M) = Some (Inr ())"
    and "inj_on (hash_input H) (tree_inputs H M \<union> fold_inputs H (merkle_path e) (base_entry e))"
  shows "base_entry e = entry_at H M (te_key (base_entry e))"
proof -
  have fold: "fold_merkle_path H (merkle_path e) (base_entry e) = Some (root_of H M)"
    using assms(1) by (auto simp: verify_entry_def split: if_splits)
  then obtain full where "extend_merkle_path H (merkle_path e) = Some full"
    by (auto simp: fold_merkle_path_def)
  then show ?thesis
    using path_binding [OF assms(2) fold] leaf_input_entry by blast
qed

text \<open>The entries of an example tree with two keys.\<close>

definition sample_entry :: "u256 \<Rightarrow> u64 \<Rightarrow> free_hash TreeEntry" where
  "sample_entry k i = \<lparr>te_key = k, te_value = LeafHash ZeroHash 7, te_leaf_index = i\<rparr>"

definition sample_tree :: "free_hash content" where
  "sample_tree = [5 \<mapsto> (LeafHash ZeroHash 7, 1), 12 \<mapsto> (LeafHash ZeroHash 7, 2)]"

definition sample_proof :: "u256 \<Rightarrow> u64 \<Rightarrow> free_hash TreeEntryWithProof" where
  "sample_proof k i = \<lparr>base_entry = sample_entry k i, merkle_path = tree_path free_hasher sample_tree k\<rparr>"

lemma extend_tree_path: "extend_merkle_path H (tree_path H M k) = Some (tree_path H M k)"
  by (simp add: extend_merkle_path_def tree_path_def)

lemma sample_entry_at:
  "entry_at free_hasher sample_tree 5 = sample_entry 5 1" "entry_at free_hasher sample_tree 12 = sample_entry 12 2"
  by (simp_all add: entry_at_def sample_tree_def sample_entry_def)

lemma fold_entry_at: "fold_merkle_path H (tree_path H M k) (entry_at H M k) = Some (root_of H M)"
  using fold_tree_path [of H "tree_path H M k" M "entry_at H M k"] by (simp add: extend_tree_path root_of_entry_at)

theorem entry_proof_sound_witness:
  "verify_entry free_hasher (sample_proof 12 2) (root_of free_hasher sample_tree) = Some (Inr ()) \<and>
   sample_entry 12 2 = entry_at free_hasher sample_tree 12"
proof -
  have "verify_entry free_hasher (sample_proof 12 2) (root_of free_hasher sample_tree) = Some (Inr ())"
    using fold_entry_at [of free_hasher sample_tree 12]
    by (simp add: verify_entry_def sample_proof_def sample_entry_at) (simp add: sample_entry_def)
  then show ?thesis
    using entry_proof_sound [of free_hasher "sample_proof 12 2" sample_tree, OF _ inj_free_hasher]
    by (simp add: sample_proof_def) (simp add: sample_entry_def)
qed

text \<open>
  A valid proof is accepted: the entry of a tree under a key, with the adjacent hashes on the way to the root of
  which any number of hashes of empty subtrees at the start may be left out, passes
  \<open>TreeEntryWithProof::verify\<close> against the root hash, provided that the tree does not map the key to a
  non-zero value with leaf index 0.
\<close>
theorem entry_proof_complete:
  assumes "skippable H M k n" and "te_leaf_index (entry_at H M k) = 0 \<longrightarrow> te_value (entry_at H M k) = hash_zero H"
  shows "verify_entry H \<lparr>base_entry = entry_at H M k, merkle_path = compact_path H M k n\<rparr> (root_of H M) = Some (Inr ())"
  using assms fold_tree_path [of H "compact_path H M k n" M "entry_at H M k"] extend_compact [OF assms(1)]
  by (simp add: verify_entry_def root_of_entry_at)

theorem entry_proof_complete_witness:
  "verify_entry free_hasher \<lparr>base_entry = sample_entry 5 1, merkle_path = compact_path free_hasher sample_tree 5 1\<rparr>
     (root_of free_hasher sample_tree) = Some (Inr ())"
proof -
  have "skippable free_hasher sample_tree 5 1"
    by (simp add: skippable_def adjacent_prefix_def sample_tree_def content_leaf_def free_hasher_def)
  then show ?thesis
    using entry_proof_complete [of free_hasher sample_tree 5 1] by (simp add: sample_entry_at) (simp add: sample_entry_def)
qed

text \<open>
  C25. Accepted block outputs are right: if \<open>BlockOutputWithProofs::verify_proofs\<close> accepts the logs of a list of
  instructions against the root hash of a tree, and no two of the inputs hashed have the same hash, then every
  log reports the entry its key had before its instruction, and the root hash after it.
\<close>
theorem block_proofs_sound:
  assumes "verify_proofs H (root_of H M) logs instructions"
    and "inj_on (hash_input H) (run_inputs H M logs instructions)" and "i < length logs"
  shows "prev_entry H (instruction_key (instructions ! i)) (log_base (logs ! i)) =
      entry_at H (foldl exec_instruction M (take i instructions)) (instruction_key (instructions ! i)) \<and>
    log_root_hash (logs ! i) = root_of H (foldl exec_instruction M (take (Suc i) instructions))"
  using assms by (intro verify_logs_sound) (auto simp: verify_proofs_def)

text \<open>An example block: an update of a key, then a read of it.\<close>

definition sample_logs :: "free_hash TreeLogEntryWithProof list" where
  "sample_logs =
     (let M' = sample_tree(5 \<mapsto> (ZeroHash, 1)); root = root_of free_hasher M'
      in [\<lparr>log_base = Updated 1 (LeafHash ZeroHash 7), log_path = tree_path free_hasher sample_tree 5, log_root_hash = root\<rparr>,
          \<lparr>log_base = ReadLog 1 ZeroHash, log_path = tree_path free_hasher M' 5, log_root_hash = root\<rparr>])"

definition sample_block :: "free_hash TreeInstruction list" where
  "sample_block = [Write \<lparr>te_key = 5, te_value = ZeroHash, te_leaf_index = 1\<rparr>, Read 5]"

lemma sample_block_verified: "verify_proofs free_hasher (root_of free_hasher sample_tree) sample_logs sample_block"
proof -
  let ?e = "\<lparr>te_key = 5, te_value = ZeroHash, te_leaf_index = 1\<rparr>" and ?M' = "sample_tree(5 \<mapsto> (ZeroHash, 1))"
  have "fold_merkle_path free_hasher (tree_path free_hasher sample_tree 5) (sample_entry 5 1) = Some (root_of free_hasher sample_tree)"
    using fold_entry_at [of free_hasher sample_tree 5] by (simp add: sample_entry_at)
  moreover have "fold_merkle_path free_hasher (tree_path free_hasher sample_tree 5) ?e = Some (root_of free_hasher ?M')"
    using fold_tree_path [of free_hasher "tree_path free_hasher sample_tree 5" sample_tree ?e] by (simp add: extend_tree_path)
  moreover have "fold_merkle_path free_hasher (tree_path free_hasher ?M' 5) ?e = Some (root_of free_hasher ?M')"
    using fold_entry_at [of free_hasher ?M' 5] by (simp add: entry_at_def)
  ultimately show ?thesis
    by (simp add: verify_proofs_def sample_logs_def sample_block_def verify_log_def Let_def sample_entry_def)
      (simp add: tree_path_def)
qed

theorem block_proofs_sound_witness:
  "verify_proofs free_hasher (root_of free_hasher sample_tree) sample_logs sample_block \<and>
   log_root_hash (sample_logs ! 1) = root_of free_hasher (sample_tree(5 \<mapsto> (ZeroHash, 1)))"
  using sample_block_verified block_proofs_sound [OF sample_block_verified inj_free_hasher, of 1]
  by (simp add: sample_logs_def sample_block_def Let_def)

text \<open>
  C23. Range proofs are sound: if a \<open>TreeRangeDigest\<close> over a start entry, the entries in between and a final entry
  returns the root hash of a tree, and no two of the inputs hashed have the same hash, then between the start and the
  final key the tree has exactly the given entries: every key of the range has the entry listed for it,
  and the empty entry if none is listed.
\<close>
theorem range_proof_sound:
  assumes "hash_tree H" and "range_root H s es f = Some (root_of H M)"
    and "sorted_wrt (<) (map te_key (range_entries s es f))"
    and "extend_merkle_path H (merkle_path s) = Some full_s" and "extend_merkle_path H (merkle_path f) = Some full_f"
    and "inj_on (hash_input H) (tree_inputs H M \<union> range_inputs H (content_of (range_entries s es f))
      (te_key (base_entry s)) (te_key (base_entry f)) (nth full_s) (nth full_f))"
    and "te_key (base_entry s) \<le> k" and "k \<le> te_key (base_entry f)"
  shows "entry_at H M k = entry_at H (content_of (range_entries s es f)) k"
proof -
  let ?M = "content_of (range_entries s es f)"
  have "range_hash H ?M (te_key (base_entry s)) (te_key (base_entry f)) (nth full_s) (nth full_f) 256 (prefix_at 256 k) =
      tree_hash H M 256 (prefix_at 256 k)"
    using hash_tree.range_root_value [OF assms(1,3-5)] assms(2) by (simp add: root_of_def)
  then have "leaf_input H (?M k) = leaf_input H (M k)"
    by (rule range_hash_binding [OF assms(6) _ assms(7,8)]) simp
  then show ?thesis
    by (auto simp: leaf_input_def entry_at_def empty_entry_def split: option.splits)
qed

text \<open>
  C24. Range proofs are complete: with the Merkle paths of a tree for the start and the final key (hashes of empty
  subtrees at their starts left out or not), and exactly its entries between them in increasing order, a
  \<open>TreeRangeDigest\<close> returns the root hash of the tree.
\<close>
theorem range_proof_complete:
  assumes "hash_tree H" and "sorted_wrt (<) (map te_key (range_entries s es f))"
    and "\<And>k. te_key (base_entry s) \<le> k \<Longrightarrow> k \<le> te_key (base_entry f) \<Longrightarrow>
      entry_at H M k = entry_at H (content_of (range_entries s es f)) k"
    and "skippable H M (te_key (base_entry s)) m" and "merkle_path s = compact_path H M (te_key (base_entry s)) m"
    and "skippable H M (te_key (base_entry f)) n" and "merkle_path f = compact_path H M (te_key (base_entry f)) n"
  shows "range_root H s es f = Some (root_of H M)"
  using assms by (rule range_root_complete)

text \<open>The whole example tree as a range, from the missing key 3 to the key 12.\<close>

definition sample_start :: "free_hash TreeEntryWithProof" where
  "sample_start = \<lparr>base_entry = empty_entry free_hasher 3, merkle_path = tree_path free_hasher sample_tree 3\<rparr>"

lemma sample_range_sorted: "sorted_wrt (<) (map te_key (range_entries sample_start [sample_entry 5 1] (sample_proof 12 2)))"
  by (simp add: range_entries_def sample_start_def sample_entry_def sample_proof_def empty_entry_def)

lemma sample_range_content:
  "entry_at free_hasher sample_tree k =
   entry_at free_hasher (content_of (range_entries sample_start [sample_entry 5 1] (sample_proof 12 2))) k"
  by (simp add: entry_at_def sample_tree_def content_of_def range_entries_def sample_start_def sample_entry_def
      sample_proof_def empty_entry_def)

lemma compact_path_0: "compact_path H M k 0 = tree_path H M k"
  by (simp add: compact_path_def)

theorem range_proof_complete_witness:
  "range_root free_hasher sample_start [sample_entry 5 1] (sample_proof 12 2) = Some (root_of free_hasher sample_tree)"
  by (rule range_proof_complete [OF free_hasher.hash_tree_axioms sample_range_sorted sample_range_content, where m = 0 and n = 0])
    (simp_all add: skippable_def compact_path_0 sample_start_def sample_proof_def sample_entry_def empty_entry_def)

lemma sample_range_root:
  "range_root free_hasher sample_start [sample_entry 5 1] (sample_proof 12 2) = Some (root_of free_hasher sample_tree)"
  by (rule range_root_complete [OF free_hasher.hash_tree_axioms sample_range_sorted sample_range_content, where m = 0 and n = 0])
    (simp_all add: skippable_def compact_path_0 sample_start_def sample_proof_def sample_entry_def empty_entry_def)

lemma sample_range_paths:
  "extend_merkle_path free_hasher (merkle_path sample_start) = Some (tree_path free_hasher sample_tree 3)"
  "extend_merkle_path free_hasher (merkle_path (sample_proof 12 2)) = Some (tree_path free_hasher sample_tree 12)"
  by (simp_all add: sample_start_def sample_proof_def extend_tree_path)

theorem range_proof_sound_witness:
  "range_root free_hasher sample_start [sample_entry 5 1] (sample_proof 12 2) = Some (root_of free_hasher sample_tree) \<and>
   entry_at free_hasher sample_tree 7 = empty_entry free_hasher 7"
  using sample_range_root
    range_proof_sound [OF free_hasher.hash_tree_axioms sample_range_root sample_range_sorted sample_range_paths inj_free_hasher, of 7]
  by (simp add: sample_start_def sample_proof_def sample_entry_def empty_entry_def range_entries_def content_of_def entry_at_def)

end
