(* ===== verification/Mempool.thy ===== *)
theory Mempool
  imports Prelude
begin

text \<open>
  The mempool of the sequencer: \<^verbatim>\<open>core/lib/mempool/src/types.rs\<close> (the transactions of an account,
  scores, filters) and \<^verbatim>\<open>core/lib/mempool/src/mempool_store.rs\<close> (the store). The parts of a
  transaction that the mempool moves around and never reads are its payload, of type \<open>'x\<close>; the
  \<open>fee_input\<close> field of the filter, which no operation reads, is left out. A counter of objects in
  memory (\<open>size\<close>, \<open>capacity\<close>) is a natural number.
\<close>

section \<open>Transactions\<close>

record Fee =
  gas_limit :: u256
  max_fee_per_gas :: u256
  max_priority_fee_per_gas :: u256
  gas_per_pubdata_limit :: u256

record 'x L2Tx =
  initiator_account :: address
  tx_nonce :: u32
  tx_fee :: Fee
  received_timestamp_ms :: u64
  l2_payload :: 'x

record 'x L1Tx =
  serial_id :: u64
  l1_payload :: 'x

datatype 'x Transaction = TxL1 "'x L1Tx" | TxL2 "'x L2Tx" | TxProtocolUpgrade 'x

section \<open>Scores\<close>

record MempoolScore =
  ms_account :: address
  received_at_ms :: u64
  fee_data :: Fee

record L2TxFilter =
  fee_per_gas :: u64
  gas_per_pubdata :: u32

definition matches_filter :: "L2TxFilter \<Rightarrow> MempoolScore \<Rightarrow> bool" where
  "matches_filter flt s \<longleftrightarrow>
     max_fee_per_gas (fee_data s) \<ge> ucast (fee_per_gas flt) \<and>
     gas_per_pubdata_limit (fee_data s) \<ge> ucast (gas_per_pubdata flt)"

text \<open>
  \<open>Ord for MempoolScore\<close> compares the reception time, reversed, and then the account. It does not
  look at the fee, so it is a linear order of the following key and not of the score.
\<close>

datatype score_key = ScoreKey (sk_received: u64) (sk_account: address)

definition score_before :: "score_key \<Rightarrow> score_key \<Rightarrow> bool" where
  "score_before a b \<longleftrightarrow>
     sk_received b < sk_received a \<or> (sk_received a = sk_received b \<and> sk_account a < sk_account b)"

instantiation score_key :: linorder
begin

definition less_score_key :: "score_key \<Rightarrow> score_key \<Rightarrow> bool" where
  "less_score_key a b \<longleftrightarrow> score_before a b"

definition less_eq_score_key :: "score_key \<Rightarrow> score_key \<Rightarrow> bool" where
  "less_eq_score_key a b \<longleftrightarrow> a < b \<or> a = (b :: score_key)"

instance
  by standard
     (auto simp: less_score_key_def score_before_def less_eq_score_key_def intro: score_key.expand
       dest: order.strict_trans not_less_iff_gr_or_eq [THEN iffD1])

end

definition score_key_of :: "MempoolScore \<Rightarrow> score_key" where
  "score_key_of s = ScoreKey (received_at_ms s) (ms_account s)"

section \<open>The ordered set of scores\<close>

text \<open>
  \<open>BTreeSet<MempoolScore>\<close> is the list of its elements in ascending order. It identifies elements
  the order cannot tell apart: \<open>insert\<close> keeps the element that is there, \<open>remove\<close> removes it.
\<close>

type_synonym score_set = "MempoolScore list"

definition set_insert :: "MempoolScore \<Rightarrow> score_set \<Rightarrow> score_set" where
  "set_insert s q =
     (if list_ex (\<lambda>t. score_key_of t = score_key_of s) q then q else insort_key score_key_of s q)"

definition set_remove :: "MempoolScore \<Rightarrow> score_set \<Rightarrow> score_set" where
  "set_remove s q = filter (\<lambda>t. score_key_of t \<noteq> score_key_of s) q"

definition set_rfind :: "(MempoolScore \<Rightarrow> bool) \<Rightarrow> score_set \<Rightarrow> MempoolScore option" where
  "set_rfind P q = List.find P (rev q)"

definition set_split_off :: "MempoolScore \<Rightarrow> score_set \<Rightarrow> score_set \<times> score_set" where
  "set_split_off s q =
     (filter (\<lambda>t. score_key_of t < score_key_of s) q,
      filter (\<lambda>t. score_key_of s \<le> score_key_of t) q)"

section \<open>The transactions of one account\<close>

record 'x AccountTransactions =
  at_transactions :: "(u32 \<times> 'x L2Tx) list"
  at_nonce :: u32

record InsertionMetadata =
  new_score :: "MempoolScore option"
  previous_score :: "MempoolScore option"
  is_new :: bool

definition InsertionMetadata_default :: InsertionMetadata where
  "InsertionMetadata_default = \<lparr> new_score = None, previous_score = None, is_new = False \<rparr>"

definition AccountTransactions_new :: "u32 \<Rightarrow> 'x AccountTransactions" where
  "AccountTransactions_new nonce = \<lparr> at_transactions = [], at_nonce = nonce \<rparr>"

definition score_for_transaction :: "'x L2Tx \<Rightarrow> MempoolScore" where
  "score_for_transaction tx =
     \<lparr> ms_account = initiator_account tx, received_at_ms = received_timestamp_ms tx,
       fee_data = tx_fee tx \<rparr>"

definition at_insert ::
  "'x L2Tx \<Rightarrow> 'x AccountTransactions \<Rightarrow> InsertionMetadata \<times> 'x AccountTransactions" where
  "at_insert tx acc =
     (let nonce = tx_nonce tx
      in if nonce < at_nonce acc then (InsertionMetadata_default, acc)
         else
           (let previous = map_option score_for_transaction (map_of (at_transactions acc) nonce);
                acc' = acc\<lparr> at_transactions := AList.update nonce tx (at_transactions acc) \<rparr>;
                md = InsertionMetadata_default\<lparr> is_new := previous = None \<rparr>
            in if nonce = at_nonce acc
               then (md\<lparr> new_score := Some (score_for_transaction tx), previous_score := previous \<rparr>, acc')
               else (md, acc')))"

definition at_next ::
  "'x AccountTransactions \<Rightarrow> ('x L2Tx \<times> MempoolScore option \<times> 'x AccountTransactions) option" where
  "at_next acc =
     (case map_of (at_transactions acc) (at_nonce acc) of
        None \<Rightarrow> None
      | Some tx \<Rightarrow>
          (let acc' = \<lparr> at_transactions = AList.delete (at_nonce acc) (at_transactions acc),
                        at_nonce = at_nonce acc + 1 \<rparr>
           in Some (tx, map_option score_for_transaction (map_of (at_transactions acc') (at_nonce acc')),
                    acc')))"

definition at_reset ::
  "'x L2Tx \<Rightarrow> 'x AccountTransactions \<Rightarrow> MempoolScore option \<times> 'x AccountTransactions" where
  "at_reset tx acc =
     (map_option score_for_transaction (map_of (at_transactions acc) (tx_nonce tx + 1)),
      acc\<lparr> at_nonce := min (at_nonce acc) (tx_nonce tx) \<rparr>)"

definition at_len :: "'x AccountTransactions \<Rightarrow> nat" where
  "at_len acc = length (at_transactions acc)"

section \<open>The store\<close>

record MempoolInfo =
  info_stashed_accounts :: "address list"
  info_purged_accounts :: "address list"

record MempoolStats =
  l1_transaction_count :: nat
  l2_transaction_count :: nat
  l2_priority_queue_size :: nat

record 'x MempoolStore =
  l1_transactions :: "(u64 \<times> 'x L1Tx) list"
  l2_transactions_per_account :: "(address \<times> 'x AccountTransactions) list"
  l2_priority_queue :: score_set
  next_priority_id :: u64
  stashed_accounts :: "address list"
  mp_size :: nat
  mp_capacity :: nat

definition MempoolStore_new :: "u64 \<Rightarrow> nat \<Rightarrow> 'x MempoolStore" where
  "MempoolStore_new first_id cap =
     \<lparr> l1_transactions = [], l2_transactions_per_account = [], l2_priority_queue = [],
       next_priority_id = first_id, stashed_accounts = [], mp_size = 0, mp_capacity = cap \<rparr>"

definition insert_l2_transaction ::
  "'x L2Tx \<Rightarrow> (address \<Rightarrow> u32 option) \<Rightarrow> 'x MempoolStore \<Rightarrow> 'x MempoolStore" where
  "insert_l2_transaction tx initial_nonces m =
     (let account = initiator_account tx;
          entry = (case map_of (l2_transactions_per_account m) account of
                     Some txs \<Rightarrow> txs
                   | None \<Rightarrow> AccountTransactions_new
                       (case initial_nonces account of Some n \<Rightarrow> n | None \<Rightarrow> 0));
          (md, entry') = at_insert tx entry;
          q1 = (case previous_score md of Some s \<Rightarrow> set_remove s (l2_priority_queue m)
                | None \<Rightarrow> l2_priority_queue m);
          q2 = (case new_score md of Some s \<Rightarrow> set_insert s q1 | None \<Rightarrow> q1)
      in m\<lparr> l2_transactions_per_account :=
                AList.update account entry' (l2_transactions_per_account m),
            l2_priority_queue := q2,
            mp_size := (if is_new md then mp_size m + 1 else mp_size m) \<rparr>)"

fun mp_insert ::
  "'x Transaction list \<Rightarrow> (address \<Rightarrow> u32 option) \<Rightarrow> 'x MempoolStore \<Rightarrow> 'x MempoolStore option" where
  "mp_insert [] initial_nonces m = Some m"
| "mp_insert (TxL1 tx # txs) initial_nonces m =
     mp_insert txs initial_nonces
       (m\<lparr> l1_transactions := AList.update (serial_id tx) tx (l1_transactions m) \<rparr>)"
| "mp_insert (TxL2 tx # txs) initial_nonces m =
     mp_insert txs initial_nonces (insert_l2_transaction tx initial_nonces m)"
| "mp_insert (TxProtocolUpgrade _ # _) initial_nonces m = None"

definition has_next :: "L2TxFilter \<Rightarrow> 'x MempoolStore \<Rightarrow> bool" where
  "has_next flt m \<longleftrightarrow>
     map_of (l1_transactions m) (next_priority_id m) \<noteq> None \<or>
     set_rfind (matches_filter flt) (l2_priority_queue m) \<noteq> None"

text \<open>The loop over the pointers above the chosen one; \<open>None\<close> is the dangling-pointer panic.\<close>

fun stash_pointers ::
  "MempoolScore list \<Rightarrow> nat \<Rightarrow> 'x MempoolStore \<Rightarrow> (nat \<times> 'x MempoolStore) option" where
  "stash_pointers [] removed m = Some (removed, m)"
| "stash_pointers (p # ps) removed m =
     (case map_of (l2_transactions_per_account m) (ms_account p) of
        None \<Rightarrow> None
      | Some txs \<Rightarrow>
          stash_pointers ps (removed + at_len txs)
            (m\<lparr> l2_transactions_per_account :=
                   AList.delete (ms_account p) (l2_transactions_per_account m),
                 stashed_accounts := stashed_accounts m @ [ms_account p] \<rparr>))"

definition next_l2_transaction ::
  "MempoolScore \<Rightarrow> 'x MempoolStore \<Rightarrow> ('x Transaction \<times> 'x MempoolStore) option" where
  "next_l2_transaction ptr m =
     (let (low, high) = set_split_off ptr (l2_priority_queue m)
      in case stash_pointers (drop 1 high) 0 (m\<lparr> l2_priority_queue := low \<rparr>) of
           None \<Rightarrow> None
         | Some (removed, m1) \<Rightarrow>
             (case map_of (l2_transactions_per_account m1) (ms_account ptr) of
                None \<Rightarrow> None
              | Some txs \<Rightarrow>
                  (case at_next txs of
                     None \<Rightarrow> None
                   | Some (tx, score, txs') \<Rightarrow>
                       if removed + 1 \<le> mp_size m1
                       then Some (TxL2 tx,
                         m1\<lparr> l2_transactions_per_account :=
                               AList.update (ms_account ptr) txs' (l2_transactions_per_account m1),
                             l2_priority_queue :=
                               (case score of Some s \<Rightarrow> set_insert s (l2_priority_queue m1)
                                | None \<Rightarrow> l2_priority_queue m1),
                             mp_size := mp_size m1 - (removed + 1) \<rparr>)
                       else None)))"

definition next_transaction ::
  "L2TxFilter \<Rightarrow> 'x MempoolStore \<Rightarrow> ('x Transaction option \<times> 'x MempoolStore) option" where
  "next_transaction flt m =
     (case map_of (l1_transactions m) (next_priority_id m) of
        Some tx \<Rightarrow>
          Some (Some (TxL1 tx),
                m\<lparr> l1_transactions := AList.delete (next_priority_id m) (l1_transactions m),
                   next_priority_id := next_priority_id m + 1 \<rparr>)
      | None \<Rightarrow>
          (case set_rfind (matches_filter flt) (l2_priority_queue m) of
             None \<Rightarrow> Some (None, m)
           | Some ptr \<Rightarrow>
               map_option (\<lambda>(tx, m'). (Some tx, m')) (next_l2_transaction ptr m)))"

definition rollback :: "'x Transaction \<Rightarrow> 'x MempoolStore \<Rightarrow> 'x MempoolStore option" where
  "rollback tx m =
     (case tx of
        TxL1 data \<Rightarrow> Some (m\<lparr> next_priority_id := min (next_priority_id m) (serial_id data) \<rparr>)
      | TxL2 t \<Rightarrow>
          (case map_of (l2_transactions_per_account m) (initiator_account t) of
             None \<Rightarrow> None
           | Some txs \<Rightarrow>
               (let (score, txs') = at_reset t txs
                in Some (m\<lparr> l2_transactions_per_account :=
                              AList.update (initiator_account t) txs' (l2_transactions_per_account m),
                            l2_priority_queue :=
                              (case score of Some s \<Rightarrow> set_remove s (l2_priority_queue m)
                               | None \<Rightarrow> l2_priority_queue m) \<rparr>)))
      | TxProtocolUpgrade _ \<Rightarrow> None)"

definition gc :: "'x MempoolStore \<Rightarrow> address list \<times> 'x MempoolStore" where
  "gc m =
     (if mp_size m \<ge> mp_capacity m then
        (let index = map ms_account (l2_priority_queue m);
             kept = filter (\<lambda>(a, _). a \<in> set index) (l2_transactions_per_account m);
             drained = filter (\<lambda>(a, _). a \<notin> set index) (l2_transactions_per_account m)
         in (map fst drained,
             m\<lparr> l2_transactions_per_account := kept,
                mp_size := sum_list (map (\<lambda>(_, txs). at_len txs) kept) \<rparr>))
      else ([], m))"

definition get_mempool_info :: "'x MempoolStore \<Rightarrow> MempoolInfo \<times> 'x MempoolStore" where
  "get_mempool_info m =
     (let (purged, m') = gc (m\<lparr> stashed_accounts := [] \<rparr>)
      in (\<lparr> info_stashed_accounts = stashed_accounts m, info_purged_accounts = purged \<rparr>, m'))"

definition stats :: "'x MempoolStore \<Rightarrow> MempoolStats" where
  "stats m =
     \<lparr> l1_transaction_count = length (l1_transactions m), l2_transaction_count = mp_size m,
       l2_priority_queue_size = length (l2_priority_queue m) \<rparr>"

section \<open>Lemmas on the ordered set\<close>

definition wf_queue :: "score_set \<Rightarrow> bool" where
  "wf_queue q \<longleftrightarrow> sorted_wrt (<) (map score_key_of q)"

lemma wf_queue_alt: "wf_queue q \<longleftrightarrow> sorted (map score_key_of q) \<and> distinct (map score_key_of q)"
  by (simp add: wf_queue_def strict_sorted_iff)

lemma wf_queue_inj:
  "wf_queue q \<Longrightarrow> s \<in> set q \<Longrightarrow> t \<in> set q \<Longrightarrow> score_key_of s = score_key_of t \<Longrightarrow> s = t"
  by (auto simp: wf_queue_alt distinct_map dest: inj_onD)

lemma wf_queue_filter: "wf_queue q \<Longrightarrow> wf_queue (filter P q)"
  by (simp add: wf_queue_alt sorted_filter distinct_map_filter)

lemma set_insert_mem:
  "set (set_insert s q) =
     (if \<exists>t\<in>set q. score_key_of t = score_key_of s then set q else insert s (set q))"
  by (auto simp: set_insert_def list_ex_iff set_insort_key)

lemma distinct_map_insort_key:
  "distinct (map f (insort_key f x xs)) \<longleftrightarrow> f x \<notin> f ` set xs \<and> distinct (map f xs)"
  by (induction xs) (auto simp: set_insort_key)

lemma wf_set_insert: "wf_queue q \<Longrightarrow> wf_queue (set_insert s q)"
  by (auto simp: wf_queue_alt set_insert_def list_ex_iff sorted_insort_key distinct_map_insort_key)

lemma set_rfind_None: "set_rfind P q = None \<longleftrightarrow> (\<forall>s\<in>set q. \<not> P s)"
  by (auto simp: set_rfind_def find_None_iff)

lemma set_rfind_snoc: "set_rfind P (q @ [s]) = (if P s then Some s else set_rfind P q)"
  by (simp add: set_rfind_def)

lemma set_rfind_Some:
  assumes "wf_queue q" "set_rfind P q = Some p"
  shows "p \<in> set q \<and> P p \<and> (\<forall>t\<in>set q. score_key_of p < score_key_of t \<longrightarrow> \<not> P t)"
  using assms
proof (induction q rule: rev_induct)
  case (snoc s q)
  have "wf_queue q" "\<forall>t\<in>set q. score_key_of t < score_key_of s"
    using snoc.prems(1) by (auto simp: wf_queue_def sorted_wrt_append)
  then show ?case using snoc by (auto simp: set_rfind_snoc split: if_splits)
qed (simp add: set_rfind_def)

lemma split_off_high:
  assumes "wf_queue q" "p \<in> set q"
  shows "drop 1 (snd (set_split_off p q)) = filter (\<lambda>t. score_key_of p < score_key_of t) q"
  using assms
proof (induction q)
  case (Cons s q)
  have wf: "wf_queue q" and above: "\<forall>t\<in>set q. score_key_of s < score_key_of t"
    using Cons.prems(1) by (auto simp: wf_queue_def)
  show ?case
  proof (cases "p = s")
    case True
    then have "filter (\<lambda>t. score_key_of p \<le> score_key_of t) q = q"
      "filter (\<lambda>t. score_key_of p < score_key_of t) q = q"
      using above by (auto simp: filter_id_conv)
    then show ?thesis using True by (simp add: set_split_off_def)
  next
    case False
    then have "\<not> score_key_of p \<le> score_key_of s" using above Cons.prems(2) by auto
    then show ?thesis
      using Cons.IH [OF wf] Cons.prems(2) False by (auto simp: set_split_off_def)
  qed
qed simp

section \<open>The invariant of the store\<close>

definition acc_ok :: "address \<Rightarrow> 'x AccountTransactions \<Rightarrow> bool" where
  "acc_ok a acc \<longleftrightarrow>
     distinct (map fst (at_transactions acc)) \<and>
     (\<forall>(n, tx)\<in>set (at_transactions acc).
        at_nonce acc \<le> n \<and> tx_nonce tx = n \<and> initiator_account tx = a)"

text \<open>The score that the queue should hold for an account.\<close>

definition pointer_of :: "'x AccountTransactions \<Rightarrow> MempoolScore option" where
  "pointer_of acc = map_option score_for_transaction (map_of (at_transactions acc) (at_nonce acc))"

definition queue_ok :: "(address \<times> 'x AccountTransactions) list \<Rightarrow> score_set \<Rightarrow> bool" where
  "queue_ok accts q \<longleftrightarrow>
     wf_queue q \<and>
     (\<forall>s. s \<in> set q \<longleftrightarrow> (\<exists>acc. map_of accts (ms_account s) = Some acc \<and> pointer_of acc = Some s))"

definition accounts_ok :: "(address \<times> 'x AccountTransactions) list \<Rightarrow> bool" where
  "accounts_ok accts \<longleftrightarrow> distinct (map fst accts) \<and> (\<forall>(a, acc)\<in>set accts. acc_ok a acc)"

definition total_len :: "(address \<times> 'x AccountTransactions) list \<Rightarrow> nat" where
  "total_len accts = sum_list (map (\<lambda>(_, acc). at_len acc) accts)"

definition mempool_inv :: "'x MempoolStore \<Rightarrow> bool" where
  "mempool_inv m \<longleftrightarrow>
     accounts_ok (l2_transactions_per_account m) \<and>
     queue_ok (l2_transactions_per_account m) (l2_priority_queue m) \<and>
     mp_size m = total_len (l2_transactions_per_account m)"

lemma score_account [simp]: "ms_account (score_for_transaction tx) = initiator_account tx"
  by (simp add: score_for_transaction_def)

lemma acc_okD:
  assumes "acc_ok a acc" "map_of (at_transactions acc) n = Some tx"
  shows "at_nonce acc \<le> n" "tx_nonce tx = n" "initiator_account tx = a"
  using assms by (auto simp: acc_ok_def dest!: map_of_SomeD)

lemma pointer_account: "acc_ok a acc \<Longrightarrow> pointer_of acc = Some s \<Longrightarrow> ms_account s = a"
  by (auto simp: pointer_of_def dest: acc_okD)

lemma accounts_okD: "accounts_ok accts \<Longrightarrow> map_of accts a = Some acc \<Longrightarrow> acc_ok a acc"
  by (auto simp: accounts_ok_def dest: map_of_SomeD)

lemma accounts_ok_update:
  assumes "accounts_ok accts" "acc_ok a acc"
  shows "accounts_ok (AList.update a acc accts)"
proof -
  have "(b, c) \<in> set (AList.update a acc accts) \<Longrightarrow> (b = a \<and> c = acc) \<or> (b, c) \<in> set accts" for b c
    by (induction accts) (auto split: if_splits)
  with assms show ?thesis by (fastforce simp: accounts_ok_def AList.distinct_update)
qed

lemma accounts_ok_filter: "accounts_ok accts \<Longrightarrow> accounts_ok (filter P accts)"
  by (auto simp: accounts_ok_def distinct_map_filter)

text \<open>Replacing the transactions of one account and, accordingly, its pointer.\<close>

lemma queue_ok_update:
  assumes "queue_ok accts q" "acc_ok a acc" "wf_queue q'"
    and "set q' = {s \<in> set q. ms_account s \<noteq> a} \<union> set_option (pointer_of acc)"
  shows "queue_ok (AList.update a acc accts) q'"
  using assms pointer_account [OF assms(2)]
  by (auto simp: queue_ok_def AList.update_conv')

lemma queue_ok_account_unique:
  assumes "queue_ok accts q" "map_of accts a = Some acc" "s \<in> set q" "ms_account s = a"
  shows "pointer_of acc = Some s"
  using assms by (auto simp: queue_ok_def)

text \<open>Without the account's old pointer the set has no element that the order confuses with a new one.\<close>

lemma set_insert_fresh:
  assumes "\<And>t. t \<in> set q \<Longrightarrow> ms_account t \<noteq> ms_account s"
  shows "set (set_insert s q) = insert s (set q)"
  using assms by (auto simp: set_insert_mem score_key_of_def)

lemma set_remove_account:
  assumes "queue_ok accts q" "map_of accts a = Some acc" "pointer_of acc = Some s" "acc_ok a acc"
  shows "set (set_remove s q) = {t \<in> set q. ms_account t \<noteq> a}"
proof -
  have "ms_account s = a" using pointer_account assms(3,4) by blast
  moreover have "t = s" if "t \<in> set q" "ms_account t = a" for t
    using queue_ok_account_unique [OF assms(1,2) that] assms(3) by simp
  ultimately show ?thesis by (auto simp: set_remove_def score_key_of_def)
qed

lemma no_pointer_no_score:
  assumes "queue_ok accts q" "map_of accts a = None \<or> (\<exists>acc. map_of accts a = Some acc \<and> pointer_of acc = None)"
  shows "{t \<in> set q. ms_account t \<noteq> a} = set q"
  using assms by (auto simp: queue_ok_def)

subsection \<open>Insertion\<close>

lemma at_insert_ok:
  assumes "acc_ok (initiator_account tx) acc" "at_insert tx acc = (md, acc')"
  shows "acc_ok (initiator_account tx) acc'"
    and "at_len acc' = at_len acc + (if is_new md then 1 else 0)"
    and "at_nonce acc' = at_nonce acc"
    and "new_score md = None \<Longrightarrow> previous_score md = None \<and> pointer_of acc' = pointer_of acc"
    and "new_score md = Some s \<Longrightarrow> previous_score md = pointer_of acc \<and> pointer_of acc' = Some s"
proof -
  have "(n, t) \<in> set (AList.update k tx al) \<Longrightarrow> (n = k \<and> t = tx) \<or> (n, t) \<in> set al"
    for n t k and al :: "(u32 \<times> 'a L2Tx) list"
    by (induction al) (auto split: if_splits)
  then show "acc_ok (initiator_account tx) acc'"
    using assms by (fastforce simp: at_insert_def Let_def acc_ok_def AList.distinct_update split: if_splits)
  show "at_len acc' = at_len acc + (if is_new md then 1 else 0)" "at_nonce acc' = at_nonce acc"
    using assms(2)
    by (auto simp: at_insert_def Let_def at_len_def length_alist_update InsertionMetadata_default_def
        split: if_splits)
  show "new_score md = None \<Longrightarrow> previous_score md = None \<and> pointer_of acc' = pointer_of acc"
    using assms(2)
    by (auto simp: at_insert_def Let_def pointer_of_def InsertionMetadata_default_def
        AList.update_conv' split: if_splits)
  show "new_score md = Some s \<Longrightarrow> previous_score md = pointer_of acc \<and> pointer_of acc' = Some s"
    using assms(2)
    by (auto simp: at_insert_def Let_def pointer_of_def InsertionMetadata_default_def
        AList.update_conv' split: if_splits)
qed

lemma pointer_of_new [simp]: "pointer_of (AccountTransactions_new n) = None"
  by (simp add: pointer_of_def AccountTransactions_new_def)

lemma acc_ok_new [simp]: "acc_ok a (AccountTransactions_new n)"
  by (simp add: acc_ok_def AccountTransactions_new_def)

lemma at_len_new [simp]: "at_len (AccountTransactions_new n) = 0"
  by (simp add: at_len_def AccountTransactions_new_def)

lemma total_len_update:
  assumes "accounts_ok accts"
  shows "total_len (AList.update a acc accts) +
     (case map_of accts a of None \<Rightarrow> 0 | Some old \<Rightarrow> at_len old) = total_len accts + at_len acc"
  using sum_alist_update [of accts "\<lambda>(_, acc). at_len acc" a acc] assms
  by (cases "map_of accts a") (simp_all add: total_len_def accounts_ok_def)

lemma insert_l2_transaction_inv:
  assumes inv: "mempool_inv m"
  shows "mempool_inv (insert_l2_transaction tx nonces m)"
proof -
  let ?accts = "l2_transactions_per_account m" and ?q = "l2_priority_queue m"
  let ?a = "initiator_account tx"
  define acc where "acc = (case map_of ?accts ?a of Some txs \<Rightarrow> txs
    | None \<Rightarrow> AccountTransactions_new (case nonces ?a of Some n \<Rightarrow> n | None \<Rightarrow> 0))"
  obtain md acc' where ins: "at_insert tx acc = (md, acc')" by fastforce
  have accts: "accounts_ok ?accts" and q: "queue_ok ?accts ?q" and size: "mp_size m = total_len ?accts"
    using inv by (simp_all add: mempool_inv_def)
  have ok: "acc_ok ?a acc"
    using accts by (auto simp: acc_def dest: accounts_okD split: option.splits)
  note ins_ok = at_insert_ok [OF ok ins]
  define q1 where "q1 = (case previous_score md of Some s \<Rightarrow> set_remove s ?q | None \<Rightarrow> ?q)"
  define q2 where "q2 = (case new_score md of Some s \<Rightarrow> set_insert s q1 | None \<Rightarrow> q1)"
  have wf: "wf_queue q2"
    using q by (auto simp: q2_def q1_def queue_ok_def set_remove_def wf_queue_filter wf_set_insert
        split: option.splits)
  have unpoint: "set ?q = {t \<in> set ?q. ms_account t \<noteq> ?a} \<union> set_option (pointer_of acc)"
    using q ok by (auto simp: queue_ok_def acc_def dest: pointer_account split: option.splits)
  have "set q2 = {t \<in> set ?q. ms_account t \<noteq> ?a} \<union> set_option (pointer_of acc')"
  proof (cases "new_score md")
    case None
    then show ?thesis using ins_ok(4) unpoint by (simp add: q2_def q1_def)
  next
    case (Some s)
    then have prev: "previous_score md = pointer_of acc" and now: "pointer_of acc' = Some s"
      using ins_ok(5) by auto
    have "set q1 = {t \<in> set ?q. ms_account t \<noteq> ?a}"
    proof (cases "pointer_of acc")
      case None
      then show ?thesis using unpoint prev by (simp add: q1_def)
    next
      case (Some s')
      then have "map_of ?accts ?a = Some acc" by (auto simp: acc_def split: option.splits)
      then show ?thesis using Some prev set_remove_account [OF q _ Some ok] by (simp add: q1_def)
    qed
    then show ?thesis
      using Some now pointer_account [OF ins_ok(1) now] set_insert_fresh [of q1 s] by (auto simp: q2_def)
  qed
  then have q': "queue_ok (AList.update ?a acc' ?accts) q2"
    using queue_ok_update [OF q ins_ok(1) wf] by simp
  have "total_len (AList.update ?a acc' ?accts) = total_len ?accts + (if is_new md then 1 else 0)"
    using total_len_update [OF accts, of ?a acc'] ins_ok(2) by (auto simp: acc_def split: option.splits)
  then show ?thesis
    using accounts_ok_update [OF accts ins_ok(1)] q' [unfolded q2_def q1_def] size ins
    by (simp add: mempool_inv_def insert_l2_transaction_def Let_def acc_def [symmetric])
qed

lemma mempool_inv_frame [simp]:
  "mempool_inv (m\<lparr> l1_transactions := x \<rparr>) = mempool_inv m"
  "mempool_inv (m\<lparr> next_priority_id := y \<rparr>) = mempool_inv m"
  "mempool_inv (m\<lparr> stashed_accounts := z \<rparr>) = mempool_inv m"
  by (simp_all add: mempool_inv_def)

lemma mp_insert_inv:
  "mempool_inv m \<Longrightarrow> mp_insert txs nonces m = Some m' \<Longrightarrow> mempool_inv m'"
  by (induction txs nonces m rule: mp_insert.induct) (auto intro: insert_l2_transaction_inv)

subsection \<open>Taking the next transaction\<close>

lemma at_next_ok:
  assumes "acc_ok a acc" "map_of (at_transactions acc) (at_nonce acc) = Some tx"
  obtains acc' where "at_next acc = Some (tx, pointer_of acc', acc')" "acc_ok a acc'"
    "Suc (at_len acc') = at_len acc" "at_nonce acc' = at_nonce acc + 1"
    "map_of (at_transactions acc') = (map_of (at_transactions acc))(at_nonce acc := None)"
proof
  let ?acc = "\<lparr> at_transactions = AList.delete (at_nonce acc) (at_transactions acc),
      at_nonce = at_nonce acc + 1 \<rparr>"
  show "at_next acc = Some (tx, pointer_of ?acc, ?acc)"
    using assms(2) by (simp add: at_next_def Let_def pointer_of_def)
  have "at_nonce acc < n \<Longrightarrow> at_nonce acc + 1 \<le> n" for n
    by (simp add: inc_le)
  then show "acc_ok a ?acc"
    using assms(1) by (fastforce simp: acc_ok_def AList.delete_eq distinct_map_filter)
  have "at_transactions acc \<noteq> []" using assms(2) by auto
  then show "Suc (at_len ?acc) = at_len acc"
    using assms length_alist_delete [of "at_transactions acc" "at_nonce acc"]
    by (simp add: at_len_def acc_ok_def)
  show "at_nonce ?acc = at_nonce acc + 1" by simp
  show "map_of (at_transactions ?acc) = (map_of (at_transactions acc))(at_nonce acc := None)"
    by (simp add: AList.delete_conv')
qed

lemma stash_pointers_ok:
  assumes "distinct (map ms_account ps)" "accounts_ok (l2_transactions_per_account m)"
    and "\<forall>p\<in>set ps. map_of (l2_transactions_per_account m) (ms_account p) \<noteq> None"
  shows "\<exists>removed'. stash_pointers ps removed m = Some (removed',
       m\<lparr> l2_transactions_per_account :=
            filter (\<lambda>(a, _). a \<notin> ms_account ` set ps) (l2_transactions_per_account m),
          stashed_accounts := stashed_accounts m @ map ms_account ps \<rparr>) \<and>
     removed' + total_len (filter (\<lambda>(a, _). a \<notin> ms_account ` set ps) (l2_transactions_per_account m)) =
       removed + total_len (l2_transactions_per_account m)"
  using assms
proof (induction ps arbitrary: removed m)
  case (Cons p ps)
  let ?accts = "l2_transactions_per_account m"
  obtain acc where acc: "map_of ?accts (ms_account p) = Some acc" using Cons.prems(3) by auto
  let ?m = "m\<lparr> l2_transactions_per_account := AList.delete (ms_account p) ?accts,
      stashed_accounts := stashed_accounts m @ [ms_account p] \<rparr>"
  have "total_len (AList.delete (ms_account p) ?accts) + at_len acc = total_len ?accts"
    using sum_alist_delete [of ?accts "\<lambda>(_, acc). at_len acc" "ms_account p"] Cons.prems(2) acc
    by (simp add: accounts_ok_def total_len_def)
  moreover have "filter (\<lambda>(a, _). a \<notin> ms_account ` set ps) (AList.delete (ms_account p) ?accts) =
      filter (\<lambda>(a, _). a \<notin> ms_account ` set (p # ps)) ?accts"
    by (auto simp: AList.delete_eq intro: filter_cong)
  moreover have "accounts_ok (AList.delete (ms_account p) ?accts)"
    using Cons.prems(2) by (simp add: AList.delete_eq accounts_ok_filter)
  moreover have "\<forall>x\<in>set ps. map_of (AList.delete (ms_account p) ?accts) (ms_account x) \<noteq> None"
    using Cons.prems by (auto simp: AList.delete_conv') (metis image_eqI)
  ultimately show ?case
    using Cons.IH [of ?m "removed + at_len acc"] Cons.prems(1) acc by auto
qed simp

definition higher :: "MempoolScore \<Rightarrow> score_set \<Rightarrow> score_set" where
  "higher p q = filter (\<lambda>t. score_key_of p < score_key_of t) q"

definition lower :: "MempoolScore \<Rightarrow> score_set \<Rightarrow> score_set" where
  "lower p q = filter (\<lambda>t. score_key_of t < score_key_of p) q"

lemma queue_ok_distinct_accounts:
  assumes "queue_ok accts q"
  shows "distinct (map ms_account q)"
proof -
  have "inj_on ms_account (set q)"
    using assms by (auto simp: queue_ok_def inj_on_def)
  moreover have "distinct q" using assms by (auto simp: queue_ok_def wf_queue_alt distinct_map)
  ultimately show ?thesis by (simp add: distinct_map)
qed

lemma queue_partition:
  assumes "wf_queue q" "p \<in> set q"
  shows "set q = set (lower p q) \<union> {p} \<union> set (higher p q)"
proof -
  have "t = p" if "t \<in> set q" "\<not> score_key_of p < score_key_of t" "\<not> score_key_of t < score_key_of p" for t
    using wf_queue_inj [OF assms(1) that(1) assms(2)] that by simp
  then show ?thesis using assms(2) unfolding lower_def higher_def set_filter by blast
qed

lemma queue_ok_stashed:
  assumes "queue_ok accts q" "p \<in> set q"
  shows "queue_ok (filter (\<lambda>(a, _). a \<notin> ms_account ` set (higher p q)) accts) (lower p q @ [p])"
proof -
  have wf: "wf_queue q" using assms by (simp add: queue_ok_def)
  have *: "s \<in> set (lower p q) \<or> s = p \<longleftrightarrow> s \<in> set q \<and> ms_account s \<notin> ms_account ` set (higher p q)" for s
  proof -
    have "s = t" if "s \<in> set q" "t \<in> set (higher p q)" "ms_account s = ms_account t" for t
      using that assms by (auto simp: higher_def queue_ok_def)
    moreover have "set (higher p q) \<subseteq> set q" "set (lower p q) \<subseteq> set q" by (auto simp: higher_def lower_def)
    moreover have "set (higher p q) \<inter> set (lower p q) = {}" "p \<notin> set (higher p q)"
      by (auto simp: higher_def lower_def)
    ultimately show ?thesis using queue_partition [OF wf assms(2)] assms(2) by blast
  qed
  have "wf_queue (lower p q @ [p])"
    using wf_queue_filter [OF wf] by (auto simp: wf_queue_def sorted_wrt_append lower_def)
  with * assms(1) show ?thesis
    by (auto simp: queue_ok_def map_of_filter_keys split: if_splits)
qed

definition stash_above :: "MempoolScore \<Rightarrow> 'x MempoolStore \<Rightarrow> (address \<times> 'x AccountTransactions) list" where
  "stash_above p m = filter (\<lambda>(a, _). a \<notin> ms_account ` set (higher p (l2_priority_queue m)))
     (l2_transactions_per_account m)"

lemma next_l2_transaction_ok:
  assumes inv: "mempool_inv m" and p: "p \<in> set (l2_priority_queue m)"
  obtains acc tx acc' q' where
    "map_of (l2_transactions_per_account m) (ms_account p) = Some acc"
    "map_of (at_transactions acc) (at_nonce acc) = Some tx" "score_for_transaction tx = p"
    "at_nonce acc' = at_nonce acc + 1"
    "map_of (at_transactions acc') = (map_of (at_transactions acc))(at_nonce acc := None)"
    "wf_queue q'"
    "set q' = set (lower p (l2_priority_queue m)) \<union> set_option (pointer_of acc')"
    "next_l2_transaction p m = Some (TxL2 tx,
       m\<lparr> l2_transactions_per_account := AList.update (ms_account p) acc' (stash_above p m),
          l2_priority_queue := q',
          stashed_accounts := stashed_accounts m @ map ms_account (higher p (l2_priority_queue m)),
          mp_size := total_len (AList.update (ms_account p) acc' (stash_above p m)) \<rparr>)"
    "accounts_ok (AList.update (ms_account p) acc' (stash_above p m))"
    "queue_ok (AList.update (ms_account p) acc' (stash_above p m)) q'"
proof -
  let ?q = "l2_priority_queue m" and ?a = "ms_account p" and ?accts = "l2_transactions_per_account m"
  let ?m = "m\<lparr> l2_priority_queue := lower p ?q \<rparr>" and ?kept = "stash_above p m"
  have accts: "accounts_ok ?accts" and q: "queue_ok ?accts ?q" and size: "mp_size m = total_len ?accts"
    using inv by (simp_all add: mempool_inv_def)
  have wf: "wf_queue ?q" using q by (simp add: queue_ok_def)
  have q1: "queue_ok ?kept (lower p ?q @ [p])" using queue_ok_stashed [OF q p] by (simp add: stash_above_def)
  then obtain acc where acc: "map_of ?kept ?a = Some acc" and ptr: "pointer_of acc = Some p"
    by (auto simp: queue_ok_def)
  then obtain tx where tx: "map_of (at_transactions acc) (at_nonce acc) = Some tx"
    "score_for_transaction tx = p"
    by (auto simp: pointer_of_def)
  have kept: "accounts_ok ?kept" using accts by (simp add: stash_above_def accounts_ok_filter)
  have ok: "acc_ok ?a acc" using accounts_okD [OF kept acc] .
  obtain acc' where nxt: "at_next acc = Some (tx, pointer_of acc', acc')" "acc_ok ?a acc'"
    "Suc (at_len acc') = at_len acc" "at_nonce acc' = at_nonce acc + 1"
    "map_of (at_transactions acc') = (map_of (at_transactions acc))(at_nonce acc := None)"
    using at_next_ok [OF ok tx(1)] by blast
  have mem: "\<forall>s\<in>set (higher p ?q). map_of ?accts (ms_account s) \<noteq> None"
    using q by (auto simp: queue_ok_def higher_def)
  have dist: "distinct (map ms_account (higher p ?q))"
    using queue_ok_distinct_accounts [OF q] by (simp add: higher_def distinct_map_filter)
  obtain removed where stash: "stash_pointers (higher p ?q) 0 ?m = Some (removed,
      ?m\<lparr> l2_transactions_per_account := ?kept,
          stashed_accounts := stashed_accounts m @ map ms_account (higher p ?q) \<rparr>)"
    and removed: "removed + total_len ?kept = total_len ?accts"
    using stash_pointers_ok [of "higher p ?q" ?m 0] dist accts mem by (auto simp: stash_above_def)
  have len: "Suc (total_len (AList.update ?a acc' ?kept)) = total_len ?kept"
    using total_len_update [OF kept, of ?a acc'] acc nxt(3) by simp
  have fits: "removed + 1 \<le> mp_size m" "mp_size m - (removed + 1) = total_len (AList.update ?a acc' ?kept)"
    using len removed size by linarith+
  define q' where "q' = (case pointer_of acc' of Some s \<Rightarrow> set_insert s (lower p ?q) | None \<Rightarrow> lower p ?q)"
  have below_other: "t \<in> set (lower p ?q) \<Longrightarrow> ms_account t \<noteq> ?a" for t
    using queue_ok_account_unique [OF q1 acc, of t] ptr by (auto simp: lower_def)
  have wf': "wf_queue q'"
    using wf_queue_filter [OF wf] by (simp add: q'_def wf_set_insert lower_def split: option.splits)
  have set_q': "set q' = set (lower p ?q) \<union> set_option (pointer_of acc')"
  proof (cases "pointer_of acc'")
    case (Some s)
    then have "set (set_insert s (lower p ?q)) = insert s (set (lower p ?q))"
      using below_other pointer_account [OF nxt(2) Some] by (intro set_insert_fresh) simp
    then show ?thesis using Some by (simp add: q'_def)
  qed (simp add: q'_def)
  have "queue_ok (AList.update ?a acc' ?kept) q'"
    by (rule queue_ok_update [OF q1 nxt(2) wf']) (use set_q' below_other in auto)
  moreover have "next_l2_transaction p m = Some (TxL2 tx,
       m\<lparr> l2_transactions_per_account := AList.update ?a acc' ?kept, l2_priority_queue := q',
          stashed_accounts := stashed_accounts m @ map ms_account (higher p ?q),
          mp_size := total_len (AList.update ?a acc' ?kept) \<rparr>)"
    using stash acc nxt(1) fits split_off_high [OF wf p]
    by (auto simp: next_l2_transaction_def set_split_off_def Let_def q'_def
        lower_def [symmetric] higher_def [symmetric] intro!: MempoolStore.equality split: option.split)
  moreover have "map_of ?accts ?a = Some acc"
    using acc by (simp add: stash_above_def map_of_filter_keys split: if_splits)
  ultimately show thesis
    using that tx nxt(4,5) wf' set_q' accounts_ok_update [OF kept nxt(2)] by blast
qed

lemma next_transaction_inv:
  assumes "mempool_inv m" "next_transaction flt m = Some (r, m')"
  shows "mempool_inv m'"
proof (cases "map_of (l1_transactions m) (next_priority_id m)")
  case None
  show ?thesis
  proof (cases "set_rfind (matches_filter flt) (l2_priority_queue m)")
    case None': None
    then show ?thesis using assms None by (simp add: next_transaction_def)
  next
    case (Some p)
    have "p \<in> set (l2_priority_queue m)"
      using set_rfind_Some [OF _ Some] assms(1) by (auto simp: mempool_inv_def queue_ok_def)
    then show ?thesis
      by (rule next_l2_transaction_ok [OF assms(1)])
         (use assms(2) None Some in \<open>auto simp: next_transaction_def mempool_inv_def\<close>)
  qed
next
  case (Some tx)
  then show ?thesis using assms by (auto simp: next_transaction_def)
qed

subsection \<open>Rolling back and collecting\<close>

text \<open>
  \<open>rollback\<close> is called for a transaction the state keeper has just taken: the account, if it is
  still there, expects the successor of its nonce.
\<close>

definition just_taken :: "'x Transaction \<Rightarrow> 'x MempoolStore \<Rightarrow> bool" where
  "just_taken tx m \<longleftrightarrow>
     (case tx of
        TxL2 t \<Rightarrow> tx_nonce t \<noteq> - 1 \<and>
          (case map_of (l2_transactions_per_account m) (initiator_account t) of
             Some acc \<Rightarrow> at_nonce acc = tx_nonce t + 1 | None \<Rightarrow> True)
      | _ \<Rightarrow> True)"

lemma at_reset_ok:
  assumes "acc_ok (initiator_account t) acc" "at_nonce acc = tx_nonce t + 1" "tx_nonce t \<noteq> - 1"
  obtains acc' where "at_reset t acc = (pointer_of acc, acc')" "acc' = acc\<lparr> at_nonce := tx_nonce t \<rparr>"
    "acc_ok (initiator_account t) acc'" "pointer_of acc' = None"
proof
  have less: "tx_nonce t < tx_nonce t + 1"
    using assms(3) by (rule word_less_succ)
  show "at_reset t acc = (pointer_of acc, acc\<lparr> at_nonce := tx_nonce t \<rparr>)"
    using assms(2) less by (simp add: at_reset_def pointer_of_def min_def)
  show "acc_ok (initiator_account t) (acc\<lparr> at_nonce := tx_nonce t \<rparr>)"
    using assms(1,2) less by (auto simp: acc_ok_def dest!: bspec)
  have "map_of (at_transactions acc) (tx_nonce t) \<noteq> Some u" for u
    using acc_okD(1) [OF assms(1)] assms(2) less by fastforce
  then show "pointer_of (acc\<lparr> at_nonce := tx_nonce t \<rparr>) = None"
    by (cases "map_of (at_transactions acc) (tx_nonce t)") (auto simp: pointer_of_def)
qed simp

lemma rollback_inv:
  assumes "mempool_inv m" "just_taken tx m" "rollback tx m = Some m'"
  shows "mempool_inv m'"
proof (cases tx)
  case (TxL2 t)
  let ?a = "initiator_account t" and ?accts = "l2_transactions_per_account m"
  obtain acc where acc: "map_of ?accts ?a = Some acc"
    using assms(3) TxL2 by (auto simp: rollback_def split: option.splits)
  have accts: "accounts_ok ?accts" and q: "queue_ok ?accts (l2_priority_queue m)"
    using assms(1) by (simp_all add: mempool_inv_def)
  have ok: "acc_ok ?a acc" using accounts_okD [OF accts acc] .
  obtain acc' where r: "at_reset t acc = (pointer_of acc, acc')" "acc' = acc\<lparr> at_nonce := tx_nonce t \<rparr>"
    "acc_ok ?a acc'" "pointer_of acc' = None"
    using at_reset_ok [OF ok] assms(2) TxL2 acc by (auto simp: just_taken_def)
  define q' where "q' = (case pointer_of acc of Some s \<Rightarrow> set_remove s (l2_priority_queue m)
     | None \<Rightarrow> l2_priority_queue m)"
  have "wf_queue q'"
    using q by (auto simp: q'_def queue_ok_def set_remove_def wf_queue_filter split: option.splits)
  moreover have "set q' = {s \<in> set (l2_priority_queue m). ms_account s \<noteq> ?a}"
    using set_remove_account [OF q acc _ ok] no_pointer_no_score [OF q, of ?a] acc
    by (cases "pointer_of acc") (simp_all add: q'_def)
  ultimately have "queue_ok (AList.update ?a acc' ?accts) q'"
    using queue_ok_update [OF q r(3)] r(4) by simp
  moreover have "total_len (AList.update ?a acc' ?accts) = total_len ?accts"
    using total_len_update [OF accts, of ?a acc'] acc r(2) by (simp add: at_len_def)
  ultimately show ?thesis
    using assms(1,3) TxL2 acc r accounts_ok_update [OF accts r(3)]
    by (auto simp: mempool_inv_def rollback_def Let_def q'_def)
qed (use assms in \<open>auto simp: rollback_def\<close>)

lemma gc_inv:
  assumes "mempool_inv m"
  shows "mempool_inv (snd (gc m))"
proof (cases "mp_capacity m \<le> mp_size m")
  case True
  let ?Q = "ms_account ` set (l2_priority_queue m)" and ?accts = "l2_transactions_per_account m"
  have q: "queue_ok ?accts (l2_priority_queue m)" using assms by (simp add: mempool_inv_def)
  have "(\<exists>acc. map_of (filter (\<lambda>(a, _). a \<in> ?Q) ?accts) (ms_account s) = Some acc \<and> pointer_of acc = Some s)
      \<longleftrightarrow> ms_account s \<in> ?Q \<and> s \<in> set (l2_priority_queue m)" for s
    using q by (simp add: map_of_filter_keys queue_ok_def)
  then have "queue_ok (filter (\<lambda>(a, _). a \<in> ?Q) ?accts) (l2_priority_queue m)"
    using q unfolding queue_ok_def by blast
  then show ?thesis
    using True assms by (simp add: mempool_inv_def gc_def Let_def accounts_ok_filter total_len_def)
qed (use assms in \<open>simp add: gc_def\<close>)

lemma get_mempool_info_inv: "mempool_inv m \<Longrightarrow> mempool_inv (snd (get_mempool_info m))"
  using gc_inv [of "m\<lparr> stashed_accounts := [] \<rparr>"]
  by (auto simp: get_mempool_info_def split: prod.splits)

lemma MempoolStore_new_inv: "mempool_inv (MempoolStore_new first_id cap)"
  by (simp add: mempool_inv_def MempoolStore_new_def accounts_ok_def queue_ok_def wf_queue_def total_len_def)

section \<open>The mempool between its users\<close>

text \<open>
  Two tasks share the store behind a mutex (\<^verbatim>\<open>MempoolGuard\<close>) and call it in any order. The fetcher
  inserts what it reads from the database and asks for the mempool info. The state keeper takes
  transactions; it rejects the one it took last with \<open>rollback\<close>, and gives it back with
  \<open>rollback\<close> and then \<open>insert\<close>, two calls that acquire the mutex one after the other. Each call is an
  event. The second component of the state is what the state keeper holds; without a transaction to roll back or
  to insert again it makes no such call, and the event changes nothing.
\<close>

datatype 'x keeper_hand = Free | Taken "'x Transaction" | RolledBack "'x Transaction"

datatype 'x mp_event =
    EvInsert "'x Transaction list" "address \<Rightarrow> u32 option"
  | EvNext L2TxFilter
  | EvRollback
  | EvReinsert
  | EvInfo

fun mp_step ::
  "'x mp_event \<Rightarrow> 'x MempoolStore \<times> 'x keeper_hand \<Rightarrow> ('x MempoolStore \<times> 'x keeper_hand) option" where
  "mp_step (EvInsert txs nonces) (m, hand) = map_option (\<lambda>m'. (m', hand)) (mp_insert txs nonces m)"
| "mp_step (EvNext flt) (m, hand) =
     map_option (\<lambda>(r, m'). (m', case r of None \<Rightarrow> Free | Some tx \<Rightarrow> Taken tx)) (next_transaction flt m)"
| "mp_step EvRollback (m, hand) =
     (case hand of
        Taken tx \<Rightarrow> map_option (\<lambda>m'. (m', RolledBack tx)) (rollback tx m)
      | _ \<Rightarrow> Some (m, hand))"
| "mp_step EvReinsert (m, hand) =
     (case hand of
        RolledBack tx \<Rightarrow> map_option (\<lambda>m'. (m', Free)) (mp_insert [tx] Map.empty m)
      | _ \<Rightarrow> Some (m, hand))"
| "mp_step EvInfo (m, hand) = Some (snd (get_mempool_info m), hand)"

text \<open>
  What the store relies upon and does not check: the fetcher does not insert protocol upgrades; no collection purges the
  account of the transaction that the state keeper holds; and the nonce of a transaction that is rolled back has
  a successor.
\<close>

fun is_upgrade :: "'x Transaction \<Rightarrow> bool" where
  "is_upgrade (TxProtocolUpgrade _) \<longleftrightarrow> True"
| "is_upgrade _ \<longleftrightarrow> False"

fun sound_event :: "'x mp_event \<Rightarrow> 'x MempoolStore \<times> 'x keeper_hand \<Rightarrow> bool" where
  "sound_event (EvInsert txs _) _ \<longleftrightarrow> \<not> list_ex is_upgrade txs"
| "sound_event EvInfo (m, Taken (TxL2 t)) \<longleftrightarrow>
     initiator_account t \<notin> set (info_purged_accounts (fst (get_mempool_info m)))"
| "sound_event EvRollback (m, Taken (TxL2 t)) \<longleftrightarrow> tx_nonce t \<noteq> - 1"
| "sound_event _ _ \<longleftrightarrow> True"

fun hand_ok :: "'x keeper_hand \<Rightarrow> 'x MempoolStore \<Rightarrow> bool" where
  "hand_ok (Taken (TxL2 t)) m \<longleftrightarrow>
     (\<exists>acc. map_of (l2_transactions_per_account m) (initiator_account t) = Some acc \<and>
            at_nonce acc = tx_nonce t + 1)"
| "hand_ok (Taken tx) m \<longleftrightarrow> \<not> is_upgrade tx"
| "hand_ok (RolledBack tx) m \<longleftrightarrow> \<not> is_upgrade tx"
| "hand_ok Free m \<longleftrightarrow> True"

definition mp_inv :: "'x MempoolStore \<times> 'x keeper_hand \<Rightarrow> bool" where
  "mp_inv = (\<lambda>(m, hand). mempool_inv m \<and> hand_ok hand m)"

lemma hand_ok_frame [simp]:
  "hand_ok hand (m\<lparr> l1_transactions := x \<rparr>) = hand_ok hand m"
  by (induction hand m rule: hand_ok.induct) simp_all

lemma at_insert_nonce: "at_nonce (snd (at_insert tx acc)) = at_nonce acc"
  by (simp add: at_insert_def Let_def)

lemma mp_insert_hand_ok:
  "hand_ok hand m \<Longrightarrow> mp_insert txs nonces m = Some m' \<Longrightarrow> hand_ok hand m'"
proof (induction txs nonces m rule: mp_insert.induct)
  case (3 tx txs nonces m)
  have "\<exists>acc'. map_of (l2_transactions_per_account (insert_l2_transaction tx nonces m)) a = Some acc' \<and> at_nonce acc' = n"
    if "map_of (l2_transactions_per_account m) a = Some acc" "at_nonce acc = n" for a acc n
    using that at_insert_nonce [of tx]
    by (auto simp: insert_l2_transaction_def Let_def AList.update_conv' split: option.splits prod.splits)
       (metis snd_conv)+
  then have "hand_ok hand (insert_l2_transaction tx nonces m)"
    using 3(2) by (induction hand m rule: hand_ok.induct) auto
  then show ?case using 3 by simp
qed auto

lemma mp_insert_total: "\<not> list_ex is_upgrade txs \<Longrightarrow> mp_insert txs nonces m \<noteq> None"
  by (induction txs nonces m rule: mp_insert.induct) simp_all

lemma next_transaction_hand_ok:
  assumes "mempool_inv m" "next_transaction flt m = Some (Some tx, m')"
  shows "hand_ok (Taken tx) m'"
proof (cases "map_of (l1_transactions m) (next_priority_id m)")
  case None
  then obtain p where p: "set_rfind (matches_filter flt) (l2_priority_queue m) = Some p"
    and nxt: "next_l2_transaction p m = Some (tx, m')"
    using assms(2) by (auto simp: next_transaction_def split: option.splits)
  have "p \<in> set (l2_priority_queue m)" and accts: "accounts_ok (l2_transactions_per_account m)"
    using set_rfind_Some [OF _ p] assms(1) by (auto simp: mempool_inv_def queue_ok_def)
  from assms(1) this(1) show ?thesis
  proof (rule next_l2_transaction_ok)
    fix acc t acc' q'
    assume *: "map_of (l2_transactions_per_account m) (ms_account p) = Some acc"
      "map_of (at_transactions acc) (at_nonce acc) = Some t" "score_for_transaction t = p"
      "at_nonce acc' = at_nonce acc + 1"
    and **: "next_l2_transaction p m = Some (TxL2 t,
       m\<lparr> l2_transactions_per_account := AList.update (ms_account p) acc' (stash_above p m),
          l2_priority_queue := q',
          stashed_accounts := stashed_accounts m @ map ms_account (higher p (l2_priority_queue m)),
          mp_size := total_len (AList.update (ms_account p) acc' (stash_above p m)) \<rparr>)"
    have "tx_nonce t = at_nonce acc" "initiator_account t = ms_account p"
      using acc_okD [OF accounts_okD [OF accts *(1)] *(2)] by auto
    then show ?thesis using nxt * ** by (auto simp: AList.update_conv')
  qed
next
  case (Some l1)
  then show ?thesis using assms by (auto simp: next_transaction_def)
qed

lemma next_transaction_total:
  assumes "mempool_inv m"
  shows "next_transaction flt m \<noteq> None"
proof (cases "set_rfind (matches_filter flt) (l2_priority_queue m)")
  case None
  then show ?thesis by (simp add: next_transaction_def split: option.split)
next
  case (Some p)
  have "p \<in> set (l2_priority_queue m)"
    using set_rfind_Some [OF _ Some] assms by (auto simp: mempool_inv_def queue_ok_def)
  from assms this have "next_l2_transaction p m \<noteq> None" by (rule next_l2_transaction_ok) simp
  then show ?thesis using Some by (auto simp: next_transaction_def split: option.split)
qed

lemma rollback_hand:
  assumes "mempool_inv m" "hand_ok (Taken tx) m" "sound_event EvRollback (m, Taken tx)"
  obtains m' where "rollback tx m = Some m'" "mempool_inv m'" "\<not> is_upgrade tx"
proof -
  have up: "\<not> is_upgrade tx" using assms(2) by (cases tx) auto
  have "just_taken tx m" using assms(2,3) by (cases tx) (auto simp: just_taken_def)
  moreover have "rollback tx m \<noteq> None"
    using assms(2) by (cases tx) (auto simp: rollback_def split: prod.splits)
  ultimately show thesis using that rollback_inv assms(1) up by blast
qed

lemma info_keeps_account:
  assumes "a \<notin> set (info_purged_accounts (fst (get_mempool_info m)))"
  shows "map_of (l2_transactions_per_account (snd (get_mempool_info m))) a = map_of (l2_transactions_per_account m) a"
proof (cases "map_of (l2_transactions_per_account m) a")
  case None
  then show ?thesis by (simp add: get_mempool_info_def gc_def Let_def map_of_filter_keys)
next
  case (Some acc)
  then show ?thesis
    using assms map_of_SomeD [OF Some]
    by (force simp: get_mempool_info_def gc_def Let_def map_of_filter_keys split: if_splits)
qed

lemma info_hand_ok:
  assumes "hand_ok hand m" "sound_event EvInfo (m, hand)"
  shows "hand_ok hand (snd (get_mempool_info m))"
  using assms by (induction hand m rule: hand_ok.induct) (auto simp: info_keeps_account)

lemma mp_step_sound:
  assumes "mp_inv (m, hand)" "sound_event e (m, hand)"
  shows "\<exists>s'. mp_step e (m, hand) = Some s' \<and> mp_inv s'"
proof -
  have inv: "mempool_inv m" "hand_ok hand m" using assms(1) by (simp_all add: mp_inv_def)
  show ?thesis
  proof (cases e)
    case (EvInsert txs nonces)
    then show ?thesis
      using mp_insert_total [of txs nonces m] mp_insert_inv mp_insert_hand_ok inv assms(2)
      by (fastforce simp: mp_inv_def)
  next
    case (EvNext flt)
    obtain r m' where "next_transaction flt m = Some (r, m')" using next_transaction_total [OF inv(1)] by fast
    then show ?thesis
      using EvNext next_transaction_inv next_transaction_hand_ok inv
      by (cases r) (auto simp: mp_inv_def)
  next
    case EvRollback
    then show ?thesis
      using rollback_hand [OF inv(1)] inv assms(2) by (cases hand) (fastforce simp: mp_inv_def)+
  next
    case EvReinsert
    then show ?thesis
      using mp_insert_total [of "[_]" Map.empty m] mp_insert_inv inv
      by (cases hand) (fastforce simp: mp_inv_def)+
  next
    case EvInfo
    then show ?thesis
      using info_hand_ok [OF inv(2)] get_mempool_info_inv [OF inv(1)] assms(2) by (simp add: mp_inv_def)
  qed
qed

interpretation mempool: total_machine mp_step sound_event
    "\<lambda>s. \<exists>first_id cap. s = (MempoolStore_new first_id cap, Free)" mp_inv
proof unfold_locales
  fix s :: "'x MempoolStore \<times> 'x keeper_hand"
  assume "\<exists>first_id cap. s = (MempoolStore_new first_id cap, Free)"
  then show "mp_inv s" by (auto simp: mp_inv_def MempoolStore_new_inv)
next
  fix s s' :: "'x MempoolStore \<times> 'x keeper_hand" and e
  assume "mp_inv s" "sound_event e s" "mp_step e s = Some s'"
  then show "mp_inv s'" using mp_step_sound by (cases s) fastforce
next
  fix s :: "'x MempoolStore \<times> 'x keeper_hand" and e
  assume "mp_inv s" "sound_event e s"
  then show "mp_step e s \<noteq> None" using mp_step_sound by (cases s) fastforce
qed

section \<open>Properties\<close>

text \<open>
  C12. The mempool does not panic. Let the fetcher and the state keeper call a new store in any order, any call
  between any two others, also between the rollback and the insertion of a transaction that is given back. Provided that no
  protocol upgrade is inserted, that no collection purges the account of the transaction that the state keeper holds and
  that no transaction with the last nonce is rolled back, every call returns: there is no dangling pointer, no missing
  transaction, no negative size and no missing account.
\<close>

theorem mempool_does_not_panic:
  assumes "run_ok mp_step sound_event es (MempoolStore_new first_id cap, Free)"
  shows "run_events mp_step es (MempoolStore_new first_id cap, Free) \<noteq> None"
  by (rule mempool.run_total [OF _ assms]) blast

definition plain_fee :: "u256 \<Rightarrow> Fee" where
  "plain_fee price = \<lparr> gas_limit = 100000, max_fee_per_gas = price, max_priority_fee_per_gas = 0,
     gas_per_pubdata_limit = 800 \<rparr>"

definition plain_tx :: "address \<Rightarrow> u32 \<Rightarrow> u256 \<Rightarrow> u64 \<Rightarrow> unit L2Tx" where
  "plain_tx a n price t = \<lparr> initiator_account = a, tx_nonce = n, tx_fee = plain_fee price,
     received_timestamp_ms = t, l2_payload = () \<rparr>"

definition plain_filter :: L2TxFilter where
  "plain_filter = \<lparr> fee_per_gas = 10, gas_per_pubdata = 100 \<rparr>"

text \<open>
  A run of a store of capacity one: a transaction is taken, a collection at capacity keeps its account, which has
  another transaction, and the first is given back and taken again.
\<close>

definition plain_run :: "unit mp_event list" where
  "plain_run =
     [EvInsert [TxL2 (plain_tx 1 0 50 7), TxL2 (plain_tx 2 0 5 6), TxL2 (plain_tx 1 1 50 9)] Map.empty,
      EvNext plain_filter, EvInfo, EvRollback, EvReinsert, EvNext plain_filter]"

theorem mempool_does_not_panic_witness:
  "run_ok mp_step sound_event plain_run (MempoolStore_new 0 1, Free) \<and>
   run_events mp_step plain_run (MempoolStore_new 0 1, Free) \<noteq> None"
proof -
  have "run_ok mp_step sound_event plain_run (MempoolStore_new 0 1, Free)" by code_simp
  then show ?thesis using mempool_does_not_panic [of plain_run 0 1] by simp
qed

text \<open>
  C13. After every run as in the previous property (the restrictions are those of \<open>sound_event\<close>: no protocol upgrade is inserted,
  no collection purges the account of the transaction that the state keeper holds, no transaction with the last nonce is
  rolled back) the priority queue holds exactly one pointer for every account whose next expected
  transaction is in the store, namely the score of that transaction, in strictly ascending order, and the
  reported number of L2 transactions is the number of transactions stored.
\<close>

theorem mempool_queue_is_exact:
  assumes "run_ok mp_step sound_event es (MempoolStore_new first_id cap, Free)"
    and "run_events mp_step es (MempoolStore_new first_id cap, Free) = Some (m, hand)"
  shows "sorted_wrt (<) (map score_key_of (l2_priority_queue m)) \<and>
     set (l2_priority_queue m) =
       {score_for_transaction tx | tx acc.
          map_of (l2_transactions_per_account m) (initiator_account tx) = Some acc \<and>
          map_of (at_transactions acc) (at_nonce acc) = Some tx} \<and>
     l2_transaction_count (stats m) =
       sum_list (map (\<lambda>(_, acc). length (at_transactions acc)) (l2_transactions_per_account m))"
proof -
  have "mempool_inv m" using mempool.run_inv [OF _ assms] by (auto simp: mp_inv_def)
  then have q: "wf_queue (l2_priority_queue m)"
    and mem: "\<And>s. s \<in> set (l2_priority_queue m) \<longleftrightarrow> (\<exists>acc.
        map_of (l2_transactions_per_account m) (ms_account s) = Some acc \<and> pointer_of acc = Some s)"
    and size: "mp_size m = total_len (l2_transactions_per_account m)"
    by (simp_all add: mempool_inv_def queue_ok_def)
  have "set (l2_priority_queue m) =
       {score_for_transaction tx | tx acc.
          map_of (l2_transactions_per_account m) (initiator_account tx) = Some acc \<and>
          map_of (at_transactions acc) (at_nonce acc) = Some tx}"
    using mem by (auto simp: pointer_of_def) blast
  then show ?thesis
    using q size by (simp add: wf_queue_def stats_def total_len_def at_len_def)
qed

theorem mempool_queue_is_exact_witness:
  "\<exists>m hand. run_events mp_step plain_run (MempoolStore_new 0 1, Free) = Some (m, hand) \<and>
     l2_transaction_count (stats m) = 1 \<and>
     sum_list (map (\<lambda>(_, acc). length (at_transactions acc)) (l2_transactions_per_account m)) = 1"
proof -
  have sound: "run_ok mp_step sound_event plain_run (MempoolStore_new 0 1, Free)" by code_simp
  have "map_option (l2_transaction_count \<circ> stats \<circ> fst)
      (run_events mp_step plain_run (MempoolStore_new 0 1, Free)) = Some 1"
    by code_simp
  then obtain m hand where run: "run_events mp_step plain_run (MempoolStore_new 0 1, Free) = Some (m, hand)"
    and "l2_transaction_count (stats m) = 1"
    by auto
  with mempool_queue_is_exact [OF sound run] show ?thesis by auto
qed

text \<open>
  C14. What is taken. A pending L1 transaction with the expected priority id comes first. Otherwise
  the transaction taken is the next one of its account, its fee meets the filter, and every pointer
  of higher priority fails the filter; the accounts of those pointers are the ones stashed. Nothing
  is taken only if no pointer meets the filter.
\<close>

theorem next_transaction_choice:
  assumes inv: "mempool_inv m" and run: "next_transaction flt m = Some (r, m')"
  shows "case map_of (l1_transactions m) (next_priority_id m) of
      Some l1 \<Rightarrow> r = Some (TxL1 l1)
    | None \<Rightarrow>
        (case r of
           Some (TxL2 tx) \<Rightarrow>
             (\<exists>acc. map_of (l2_transactions_per_account m) (initiator_account tx) = Some acc \<and>
                    map_of (at_transactions acc) (at_nonce acc) = Some tx) \<and>
             matches_filter flt (score_for_transaction tx) \<and>
             (\<forall>s\<in>set (l2_priority_queue m).
                score_key_of (score_for_transaction tx) < score_key_of s \<longrightarrow> \<not> matches_filter flt s) \<and>
             stashed_accounts m' = stashed_accounts m @
               map ms_account (filter (\<lambda>s. score_key_of (score_for_transaction tx) < score_key_of s)
                 (l2_priority_queue m))
         | None \<Rightarrow> (\<forall>s\<in>set (l2_priority_queue m). \<not> matches_filter flt s)
         | _ \<Rightarrow> False)"
proof (cases "map_of (l1_transactions m) (next_priority_id m)")
  case None
  have wf: "wf_queue (l2_priority_queue m)" using inv by (simp add: mempool_inv_def queue_ok_def)
  have accts: "accounts_ok (l2_transactions_per_account m)" using inv by (simp add: mempool_inv_def)
  show ?thesis
  proof (cases "set_rfind (matches_filter flt) (l2_priority_queue m)")
    case None': None
    then show ?thesis
      using run None set_rfind_None [THEN iffD1, OF None'] by (auto simp: next_transaction_def)
  next
    case (Some p)
    note found = set_rfind_Some [OF wf Some]
    from inv conjunct1 [OF found] show ?thesis
      by (rule next_l2_transaction_ok)
         (use run None Some found accts in \<open>auto simp: next_transaction_def higher_def\<close>)
  qed
next
  case (Some l1)
  then show ?thesis using run by (simp add: next_transaction_def)
qed

text \<open>A store with one account whose fee is too low and one whose fee is sufficient.\<close>

definition plain_store :: "unit MempoolStore" where
  "plain_store = insert_l2_transaction (plain_tx 2 0 5 6) Map.empty
     (insert_l2_transaction (plain_tx 1 1 50 9) Map.empty
     (insert_l2_transaction (plain_tx 1 0 50 7) Map.empty (MempoolStore_new 0 1)))"

lemma plain_store_inv: "mempool_inv plain_store"
  by (simp add: plain_store_def insert_l2_transaction_inv MempoolStore_new_inv)

theorem next_transaction_choice_witness:
  "\<exists>m'. next_transaction plain_filter plain_store = Some (Some (TxL2 (plain_tx 1 0 50 7)), m') \<and>
        matches_filter plain_filter (score_for_transaction (plain_tx 1 0 50 7)) \<and>
        stashed_accounts m' = [2]"
proof -
  have "map_option fst (next_transaction plain_filter plain_store) = Some (Some (TxL2 (plain_tx 1 0 50 7)))"
    by code_simp
  then obtain m' where run: "next_transaction plain_filter plain_store = Some (Some (TxL2 (plain_tx 1 0 50 7)), m')"
    by auto
  moreover have "map_of (l1_transactions plain_store) (next_priority_id plain_store) = None"
    "stashed_accounts plain_store @ map ms_account
       (filter (\<lambda>s. score_key_of (score_for_transaction (plain_tx 1 0 50 7)) < score_key_of s)
         (l2_priority_queue plain_store)) = [2]"
    by code_simp+
  ultimately show ?thesis
    using next_transaction_choice [OF plain_store_inv run] by simp
qed





definition account_view :: "'x MempoolStore \<Rightarrow> address \<Rightarrow> (u32 \<times> (u32 \<rightharpoonup> 'x L2Tx)) option" where
  "account_view m a = map_option (\<lambda>acc. (at_nonce acc, map_of (at_transactions acc)))
     (map_of (l2_transactions_per_account m) a)"




text \<open>
  Garbage collection: a store below capacity is left alone; at capacity exactly the accounts
  without a pointer in the queue are purged and every other account is untouched.
\<close>

theorem gc_purges_unpointed_accounts:
  assumes "mempool_inv m" "get_mempool_info m = (info, m')"
  shows "info_stashed_accounts info = stashed_accounts m \<and> stashed_accounts m' = [] \<and>
     l2_priority_queue m' = l2_priority_queue m \<and>
     set (info_purged_accounts info) =
       (if mp_capacity m \<le> mp_size m
        then {a. \<exists>acc. map_of (l2_transactions_per_account m) a = Some acc \<and>
                  map_of (at_transactions acc) (at_nonce acc) = None}
        else {}) \<and>
     (\<forall>a. account_view m' a =
        (if a \<in> set (info_purged_accounts info) then None else account_view m a))"
proof (cases "mp_capacity m \<le> mp_size m")
  case True
  let ?accts = "l2_transactions_per_account m" and ?Q = "ms_account ` set (l2_priority_queue m)"
  have q: "queue_ok ?accts (l2_priority_queue m)" and accts: "accounts_ok ?accts"
    using assms(1) by (simp_all add: mempool_inv_def)
  have pointed: "a \<in> ?Q \<longleftrightarrow> map_of (at_transactions acc) (at_nonce acc) \<noteq> None"
    if "map_of ?accts a = Some acc" for a acc
    using that q pointer_account [OF accounts_okD [OF accts that]]
    by (cases "map_of (at_transactions acc) (at_nonce acc)") (force simp: queue_ok_def pointer_of_def)+
  have "distinct (map fst ?accts)" using accts by (simp add: accounts_ok_def)
  then have "set (info_purged_accounts info) = {a. \<exists>acc. map_of ?accts a = Some acc \<and> a \<notin> ?Q}"
    using assms(2) True by (force simp: get_mempool_info_def gc_def Let_def)
  then have purged: "set (info_purged_accounts info) = {a. \<exists>acc. map_of ?accts a = Some acc \<and>
      map_of (at_transactions acc) (at_nonce acc) = None}"
    by (simp add: pointed cong: conj_cong del: image_iff)
  have "account_view m' a = (if a \<in> ?Q then account_view m a else None)" for a
    using assms(2) True
    by (auto simp: get_mempool_info_def gc_def Let_def account_view_def map_of_filter_keys)
  moreover have "a \<in> ?Q \<longleftrightarrow> a \<notin> set (info_purged_accounts info)" if present: "account_view m a \<noteq> None" for a
  proof -
    obtain acc where "map_of ?accts a = Some acc"
      using present by (cases "map_of ?accts a") (auto simp: account_view_def)
    then show ?thesis by (simp add: purged pointed del: image_iff)
  qed
  ultimately have "account_view m' a = (if a \<in> set (info_purged_accounts info) then None else account_view m a)" for a
    by (cases "account_view m a") auto
  then show ?thesis
    using purged True assms(2) by (auto simp: get_mempool_info_def gc_def Let_def)
next
  case False
  then show ?thesis using assms(2) by (auto simp: get_mempool_info_def gc_def account_view_def)
qed

definition gapped_store :: "unit MempoolStore" where
  "gapped_store = insert_l2_transaction (plain_tx 3 4 50 9) Map.empty plain_store"

theorem gc_purges_unpointed_accounts_witness:
  "\<exists>info m'. get_mempool_info gapped_store = (info, m') \<and> set (info_purged_accounts info) = {3} \<and>
     account_view m' 3 = None \<and> account_view m' 1 = account_view gapped_store 1"
proof -
  obtain info m' where run: "get_mempool_info gapped_store = (info, m')" by fastforce
  have "info_purged_accounts (fst (get_mempool_info gapped_store)) = [3]" by code_simp
  then have "info_purged_accounts info = [3]" using run by simp
  moreover have "mempool_inv gapped_store"
    by (simp add: gapped_store_def insert_l2_transaction_inv plain_store_inv)
  ultimately show ?thesis
    using gc_purges_unpointed_accounts [OF _ run] run by simp
qed

lemma rollback_panics_iff: "rollback (TxL2 t) m = None \<longleftrightarrow> account_view m (initiator_account t) = None"
  by (simp add: rollback_def account_view_def split: option.split prod.split)

text \<open>
  C16. When a collection breaks the rollback. A transaction that has just been taken can be rolled back. If the fetcher asks
  for the mempool info first, the rollback panics exactly if the store, without the transaction, is at
  its capacity and does not hold the following transaction of the account.
\<close>

theorem collection_breaks_rollback_iff:
  assumes inv: "mempool_inv m" and run: "next_transaction flt m = Some (Some (TxL2 t), m1)"
  shows "rollback (TxL2 t) m1 \<noteq> None \<and>
     (\<exists>txs. account_view m1 (initiator_account t) = Some (tx_nonce t + 1, txs) \<and>
        (rollback (TxL2 t) (snd (get_mempool_info m1)) = None \<longleftrightarrow>
           mp_capacity m1 \<le> mp_size m1 \<and> txs (tx_nonce t + 1) = None))"
proof -
  obtain acc where acc: "map_of (l2_transactions_per_account m1) (initiator_account t) = Some acc"
    "at_nonce acc = tx_nonce t + 1"
    using next_transaction_hand_ok [OF inv run] by auto
  then have view: "account_view m1 (initiator_account t) = Some (tx_nonce t + 1, map_of (at_transactions acc))"
    by (simp add: account_view_def)
  note gc = gc_purges_unpointed_accounts [OF next_transaction_inv [OF inv run] surjective_pairing]
  have "account_view (snd (get_mempool_info m1)) (initiator_account t) = None \<longleftrightarrow>
      mp_capacity m1 \<le> mp_size m1 \<and> map_of (at_transactions acc) (tx_nonce t + 1) = None"
    using gc acc view by auto
  then show ?thesis using view by (simp add: rollback_panics_iff)
qed

definition full_store :: "unit MempoolStore" where
  "full_store = insert_l2_transaction (plain_tx 2 0 50 8) Map.empty
     (insert_l2_transaction (plain_tx 1 0 50 7) Map.empty (MempoolStore_new 0 1))"

theorem collection_breaks_rollback_iff_witness:
  "\<exists>m1. next_transaction plain_filter full_store = Some (Some (TxL2 (plain_tx 1 0 50 7)), m1) \<and>
     rollback (TxL2 (plain_tx 1 0 50 7)) m1 \<noteq> None \<and>
     rollback (TxL2 (plain_tx 1 0 50 7)) (snd (get_mempool_info m1)) = None"
proof -
  have "map_option (\<lambda>(r, m1). (r, mp_capacity m1 \<le> mp_size m1,
        map_option (\<lambda>acc. map_of (at_transactions acc) 1) (map_of (l2_transactions_per_account m1) 1)))
      (next_transaction plain_filter full_store) =
    Some (Some (TxL2 (plain_tx 1 0 50 7)), True, Some None)"
    by code_simp
  then obtain m1 acc where run: "next_transaction plain_filter full_store = Some (Some (TxL2 (plain_tx 1 0 50 7)), m1)"
    and full: "mp_capacity m1 \<le> mp_size m1"
    and acc: "map_of (l2_transactions_per_account m1) 1 = Some acc" "map_of (at_transactions acc) 1 = None"
    by auto
  have "mempool_inv full_store"
    by (simp add: full_store_def insert_l2_transaction_inv MempoolStore_new_inv)
  from collection_breaks_rollback_iff [OF this run] show ?thesis
    using run full acc by (auto simp: account_view_def plain_tx_def)
qed

end
