(* ===== verification/MempoolService.thy ===== *)
theory MempoolService
  imports Mempool
begin

text \<open>
  No transaction starves in the mempool (\<^verbatim>\<open>core/lib/mempool/src/mempool_store.rs\<close>): the state keeper, which
  takes transactions one after the other (\<^verbatim>\<open>next_transaction\<close>), reaches each one that waits behind executable ones.
\<close>

section \<open>Waiting transactions\<close>

text \<open>
  A transaction waits under a filter if it and all the transactions before it are there: those of its account,
  from the expected nonce on, whose fees must meet the filter, or the priority operations from the next id on.
\<close>

fun waiting :: "L2TxFilter \<Rightarrow> 'x Transaction \<Rightarrow> 'x MempoolStore \<Rightarrow> bool" where
  "waiting flt (TxL1 tx) m \<longleftrightarrow>
     map_of (l1_transactions m) (serial_id tx) = Some tx \<and> next_priority_id m \<le> serial_id tx \<and>
     (\<forall>id. next_priority_id m \<le> id \<and> id \<le> serial_id tx \<longrightarrow> map_of (l1_transactions m) id \<noteq> None)"
| "waiting flt (TxL2 tx) m \<longleftrightarrow>
     (\<exists>acc. map_of (l2_transactions_per_account m) (initiator_account tx) = Some acc \<and>
        map_of (at_transactions acc) (tx_nonce tx) = Some tx \<and>
        (\<forall>n. at_nonce acc \<le> n \<and> n \<le> tx_nonce tx \<longrightarrow>
           (\<exists>t. map_of (at_transactions acc) n = Some t \<and> matches_filter flt (score_for_transaction t))))"
| "waiting flt (TxProtocolUpgrade _) m \<longleftrightarrow> False"

text \<open>The transactions taken by up to \<open>n\<close> calls, until nothing is taken.\<close>

fun take_all :: "L2TxFilter \<Rightarrow> nat \<Rightarrow> 'x MempoolStore \<Rightarrow> ('x Transaction list \<times> 'x MempoolStore) option" where
  "take_all flt 0 m = Some ([], m)"
| "take_all flt (Suc n) m =
     (case next_transaction flt m of
        None \<Rightarrow> None
      | Some (None, m') \<Rightarrow> Some ([], m')
      | Some (Some tx, m') \<Rightarrow> map_option (\<lambda>(txs, m''). (tx # txs, m'')) (take_all flt n m'))"

definition tx_count :: "'x MempoolStore \<Rightarrow> nat" where
  "tx_count m = l1_transaction_count (stats m) + l2_transaction_count (stats m)"

section \<open>Progress\<close>

lemma after_next: "a < b \<Longrightarrow> a + 1 \<le> c \<Longrightarrow> a < (c :: 'a :: len word)"
  using unat_Suc_less [of a b] by (simp add: word_less_nat_alt word_le_nat_alt)

lemma stash_pointers_size:
  "stash_pointers ps removed m = Some (removed', m') \<Longrightarrow> mp_size m' = mp_size m \<and> l1_transactions m' = l1_transactions m"
  by (induction ps removed m rule: stash_pointers.induct) (auto split: option.splits)

lemma next_l2_transaction_size:
  "next_l2_transaction p m = Some (t, m') \<Longrightarrow> mp_size m' < mp_size m \<and> l1_transactions m' = l1_transactions m"
  by (auto simp: next_l2_transaction_def Let_def split: prod.splits option.splits if_splits dest!: stash_pointers_size)

lemma alist_delete_shorter: "map_of xs k = Some v \<Longrightarrow> length (AList.delete k xs) < length xs"
  by (auto simp: AList.delete_eq dest!: map_of_SomeD intro!: length_filter_less)

lemma next_transaction_count:
  assumes "next_transaction flt m = Some (Some t, m')"
  shows "tx_count m' < tx_count m"
  using assms
  by (auto simp: next_transaction_def tx_count_def stats_def alist_delete_shorter split: option.splits
      dest!: next_l2_transaction_size)

lemma waiting_L1:
  "waiting flt (TxL1 tx) m \<Longrightarrow> next_priority_id m \<le> serial_id tx \<and> map_of (l1_transactions m) (serial_id tx) = Some tx"
  by simp

lemma waiting_L1_step:
  assumes "waiting flt (TxL1 tx) m"
  shows "\<exists>t m'. next_transaction flt m = Some (Some t, m') \<and> (t = TxL1 tx \<or> waiting flt (TxL1 tx) m')"
proof -
  let ?id = "next_priority_id m"
  obtain l1 where l1: "map_of (l1_transactions m) ?id = Some l1" using assms by auto
  have "waiting flt (TxL1 tx) (m\<lparr> l1_transactions := AList.delete ?id (l1_transactions m), next_priority_id := ?id + 1 \<rparr>)"
    if "?id < serial_id tx"
  proof -
    have "?id + 1 \<le> serial_id tx" using that by (simp add: inc_le)
    moreover have "?id < id" if "?id + 1 \<le> id" for id
      using after_next [OF \<open>?id < serial_id tx\<close> that] .
    moreover have "serial_id tx \<noteq> ?id" using that by auto
    ultimately show ?thesis using assms by (auto simp: AList.delete_conv' dest: order_less_imp_le)
  qed
  then show ?thesis
    using l1 assms
    by (cases "?id = serial_id tx") (auto simp: next_transaction_def order_less_le simp del: waiting.simps(1) dest: waiting_L1)
qed

lemma waiting_L2_pointer:
  assumes inv: "mempool_inv m" and w: "waiting flt (TxL2 tx) m"
  obtains acc t where "map_of (l2_transactions_per_account m) (initiator_account tx) = Some acc"
    "map_of (at_transactions acc) (tx_nonce tx) = Some tx"
    "map_of (at_transactions acc) (at_nonce acc) = Some t" "score_for_transaction t \<in> set (l2_priority_queue m)"
    "matches_filter flt (score_for_transaction t)" "at_nonce acc \<le> tx_nonce tx"
    "ms_account (score_for_transaction t) = initiator_account tx"
proof -
  obtain acc where acc: "map_of (l2_transactions_per_account m) (initiator_account tx) = Some acc"
    "map_of (at_transactions acc) (tx_nonce tx) = Some tx"
    "\<And>n. at_nonce acc \<le> n \<Longrightarrow> n \<le> tx_nonce tx \<Longrightarrow>
       \<exists>t. map_of (at_transactions acc) n = Some t \<and> matches_filter flt (score_for_transaction t)"
    using w by auto
  have ok: "acc_ok (initiator_account tx) acc" using inv acc(1) accounts_okD by (auto simp: mempool_inv_def)
  then have le: "at_nonce acc \<le> tx_nonce tx" using map_of_SomeD [OF acc(2)] by (fastforce simp: acc_ok_def)
  obtain t where t: "map_of (at_transactions acc) (at_nonce acc) = Some t" "matches_filter flt (score_for_transaction t)"
    using acc(3) [OF order_refl le] by blast
  then have ptr: "pointer_of acc = Some (score_for_transaction t)" by (simp add: pointer_of_def)
  note account = pointer_account [OF ok ptr]
  then have "score_for_transaction t \<in> set (l2_priority_queue m)"
    using inv acc(1) ptr by (auto simp: mempool_inv_def queue_ok_def)
  then show thesis using that acc(1,2) t le account by blast
qed

lemma waiting_L2_step:
  assumes inv: "mempool_inv m" and w: "waiting flt (TxL2 tx) m"
  shows "\<exists>t m'. next_transaction flt m = Some (Some t, m') \<and> (t = TxL2 tx \<or> waiting flt (TxL2 tx) m')"
proof (cases "map_of (l1_transactions m) (next_priority_id m)")
  case (Some l1)
  then show ?thesis using w by (simp add: next_transaction_def)
next
  case None
  let ?a = "initiator_account tx"
  obtain acc t where acc: "map_of (l2_transactions_per_account m) ?a = Some acc" "map_of (at_transactions acc) (tx_nonce tx) = Some tx"
    and t: "map_of (at_transactions acc) (at_nonce acc) = Some t" "score_for_transaction t \<in> set (l2_priority_queue m)"
      "matches_filter flt (score_for_transaction t)" "ms_account (score_for_transaction t) = ?a"
    and le: "at_nonce acc \<le> tx_nonce tx"
    by (rule waiting_L2_pointer [OF inv w])
  have q: "queue_ok (l2_transactions_per_account m) (l2_priority_queue m)" using inv by (simp add: mempool_inv_def)
  obtain p where p: "set_rfind (matches_filter flt) (l2_priority_queue m) = Some p"
    using t(2,3) set_rfind_None by (metis not_None_eq)
  have found: "p \<in> set (l2_priority_queue m)" "matches_filter flt p"
    "\<And>s. s \<in> set (l2_priority_queue m) \<Longrightarrow> score_key_of p < score_key_of s \<Longrightarrow> \<not> matches_filter flt s"
    using set_rfind_Some [OF _ p] q by (auto simp: queue_ok_def)
  have run: "next_transaction flt m = map_option (\<lambda>(tx, m'). (Some tx, m')) (next_l2_transaction p m)"
    using None p by (simp add: next_transaction_def)
  have not_stashed: "?a \<notin> ms_account ` set (higher p (l2_priority_queue m))"
  proof
    assume "?a \<in> ms_account ` set (higher p (l2_priority_queue m))"
    then obtain s where s: "s \<in> set (l2_priority_queue m)" "score_key_of p < score_key_of s" "ms_account s = ?a"
      by (auto simp: higher_def)
    then have "s = score_for_transaction t" using q acc(1) t(1) by (auto simp: queue_ok_def pointer_of_def)
    then show False using found(3) [OF s(1,2)] t(3) by simp
  qed
  then have kept: "map_of (stash_above p m) ?a = Some acc" using acc(1) by (simp add: stash_above_def map_of_filter_keys)
  show ?thesis
  proof (rule next_l2_transaction_ok [OF inv found(1)], goal_cases)
    case (1 acc1 tx1 acc' q')
    show ?case
    proof (cases "ms_account p = ?a")
      case True
      then have same: "acc1 = acc" "tx1 = t" using 1(1,2) acc(1) t(1) by auto
      have "at_nonce acc + 1 \<le> tx_nonce tx" if "tx_nonce tx \<noteq> at_nonce acc" using le that by (simp add: inc_le order_less_le)
      moreover have "at_nonce acc < n" if "at_nonce acc + 1 \<le> n" "tx_nonce tx \<noteq> at_nonce acc" for n
        using after_next [of "at_nonce acc" "tx_nonce tx" n] that le by simp
      ultimately have "tx1 = tx \<or> waiting flt (TxL2 tx) (m\<lparr> l2_transactions_per_account := AList.update ?a acc' (stash_above p m),
          l2_priority_queue := q', stashed_accounts := st, mp_size := sz \<rparr>)" for st sz
        using 1(4,5) same acc w t(1) by (cases "tx_nonce tx = at_nonce acc") (auto simp: AList.update_conv' dest: order_less_imp_le)
      then show ?thesis using 1(8) True by (auto simp: run)
    next
      case False
      then have "waiting flt (TxL2 tx) (m\<lparr> l2_transactions_per_account := AList.update (ms_account p) acc' (stash_above p m),
          l2_priority_queue := q', stashed_accounts := st, mp_size := sz \<rparr>)" for st sz
        using kept acc w by (auto simp: AList.update_conv')
      then show ?thesis using 1(8) by (simp add: run)
    qed
  qed
qed

lemma waiting_step:
  assumes "mempool_inv m" "waiting flt tx m"
  obtains t m' where "next_transaction flt m = Some (Some t, m')" "t = tx \<or> waiting flt tx m'" "mempool_inv m'"
    "tx_count m' < tx_count m"
proof -
  have "\<exists>t m'. next_transaction flt m = Some (Some t, m') \<and> (t = tx \<or> waiting flt tx m')"
    using assms waiting_L1_step [of flt _ m] waiting_L2_step [OF assms(1)]
    by (cases tx) (auto simp del: waiting.simps(1,2))
  then show thesis using that next_transaction_inv [OF assms(1)] next_transaction_count by metis
qed

lemma take_all_total: "mempool_inv m \<Longrightarrow> take_all flt n m \<noteq> None"
proof (induction n arbitrary: m)
  case (Suc n)
  obtain r m1 where step: "next_transaction flt m = Some (r, m1)"
    using next_transaction_total [OF Suc.prems] by fast
  then show ?case
    using Suc.IH [OF next_transaction_inv [OF Suc.prems step]] by (auto split: option.splits)
qed simp

lemma waiting_is_taken:
  "mempool_inv m \<Longrightarrow> waiting flt tx m \<Longrightarrow> tx_count m \<le> n \<Longrightarrow> \<exists>txs m'. take_all flt n m = Some (txs, m') \<and> tx \<in> set txs"
proof (induction n arbitrary: m)
  case 0
  then show ?case using waiting_step [OF 0(1,2)] by (metis le_zero_eq not_less_zero)
next
  case (Suc n)
  obtain t m1 where step: "next_transaction flt m = Some (Some t, m1)" "t = tx \<or> waiting flt tx m1" "mempool_inv m1"
    "tx_count m1 < tx_count m"
    by (rule waiting_step [OF Suc.prems(1,2)])
  obtain txs m' where rest: "take_all flt n m1 = Some (txs, m')" using take_all_total [OF step(3)] by fast
  moreover have "tx \<in> set txs" if "t \<noteq> tx"
    using Suc.IH [OF step(3)] step(2,4) Suc.prems(3) that rest by (metis Pair_inject less_Suc_eq_le option.inject order_less_le_trans)
  ultimately show ?case using step(1) by auto
qed

text \<open>
  C17. No starvation. After every run of the fetcher and the state keeper on a new store that inserts no protocol upgrade, purges no
  account of a transaction that the state keeper holds and rolls back no transaction with the last nonce (\<open>sound_event\<close>),
  a transaction that waits, that is, one that is preceded by nothing but present transactions with sufficient fees, is taken
  after at most as many calls of \<open>next_transaction\<close> as the store counts transactions, whatever other accounts it
  holds and whichever of them are stashed on the way.
\<close>

theorem waiting_transaction_is_served:
  assumes "run_ok mp_step sound_event es (MempoolStore_new first_id cap, Free)"
    and "run_events mp_step es (MempoolStore_new first_id cap, Free) = Some (m, hand)" "waiting flt tx m"
  shows "\<exists>txs m'. take_all flt (tx_count m) m = Some (txs, m') \<and> tx \<in> set txs"
proof -
  have "mp_inv (m, hand)" using mempool.run_inv [OF _ assms(1,2)] by blast
  then show ?thesis using waiting_is_taken [OF _ assms(3) order_refl] by (simp add: mp_inv_def)
qed

text \<open>An account with two transactions, and one with a higher priority whose fee is too low.\<close>

definition service_run :: "unit mp_event list" where
  "service_run =
     [EvInsert [TxL2 (plain_tx 1 0 50 7), TxL2 (plain_tx 2 0 5 6), TxL2 (plain_tx 1 1 50 9)] Map.empty]"

theorem waiting_transaction_is_served_witness:
  "\<exists>m txs m'. run_events mp_step service_run (MempoolStore_new 0 100, Free) = Some (m, Free) \<and>
     take_all plain_filter (tx_count m) m = Some (txs, m') \<and> TxL2 (plain_tx 1 1 50 9) \<in> set txs"
proof -
  have "map_option (\<lambda>(m, hand). (hand, map_option (\<lambda>acc. (at_nonce acc, map_of (at_transactions acc) 0, map_of (at_transactions acc) 1))
      (map_of (l2_transactions_per_account m) 1))) (run_events mp_step service_run (MempoolStore_new 0 100, Free)) =
      Some (Free, Some (0, Some (plain_tx 1 0 50 7), Some (plain_tx 1 1 50 9)))"
    by code_simp
  then obtain m acc where run: "run_events mp_step service_run (MempoolStore_new 0 100, Free) = Some (m, Free)"
    and acc: "map_of (l2_transactions_per_account m) 1 = Some acc" "at_nonce acc = 0"
      "map_of (at_transactions acc) 0 = Some (plain_tx 1 0 50 7)" "map_of (at_transactions acc) 1 = Some (plain_tx 1 1 50 9)"
    by auto
  have low: "n = 0 \<or> n = 1" if "n \<le> 1" for n :: u32
    using that by (auto simp: word_le_nat_alt word_unat_eq_iff le_Suc_eq)
  have fee: "matches_filter plain_filter (score_for_transaction (plain_tx 1 k 50 t))" for k t
    by (simp add: matches_filter_def plain_filter_def plain_tx_def plain_fee_def score_for_transaction_def)
  have "\<exists>t. map_of (at_transactions acc) n = Some t \<and> matches_filter plain_filter (score_for_transaction t)" if "n \<le> 1" for n
    using low [OF that] acc(3,4) fee by auto
  then have "waiting plain_filter (TxL2 (plain_tx 1 1 50 9)) m" using acc by (simp add: plain_tx_def)
  moreover have "run_ok mp_step sound_event service_run (MempoolStore_new 0 100, Free)" by code_simp
  ultimately show ?thesis using waiting_transaction_is_served [OF _ run] run by blast
qed

end
