(* ===== verification/Floats.thy ===== *)
theory Floats
  imports Complex_Main Bytes
begin

text \<open>
  The arithmetic of \<open>f32\<close> and \<open>f64\<close> that the components use. A finite floating point number is the
  rational it denotes; an operation computes the exact result and rounds it to the nearest number
  with 24 or 53 significant bits, ties to even. Infinities, NaN and the subnormal range are outside
  of the model: the numbers are configured percentages and counters of circuits. Casts to integers
  saturate, \<open>round\<close> rounds half away from zero.
\<close>

type_synonym f32 = rat
type_synonym f64 = rat

definition round_half_even :: "rat \<Rightarrow> int" where
  "round_half_even m =
     (let f = \<lfloor>m\<rfloor>; d = m - of_int f
      in if d < 1 / 2 then f else if d > 1 / 2 then f + 1 else if even f then f else f + 1)"

text \<open>The largest \<open>k\<close> with \<open>2 ^ k \<le> q\<close>, for a positive \<open>q\<close>.\<close>

definition floor_log2 :: "rat \<Rightarrow> int" where
  "floor_log2 q =
     (let (a, b) = quotient_of q; k = int (bit_length (nat a)) - int (bit_length (nat b))
      in if 2 powi k \<le> q then k else k - 1)"

definition fl_round :: "nat \<Rightarrow> rat \<Rightarrow> rat" where
  "fl_round p q =
     (if q = 0 then 0
      else let e = floor_log2 \<bar>q\<bar> - int p + 1
           in sgn q * of_int (round_half_even (\<bar>q\<bar> / 2 powi e)) * 2 powi e)"

definition f32_add :: "f32 \<Rightarrow> f32 \<Rightarrow> f32" where
  "f32_add x y = fl_round 24 (x + y)"

definition f64_mul :: "f64 \<Rightarrow> f64 \<Rightarrow> f64" where
  "f64_mul x y = fl_round 53 (x * y)"

definition f64_of_nat :: "nat \<Rightarrow> f64" where
  "f64_of_nat n = fl_round 53 (of_nat n)"

definition fl_half_away :: "rat \<Rightarrow> int" where
  "fl_half_away x = (if x \<ge> 0 then \<lfloor>x + 1 / 2\<rfloor> else - \<lfloor>- x + 1 / 2\<rfloor>)"

definition as_uint :: "nat \<Rightarrow> int \<Rightarrow> nat" where
  "as_uint w x = nat (min x (2 ^ w - 1))"

text \<open>\<open>(n as f64 * percentage).round() as uN\<close>.\<close>

definition scaled :: "nat \<Rightarrow> nat \<Rightarrow> f64 \<Rightarrow> nat" where
  "scaled w n percentage = as_uint w (fl_half_away (f64_mul (f64_of_nat n) percentage))"

definition f32_ceil :: "f32 \<Rightarrow> nat" where
  "f32_ceil x = as_uint 64 \<lceil>x\<rceil>"

text \<open>A number with at most \<open>p\<close> significant bits.\<close>

definition representable :: "nat \<Rightarrow> rat \<Rightarrow> bool" where
  "representable p x \<longleftrightarrow> (\<exists>m e. x = of_int m * 2 powi e \<and> \<bar>m\<bar> < 2 ^ p)"

section \<open>Lemmas\<close>

lemma round_half_even_le: "m \<le> of_int n \<Longrightarrow> round_half_even m \<le> n"
  unfolding round_half_even_def Let_def by (simp, linarith)

lemma round_half_even_of_int [simp]: "round_half_even (of_int n) = n"
  by (simp add: round_half_even_def)


lemma pow_bit_length_le: "n > 0 \<Longrightarrow> 2 ^ (bit_length n - 1) \<le> n"
proof -
  assume "n > 0"
  then have pos: "bit_length n > 0" by (subst bit_length.simps) simp
  have "\<not> n < 2 ^ (bit_length n - 1)" using bit_length_le [of n "bit_length n - 1"] pos by auto
  then show ?thesis by simp
qed

lemma floor_log2_le:
  assumes "q > 0"
  shows "2 powi floor_log2 q \<le> q"
proof -
  obtain a b where ab: "quotient_of q = (a, b)" by (cases "quotient_of q")
  then have b: "b > 0" and q: "q = of_int a / of_int b"
    by (auto dest: quotient_of_denom_pos quotient_of_div)
  then have a: "a > 0" using assms by (simp add: zero_less_divide_iff)
  define la lb where "la = bit_length (nat a)" and "lb = bit_length (nat b)"
  have la: "la > 0" unfolding la_def using a by (subst bit_length.simps) simp
  have "(of_nat (2 ^ (la - 1)) :: rat) \<le> of_nat (nat a)"
    using pow_bit_length_le [of "nat a"] a unfolding la_def by (simp only: of_nat_le_iff)
  then have A: "(2 :: rat) ^ (la - 1) \<le> of_int a" using a by simp
  have "(of_nat (nat b) :: rat) \<le> of_nat (2 ^ lb)"
    using less_bit_length [of "nat b"] unfolding lb_def by (simp only: of_nat_le_iff)
  then have B: "of_int b \<le> (2 :: rat) ^ lb" using b by simp
  have "(2 :: rat) powi (int la - int lb - 1) = 2 ^ (la - 1) / 2 ^ lb"
    using la by (simp add: power_int_diff power_int_minus of_nat_diff flip: power_int_of_nat)
  also have "\<dots> \<le> of_int a / of_int b" using A B b a by (intro frac_le) simp_all
  finally have "2 powi (int la - int lb - 1) \<le> q" using q by simp
  then show ?thesis by (simp add: floor_log2_def ab Let_def la_def lb_def)
qed

lemma fl_round_le:
  assumes "0 \<le> q" "q \<le> of_nat n" "n < 2 ^ p"
  shows "fl_round p q \<le> of_nat n"
proof (cases "q = 0")
  case False
  define e where "e = floor_log2 q - int p + 1"
  have q: "q > 0" using False assms(1) by simp
  have "\<not> e > 0"
  proof
    assume "e > 0"
    then have "(2 :: rat) powi int p \<le> 2 powi floor_log2 q"
      by (intro power_int_increasing) (simp_all add: e_def)
    also have "\<dots> \<le> q" by (rule floor_log2_le [OF q])
    also have "\<dots> \<le> of_nat n" by (rule assms)
    finally have "(of_nat (2 ^ p) :: rat) \<le> of_nat n" by simp
    then show False using assms(3) by (simp only: of_nat_le_iff)
  qed
  then have e: "(2 :: rat) powi e = 1 / of_int (2 ^ nat (- e))"
    by (simp add: power_int_def inverse_eq_divide power_one_over)
  have "q / 2 powi e \<le> of_int (int n * 2 ^ nat (- e))"
    using assms(2) e by (simp add: mult_right_mono)
  then have "round_half_even (q / 2 powi e) \<le> int n * 2 ^ nat (- e)" by (rule round_half_even_le)
  then have "(of_int (round_half_even (q / 2 powi e)) :: rat) \<le> of_int (int n * 2 ^ nat (- e))"
    by (simp only: of_int_le_iff)
  then have "of_int (round_half_even (q / 2 powi e)) * 2 powi e \<le> (of_nat n :: rat)"
    using e by (simp add: divide_le_eq)
  then show ?thesis using q by (simp add: fl_round_def Let_def e_def)
qed (simp add: fl_round_def)

lemma fl_round_representable [simp]:
  assumes "representable p x"
  shows "fl_round p x = x"
proof (cases "x = 0")
  case False
  obtain m f where x: "x = of_int m * 2 powi f" and m: "\<bar>m\<bar> < 2 ^ p"
    using assms by (auto simp: representable_def)
  define e where "e = floor_log2 \<bar>x\<bar> - int p + 1"
  have ax: "\<bar>x\<bar> = of_int \<bar>m\<bar> * 2 powi f" unfolding x by (simp add: abs_mult)
  have "\<not> f < e"
  proof
    assume "f < e"
    then have "(2 :: rat) powi (int p + f) \<le> 2 powi floor_log2 \<bar>x\<bar>"
      by (intro power_int_increasing) (simp_all add: e_def)
    also have "\<dots> \<le> of_int \<bar>m\<bar> * 2 powi f" using floor_log2_le [of "\<bar>x\<bar>"] False ax by simp
    finally have "(of_int (2 ^ p) :: rat) \<le> of_int \<bar>m\<bar>" by (simp add: power_int_add)
    then show False using m by (simp only: of_int_le_iff)
  qed
  then have "(2 :: rat) powi f = of_int (2 ^ nat (f - e)) * 2 powi e"
    by (simp add: power_int_add [symmetric] flip: power_int_of_nat)
  then have "\<bar>x\<bar> = of_int (\<bar>m\<bar> * 2 ^ nat (f - e)) * 2 powi e" by (simp add: ax)
  then have "\<bar>x\<bar> / 2 powi e = of_int (\<bar>m\<bar> * 2 ^ nat (f - e))" by simp
  then have "of_int (round_half_even (\<bar>x\<bar> / 2 powi e)) * 2 powi e = \<bar>x\<bar>"
    by (metis round_half_even_of_int nonzero_divide_eq_eq power_int_eq_0_iff zero_neq_numeral)
  then have "fl_round p x = sgn x * \<bar>x\<bar>"
    using False by (simp add: fl_round_def Let_def e_def mult.assoc)
  then show ?thesis by (simp add: sgn_mult_abs)
qed (simp add: fl_round_def)

lemma representable_of_nat: "n < 2 ^ p \<Longrightarrow> representable p (of_nat n)"
  unfolding representable_def by (intro exI [of _ "int n"] exI [of _ 0]) (simp flip: of_nat_less_iff)

lemma representable_0 [simp]: "representable p 0"
  unfolding representable_def by (intro exI [of _ 0]) simp

lemma f32_add_0 [simp]: "representable 24 x \<Longrightarrow> f32_add x 0 = x"
  by (simp add: f32_add_def)

lemma f32_0_add [simp]: "representable 24 x \<Longrightarrow> f32_add 0 x = x"
  by (simp add: f32_add_def)

lemma scaled_le:
  assumes "0 \<le> percentage" "percentage \<le> 1" "n < 2 ^ 53"
  shows "scaled w n percentage \<le> n"
proof -
  have n: "f64_of_nat n = of_nat n"
    using representable_of_nat [OF assms(3)] by (simp add: f64_of_nat_def)
  have "0 \<le> of_nat n * percentage" "of_nat n * percentage \<le> of_nat n"
    using assms by (simp_all add: mult_left_le)
  then have "f64_mul (f64_of_nat n) percentage \<le> of_nat n"
    using fl_round_le assms(3) by (simp add: f64_mul_def n)
  then have "fl_half_away (f64_mul (f64_of_nat n) percentage) \<le> int n"
    unfolding fl_half_away_def by (auto simp: floor_le_iff) linarith
  then show ?thesis unfolding scaled_def as_uint_def by linarith
qed


lemma scaled_1 [simp]:
  assumes "n < 2 ^ 53" "n < 2 ^ w"
  shows "scaled w n 1 = n"
proof -
  have n: "f64_of_nat n = of_nat n" "fl_round 53 (of_nat n) = of_nat n"
    using representable_of_nat [OF assms(1)] by (simp_all add: f64_of_nat_def)
  have "fl_half_away (f64_mul (f64_of_nat n) 1) = int n"
    by (simp add: f64_mul_def n fl_half_away_def floor_eq_iff)
  moreover have "int n \<le> 2 ^ w - 1" using assms(2) by (simp flip: of_nat_less_iff)
  ultimately show ?thesis by (simp add: scaled_def as_uint_def)
qed

lemma f32_ceil_0 [simp]: "f32_ceil 0 = 0"
  by (simp add: f32_ceil_def as_uint_def)

end
