(* ===== verification/ProtocolVersions.thy ===== *)
theory ProtocolVersions
  imports Prelude
begin

text \<open>
  Protocol versions: \<^verbatim>\<open>core/lib/basic_types/src/protocol_version.rs\<close> and
  \<^verbatim>\<open>core/lib/basic_types/src/vm_version.rs\<close>. The identifiers with their order and predicates, the VM
  each one runs on, the packed and the textual form of a semantic version and their parsers.
  Strings are lists of characters; \<open>str::parse\<close> of the unsigned types is \<open>parse_uint\<close>.
\<close>

unbundle bit_operations_syntax

section \<open>Version identifiers\<close>

datatype ProtocolVersionId =
    Version0 | Version1 | Version2 | Version3 | Version4 | Version5 | Version6
  | Version7 | Version8 | Version9 | Version10 | Version11 | Version12 | Version13
  | Version14 | Version15 | Version16 | Version17 | Version18 | Version19 | Version20
  | Version21 | Version22 | Version23 | Version24 | Version25

datatype VmVersion =
    M5WithoutRefunds | M5WithRefunds | M6Initial | M6BugWithCompressionFixed | Vm1_3_2
  | VmVirtualBlocks | VmVirtualBlocksRefundsEnhancement | VmBoojumIntegration | Vm1_4_1 | Vm1_4_2
  | Vm1_5_0SmallBootloaderMemory | Vm1_5_0IncreasedBootloaderMemory

definition all_versions :: "ProtocolVersionId list" where
  "all_versions =
     [Version0, Version1, Version2, Version3, Version4, Version5, Version6,
      Version7, Version8, Version9, Version10, Version11, Version12, Version13,
      Version14, Version15, Version16, Version17, Version18, Version19, Version20,
      Version21, Version22, Version23, Version24, Version25]"

text \<open>\<open>self as u16\<close>: the discriminants of the enumeration.\<close>

fun version_u16 :: "ProtocolVersionId \<Rightarrow> u16" where
  "version_u16 Version0 = 0"
| "version_u16 Version1 = 1"
| "version_u16 Version2 = 2"
| "version_u16 Version3 = 3"
| "version_u16 Version4 = 4"
| "version_u16 Version5 = 5"
| "version_u16 Version6 = 6"
| "version_u16 Version7 = 7"
| "version_u16 Version8 = 8"
| "version_u16 Version9 = 9"
| "version_u16 Version10 = 10"
| "version_u16 Version11 = 11"
| "version_u16 Version12 = 12"
| "version_u16 Version13 = 13"
| "version_u16 Version14 = 14"
| "version_u16 Version15 = 15"
| "version_u16 Version16 = 16"
| "version_u16 Version17 = 17"
| "version_u16 Version18 = 18"
| "version_u16 Version19 = 19"
| "version_u16 Version20 = 20"
| "version_u16 Version21 = 21"
| "version_u16 Version22 = 22"
| "version_u16 Version23 = 23"
| "version_u16 Version24 = 24"
| "version_u16 Version25 = 25"

text \<open>\<open>TryFromPrimitive\<close> is the partial inverse of the discriminant.\<close>

definition version_of_u16 :: "u16 \<Rightarrow> ProtocolVersionId option" where
  "version_of_u16 n = List.find (\<lambda>v. version_u16 v = n) all_versions"

instantiation ProtocolVersionId :: linorder
begin

definition less_eq_ProtocolVersionId :: "ProtocolVersionId \<Rightarrow> ProtocolVersionId \<Rightarrow> bool" where
  "less_eq_ProtocolVersionId a b \<longleftrightarrow> version_u16 a \<le> version_u16 b"

definition less_ProtocolVersionId :: "ProtocolVersionId \<Rightarrow> ProtocolVersionId \<Rightarrow> bool" where
  "less_ProtocolVersionId a b \<longleftrightarrow> version_u16 a < version_u16 b"

instance
proof
  fix a b :: ProtocolVersionId
  assume "a \<le> b" "b \<le> a"
  then have "version_u16 a = version_u16 b" by (simp add: less_eq_ProtocolVersionId_def)
  moreover have "version_of_u16 (version_u16 v) = Some v" for v
    by (cases v) (simp_all add: version_of_u16_def all_versions_def)
  ultimately show "a = b" by (metis option.inject)
qed (auto simp: less_eq_ProtocolVersionId_def less_ProtocolVersionId_def)

end

definition latest :: ProtocolVersionId where "latest = Version24"

definition next_version :: ProtocolVersionId where "next_version = Version25"

definition last_potentially_undefined :: ProtocolVersionId where
  "last_potentially_undefined = Version9"

definition is_pre_boojum :: "ProtocolVersionId \<Rightarrow> bool" where
  "is_pre_boojum v \<longleftrightarrow> v \<le> Version17"

definition is_pre_shared_bridge :: "ProtocolVersionId \<Rightarrow> bool" where
  "is_pre_shared_bridge v \<longleftrightarrow> v \<le> Version22"

definition is_1_4_0 :: "ProtocolVersionId \<Rightarrow> bool" where
  "is_1_4_0 v \<longleftrightarrow> v \<ge> Version18 \<and> v < Version20"

definition is_1_4_1 :: "ProtocolVersionId \<Rightarrow> bool" where
  "is_1_4_1 v \<longleftrightarrow> v = Version20"

definition is_pre_1_4_1 :: "ProtocolVersionId \<Rightarrow> bool" where
  "is_pre_1_4_1 v \<longleftrightarrow> v < Version20"

definition is_post_1_4_1 :: "ProtocolVersionId \<Rightarrow> bool" where
  "is_post_1_4_1 v \<longleftrightarrow> v \<ge> Version20"

definition is_post_1_4_2 :: "ProtocolVersionId \<Rightarrow> bool" where
  "is_post_1_4_2 v \<longleftrightarrow> v \<ge> Version21"

definition is_pre_1_4_2 :: "ProtocolVersionId \<Rightarrow> bool" where
  "is_pre_1_4_2 v \<longleftrightarrow> v < Version21"

definition is_1_4_2 :: "ProtocolVersionId \<Rightarrow> bool" where
  "is_1_4_2 v \<longleftrightarrow> v = Version21 \<or> v = Version22"

definition is_pre_1_5_0 :: "ProtocolVersionId \<Rightarrow> bool" where
  "is_pre_1_5_0 v \<longleftrightarrow> v < Version23"

definition is_post_1_5_0 :: "ProtocolVersionId \<Rightarrow> bool" where
  "is_post_1_5_0 v \<longleftrightarrow> v \<ge> Version23"

fun vm_version_from :: "ProtocolVersionId \<Rightarrow> VmVersion" where
  "vm_version_from Version0 = M5WithoutRefunds"
| "vm_version_from Version1 = M5WithoutRefunds"
| "vm_version_from Version2 = M5WithRefunds"
| "vm_version_from Version3 = M5WithRefunds"
| "vm_version_from Version4 = M6Initial"
| "vm_version_from Version5 = M6BugWithCompressionFixed"
| "vm_version_from Version6 = M6BugWithCompressionFixed"
| "vm_version_from Version7 = Vm1_3_2"
| "vm_version_from Version8 = Vm1_3_2"
| "vm_version_from Version9 = Vm1_3_2"
| "vm_version_from Version10 = Vm1_3_2"
| "vm_version_from Version11 = Vm1_3_2"
| "vm_version_from Version12 = Vm1_3_2"
| "vm_version_from Version13 = VmVirtualBlocks"
| "vm_version_from Version14 = VmVirtualBlocks"
| "vm_version_from Version15 = VmVirtualBlocks"
| "vm_version_from Version16 = VmVirtualBlocksRefundsEnhancement"
| "vm_version_from Version17 = VmVirtualBlocksRefundsEnhancement"
| "vm_version_from Version18 = VmBoojumIntegration"
| "vm_version_from Version19 = VmBoojumIntegration"
| "vm_version_from Version20 = Vm1_4_1"
| "vm_version_from Version21 = Vm1_4_2"
| "vm_version_from Version22 = Vm1_4_2"
| "vm_version_from Version23 = Vm1_5_0SmallBootloaderMemory"
| "vm_version_from Version24 = Vm1_5_0IncreasedBootloaderMemory"
| "vm_version_from Version25 = Vm1_5_0IncreasedBootloaderMemory"

fun into_api_vm_version :: "ProtocolVersionId \<Rightarrow> VmVersion" where
  "into_api_vm_version Version0 = Vm1_3_2"
| "into_api_vm_version Version1 = Vm1_3_2"
| "into_api_vm_version Version2 = Vm1_3_2"
| "into_api_vm_version Version3 = Vm1_3_2"
| "into_api_vm_version Version4 = Vm1_3_2"
| "into_api_vm_version Version5 = Vm1_3_2"
| "into_api_vm_version Version6 = Vm1_3_2"
| "into_api_vm_version Version7 = Vm1_3_2"
| "into_api_vm_version Version8 = Vm1_3_2"
| "into_api_vm_version Version9 = Vm1_3_2"
| "into_api_vm_version Version10 = Vm1_3_2"
| "into_api_vm_version Version11 = Vm1_3_2"
| "into_api_vm_version Version12 = Vm1_3_2"
| "into_api_vm_version Version13 = VmVirtualBlocks"
| "into_api_vm_version Version14 = VmVirtualBlocks"
| "into_api_vm_version Version15 = VmVirtualBlocks"
| "into_api_vm_version Version16 = VmVirtualBlocksRefundsEnhancement"
| "into_api_vm_version Version17 = VmVirtualBlocksRefundsEnhancement"
| "into_api_vm_version Version18 = VmBoojumIntegration"
| "into_api_vm_version Version19 = VmBoojumIntegration"
| "into_api_vm_version Version20 = Vm1_4_1"
| "into_api_vm_version Version21 = Vm1_4_2"
| "into_api_vm_version Version22 = Vm1_4_2"
| "into_api_vm_version Version23 = Vm1_5_0SmallBootloaderMemory"
| "into_api_vm_version Version24 = Vm1_5_0IncreasedBootloaderMemory"
| "into_api_vm_version Version25 = Vm1_5_0IncreasedBootloaderMemory"

section \<open>Packed semantic versions\<close>

definition PACKED_SEMVER_MINOR_OFFSET :: nat where "PACKED_SEMVER_MINOR_OFFSET = 32"

definition PACKED_SEMVER_MINOR_MASK :: u32 where "PACKED_SEMVER_MINOR_MASK = 0xFFFF"

record ProtocolSemanticVersion =
  minor :: ProtocolVersionId
  patch :: u32

definition into_packed_semver_with_patch :: "ProtocolVersionId \<Rightarrow> nat \<Rightarrow> u256" where
  "into_packed_semver_with_patch v p =
     push_bit PACKED_SEMVER_MINOR_OFFSET (ucast (version_u16 v)) OR ucast (of_nat p :: u32)"

text \<open>\<open>TryFrom<U256>\<close>; the error is the message, which carries the number.\<close>

definition version_of_u256 :: "u256 \<Rightarrow> u256 + ProtocolVersionId" where
  "version_of_u256 n =
     (if n > 0xFFFF then Inl n
      else (case version_of_u16 (ucast (ucast n :: u32)) of None \<Rightarrow> Inl n | Some v \<Rightarrow> Inr v))"

definition pack :: "ProtocolSemanticVersion \<Rightarrow> u256" where
  "pack v = push_bit PACKED_SEMVER_MINOR_OFFSET (ucast (version_u16 (minor v))) OR ucast (patch v)"

text \<open>\<open>packed.0[0] as u32\<close> is the lower half of the lowest limb.\<close>

definition try_from_packed :: "u256 \<Rightarrow> u256 + ProtocolSemanticVersion" where
  "try_from_packed p =
     bind_result
       (version_of_u256 (drop_bit PACKED_SEMVER_MINOR_OFFSET p AND ucast PACKED_SEMVER_MINOR_MASK))
       (\<lambda>m. Inr \<lparr>minor = m, patch = ucast (ucast p :: u64)\<rparr>)"

definition try_from_packed_semver :: "u256 \<Rightarrow> u256 + ProtocolVersionId" where
  "try_from_packed_semver p = bind_result (try_from_packed p) (\<lambda>v. Inr (minor v))"

section \<open>Textual semantic versions\<close>

datatype ParseIntError = Empty | InvalidDigit | PosOverflow

datatype ParseProtocolSemanticVersionError =
    InvalidFormat | NonZeroMajorVersion | ParseIntError ParseIntError

definition digit_char :: "nat \<Rightarrow> char" where
  "digit_char d = char_of (48 + d)"

definition to_digit :: "char \<Rightarrow> nat option" where
  "to_digit c = (let n = of_char c in if 48 \<le> n \<and> n \<le> 57 then Some (n - 48) else None)"

fun display_nat :: "nat \<Rightarrow> string" where
  "display_nat n =
     (if n < 10 then [digit_char n] else display_nat (n div 10) @ [digit_char (n mod 10)])"

declare display_nat.simps [simp del]

text \<open>
  \<open>from_str_radix\<close> with radix ten on an unsigned type of maximum \<open>mx\<close>: one leading plus sign is
  dropped, every character must be a digit, and multiplication and addition are checked.
\<close>

fun parse_digits :: "nat \<Rightarrow> nat \<Rightarrow> string \<Rightarrow> ParseIntError + nat" where
  "parse_digits mx acc [] = Inr acc"
| "parse_digits mx acc (c # cs) =
     (case to_digit c of
        None \<Rightarrow> Inl InvalidDigit
      | Some d \<Rightarrow>
          if acc * 10 > mx then Inl PosOverflow
          else if acc * 10 + d > mx then Inl PosOverflow
          else parse_digits mx (acc * 10 + d) cs)"

definition parse_uint :: "nat \<Rightarrow> string \<Rightarrow> ParseIntError + nat" where
  "parse_uint mx s =
     (if s = [] then Inl Empty
      else if s = ''+'' \<or> s = ''-'' then Inl InvalidDigit
      else if hd s = CHR ''+'' then parse_digits mx 0 (tl s)
      else parse_digits mx 0 s)"

fun split_on :: "char \<Rightarrow> string \<Rightarrow> string list" where
  "split_on d [] = [[]]"
| "split_on d (c # cs) =
     (if c = d then [] # split_on d cs
      else (case split_on d cs of [] \<Rightarrow> [[c]] | p # ps \<Rightarrow> (c # p) # ps))"

definition MAJOR_VERSION :: nat where "MAJOR_VERSION = 0"

definition display_semver :: "ProtocolSemanticVersion \<Rightarrow> string" where
  "display_semver v =
     display_nat MAJOR_VERSION @ ''.'' @ display_nat (unat (version_u16 (minor v))) @ ''.'' @
     display_nat (unat (patch v))"

definition semver_from_str :: "string \<Rightarrow> ParseProtocolSemanticVersionError + ProtocolSemanticVersion" where
  "semver_from_str s =
     (case split_on CHR ''.'' s of
        [a, b, c] \<Rightarrow>
          bind_result (map_err ParseIntError (parse_uint (2 ^ 16 - 1) a)) (\<lambda>major.
          if major \<noteq> 0 then Inl NonZeroMajorVersion
          else bind_result (map_err ParseIntError (parse_uint (2 ^ 16 - 1) b)) (\<lambda>m.
            case version_of_u16 (of_nat m) of
              None \<Rightarrow> Inl InvalidFormat
            | Some v \<Rightarrow>
                bind_result (map_err ParseIntError (parse_uint (2 ^ 32 - 1) c)) (\<lambda>p.
                Inr \<lparr>minor = v, patch = of_nat p\<rparr>)))
      | _ \<Rightarrow> Inl InvalidFormat)"

section \<open>Lemmas\<close>

lemma version_of_u16_u16 [simp]: "version_of_u16 (version_u16 v) = Some v"
  by (cases v) (simp_all add: version_of_u16_def all_versions_def)

lemma version_of_u16_SomeD: "version_of_u16 n = Some v \<Longrightarrow> version_u16 v = n"
  unfolding version_of_u16_def by (auto dest: find_SomeD)

lemma version_u16_le: "version_u16 v \<le> 25"
  by (cases v) simp_all

lemma version_of_u256_ucast [simp]: "version_of_u256 (ucast (version_u16 v)) = Inr v"
  by (cases v) (simp_all add: version_of_u256_def version_of_u16_def all_versions_def)


lemma version_of_u256_InrD:
  assumes "version_of_u256 n = Inr v"
  shows "n = ucast (version_u16 v)"
proof -
  have le: "n \<le> 0xFFFF" and v: "version_u16 v = ucast (ucast n :: u32)"
    using assms version_of_u16_SomeD
    by (auto simp: version_of_u256_def split: if_splits option.splits)
  then have "n = take_bit 16 n"
    by (simp add: word_le_nat_alt take_bit_nat_def word_unat_eq_iff unsigned_take_bit_eq)
  also have "\<dots> = ucast (version_u16 v)"
    unfolding v by (rule bit_word_eqI) (auto simp: bit_simps)
  finally show ?thesis .
qed

lemma u16_mask: "(0xFFFF :: u256) = mask 16"
  by (simp add: mask_eq_exp_minus_1)

lemma minor_of_pack:
  "drop_bit 32 (push_bit 32 (ucast (m :: u16)) OR ucast (p :: u32)) AND (0xFFFF :: u256) = ucast m"
  unfolding u16_mask by (rule bit_word_eqI) (auto simp: bit_simps dest: bit_imp_le_length)

lemma patch_of_pack:
  "ucast (ucast (push_bit 32 (ucast (m :: u16)) OR ucast (p :: u32) :: u256) :: u64) = p"
  by (auto intro!: bit_word_eqI simp: bit_simps)

lemma pack_of_parts:
  "push_bit 32 (drop_bit 32 p AND 0xFFFF) OR ucast (ucast (ucast p :: u64) :: u32) = take_bit 48 (p :: u256)"
  unfolding u16_mask by (rule bit_word_eqI) (auto simp: bit_simps)

lemma ucast_u16_mask: "ucast (0xFFFF :: u32) = (0xFFFF :: u256)"
  by simp

lemma try_from_pack [simp]:
  "try_from_packed (push_bit 32 (ucast (version_u16 m)) OR ucast p) = Inr \<lparr>minor = m, patch = p\<rparr>"
  unfolding try_from_packed_def PACKED_SEMVER_MINOR_OFFSET_def PACKED_SEMVER_MINOR_MASK_def
  by (simp only: ucast_u16_mask minor_of_pack version_of_u256_ucast
      bind_result_simps patch_of_pack)

text \<open>
  C34. Packing and unpacking semantic versions are inverse: a packed version unpacks to itself,
  also when packed with \<open>into_packed_semver_with_patch\<close>, and a number that unpacks to a version
  agrees with the packed version on its lower 48 bits, the others being ignored.
\<close>

theorem semver_packed_roundtrip:
  "try_from_packed (pack v) = Inr v \<and>
   try_from_packed (into_packed_semver_with_patch m p) = Inr \<lparr>minor = m, patch = of_nat p\<rparr> \<and>
   (try_from_packed q = Inr w \<longrightarrow> pack w = take_bit 48 q)"
proof (intro conjI impI)
  show "try_from_packed (pack v) = Inr v"
    unfolding pack_def PACKED_SEMVER_MINOR_OFFSET_def by (simp only: try_from_pack) simp
  show "try_from_packed (into_packed_semver_with_patch m p) = Inr \<lparr>minor = m, patch = of_nat p\<rparr>"
    unfolding into_packed_semver_with_patch_def PACKED_SEMVER_MINOR_OFFSET_def
    by (rule try_from_pack)
next
  assume q: "try_from_packed q = Inr w"
  obtain m where m: "version_of_u256 (drop_bit 32 q AND 0xFFFF) = Inr m"
    and w: "w = \<lparr>minor = m, patch = ucast (ucast q :: u64)\<rparr>"
    using q by (auto simp: try_from_packed_def PACKED_SEMVER_MINOR_OFFSET_def
        PACKED_SEMVER_MINOR_MASK_def bind_result_def split: sum.splits)
  show "pack w = take_bit 48 q"
    unfolding w pack_def PACKED_SEMVER_MINOR_OFFSET_def
    by (simp only: ProtocolSemanticVersion.select_convs version_of_u256_InrD [OF m, symmetric]
        pack_of_parts)
qed

theorem semver_packed_roundtrip_witness:
  "try_from_packed (0x1800000003 + 2 ^ 100) = Inr \<lparr>minor = Version24, patch = 3\<rparr> \<and>
   pack \<lparr>minor = Version24, patch = 3\<rparr> = take_bit 48 (0x1800000003 + 2 ^ 100)"
proof -
  have "try_from_packed (0x1800000003 + 2 ^ 100) = Inr \<lparr>minor = Version24, patch = 3\<rparr>"
    by code_simp
  then show ?thesis
    using semver_packed_roundtrip [of "\<lparr>minor = Version24, patch = 3\<rparr>" Version24 0
        "0x1800000003 + 2 ^ 100" "\<lparr>minor = Version24, patch = 3\<rparr>"] by blast
qed

section \<open>Printing and parsing\<close>

lemma to_digit_digit_char [simp]: "d < 10 \<Longrightarrow> to_digit (digit_char d) = Some d"
  by (simp add: to_digit_def digit_char_def Let_def)

lemma digit_char_neq:
  "d < 10 \<Longrightarrow> digit_char d \<noteq> CHR ''.''"
  "d < 10 \<Longrightarrow> digit_char d \<noteq> CHR ''+''"
  "d < 10 \<Longrightarrow> digit_char d \<noteq> CHR ''-''"
  by (auto dest: arg_cong [where f = to_digit] simp: to_digit_def [of "CHR ''.''"]
      to_digit_def [of "CHR ''+''"] to_digit_def [of "CHR ''-''"])

lemma parse_digits_append:
  "parse_digits mx acc (xs @ ys) =
     bind_result (parse_digits mx acc xs) (\<lambda>a. parse_digits mx a ys)"
  by (induction xs arbitrary: acc) (auto split: option.splits)

lemma display_nat_digits: "c \<in> set (display_nat n) \<Longrightarrow> \<exists>d<10. c = digit_char d"
proof (induction n rule: display_nat.induct)
  case (1 n)
  then show ?case
    by (subst (asm) (2) display_nat.simps) (auto split: if_splits intro: exI [of _ "n mod 10"])
qed

lemma display_nat_nonempty [simp]: "display_nat n \<noteq> []"
  by (subst display_nat.simps) simp

lemma parse_digits_display: "n \<le> mx \<Longrightarrow> parse_digits mx 0 (display_nat n) = Inr n"
proof (induction n rule: display_nat.induct)
  case (1 n)
  show ?case
  proof (cases "n < 10")
    case True
    then show ?thesis using 1 by (subst display_nat.simps) simp
  next
    case False
    then have "parse_digits mx 0 (display_nat (n div 10)) = Inr (n div 10)" using 1 by simp
    then show ?thesis
      using False 1(2) by (subst display_nat.simps) (simp add: parse_digits_append)
  qed
qed

lemma parse_uint_display [simp]: "n \<le> mx \<Longrightarrow> parse_uint mx (display_nat n) = Inr n"
proof -
  assume n: "n \<le> mx"
  obtain c cs where cs: "display_nat n = c # cs" by (cases "display_nat n") simp_all
  then obtain d where "d < 10" "c = digit_char d" using display_nat_digits [of c n] by auto
  then show ?thesis
    using parse_digits_display [OF n] by (simp add: parse_uint_def cs digit_char_neq)
qed

lemma split_on_append: "d \<notin> set p \<Longrightarrow> split_on d (p @ d # s) = p # split_on d s"
  by (induction p) auto

lemma split_on_none: "d \<notin> set p \<Longrightarrow> split_on d p = [p]"
  by (induction p) auto

lemma display_nat_no_dot [simp]: "CHR ''.'' \<notin> set (display_nat n)"
  using display_nat_digits digit_char_neq(1) by fastforce

lemma semver_split [simp]:
  "split_on CHR ''.'' (display_semver v) =
     [display_nat MAJOR_VERSION, display_nat (unat (version_u16 (minor v))), display_nat (unat (patch v))]"
  by (simp add: display_semver_def split_on_append split_on_none)

lemma parse_digits_le: "parse_digits mx acc s = Inr n \<Longrightarrow> acc \<le> mx \<Longrightarrow> n \<le> mx"
  by (induction mx acc s rule: parse_digits.induct) (auto split: option.splits if_splits)

lemma parse_uint_le: "parse_uint mx s = Inr n \<Longrightarrow> n \<le> mx"
  by (auto simp: parse_uint_def dest: parse_digits_le split: if_splits)

lemma semver_from_str_InrE:
  assumes "semver_from_str s = Inr w"
  obtains a b c where "split_on CHR ''.'' s = [a, b, c]" "parse_uint (2 ^ 16 - 1) a = Inr 0"
    "parse_uint (2 ^ 16 - 1) b = Inr (unat (version_u16 (minor w)))"
    "parse_uint (2 ^ 32 - 1) c = Inr (unat (patch w))"
proof -
  obtain a b c where abc: "split_on CHR ''.'' s = [a, b, c]"
    using assms by (auto simp: semver_from_str_def split: list.splits)
  obtain m p v where r: "parse_uint (2 ^ 16 - 1) a = Inr 0" "parse_uint (2 ^ 16 - 1) b = Inr m"
    "version_of_u16 (of_nat m) = Some v" "parse_uint (2 ^ 32 - 1) c = Inr p"
    "w = \<lparr>minor = v, patch = of_nat p\<rparr>"
    using assms unfolding semver_from_str_def abc
    by (auto simp: bind_result_def map_err_def split: sum.splits if_splits option.splits)
  have "m < 2 ^ 16" "p < 2 ^ 32" using parse_uint_le [OF r(2)] parse_uint_le [OF r(4)] by simp_all
  then have "unat (version_u16 (minor w)) = m" "unat (patch w) = p"
    using version_of_u16_SomeD [OF r(3)] r(5) by (simp_all add: unat_of_nat take_bit_nat_def)
  then show thesis using that [OF abc] r by simp
qed

text \<open>
  The textual form of a semantic version parses back to it, and whatever parses has the three
  parts of the printed form: the major part is zero and the others are the numbers of the result.
\<close>

theorem semver_display_roundtrip:
  "semver_from_str (display_semver v) = Inr v \<and>
   (semver_from_str s = Inr w \<longrightarrow>
      (\<exists>a b c. split_on CHR ''.'' s = [a, b, c] \<and> parse_uint (2 ^ 16 - 1) a = Inr 0 \<and>
         parse_uint (2 ^ 16 - 1) b = Inr (unat (version_u16 (minor w))) \<and>
         parse_uint (2 ^ 32 - 1) c = Inr (unat (patch w))))"
proof (intro conjI impI)
  have "unat (version_u16 (minor v)) < 2 ^ 16" "unat (patch v) < 2 ^ 32"
    by (rule order.strict_trans2 [OF unsigned_less]; simp)+
  then show "semver_from_str (display_semver v) = Inr v"
    by (simp add: semver_from_str_def MAJOR_VERSION_def)
next
  assume "semver_from_str s = Inr w"
  then show "\<exists>a b c. split_on CHR ''.'' s = [a, b, c] \<and> parse_uint (2 ^ 16 - 1) a = Inr 0 \<and>
         parse_uint (2 ^ 16 - 1) b = Inr (unat (version_u16 (minor w))) \<and>
         parse_uint (2 ^ 32 - 1) c = Inr (unat (patch w))"
    by (rule semver_from_str_InrE) blast
qed

theorem semver_display_roundtrip_witness:
  "semver_from_str ''0.+24.007'' = Inr \<lparr>minor = Version24, patch = 7\<rparr> \<and>
   (\<exists>a b c. split_on CHR ''.'' ''0.+24.007'' = [a, b, c] \<and> parse_uint (2 ^ 16 - 1) a = Inr 0 \<and>
      parse_uint (2 ^ 16 - 1) b = Inr 24 \<and> parse_uint (2 ^ 32 - 1) c = Inr 7)"
proof -
  have "semver_from_str ''0.+24.007'' = Inr \<lparr>minor = Version24, patch = 7\<rparr>"
    by (simp add: semver_from_str_def parse_uint_def to_digit_def version_of_u16_def all_versions_def)
  then show ?thesis
    using semver_display_roundtrip [of "\<lparr>minor = Version24, patch = 7\<rparr>" "''0.+24.007''"
        "\<lparr>minor = Version24, patch = 7\<rparr>"] by simp
qed

end
