(* ===== verification/VmVersions.thy ===== *)
theory VmVersions
  imports ProtocolVersions
begin

text \<open>
  The limits that depend on the VM version: \<^verbatim>\<open>core/lib/multivm/src/utils.rs\<close> and the constants it
  reads from \<^verbatim>\<open>core/lib/multivm/src/versions\<close>. The module of each version has constants of its own, under the same
  names; each module is a value of \<open>VmConstants\<close> whose \<open>let\<close> lists the constants of the module as the source writes
  them. Subtractions in the constants do not underflow: the compiler evaluates them. The heap size from which the two oldest
  VMs compute their encoding space is a constant of the \<^verbatim>\<open>zk_evm\<close> crate, the argument of \<open>tx_encoding_space\<close>.
\<close>

section \<open>Constants of the versions\<close>

definition MAX_NEW_FACTORY_DEPS :: nat where "MAX_NEW_FACTORY_DEPS = 32"

text \<open>What \<open>utils.rs\<close> reads of the layout of the bootloader memory.\<close>

record VmConstants =
  max_txs_in_batch :: nat
  used_memory_bytes :: nat
  used_memory_words :: nat
  tx_description_offset :: nat
  tx_encoding_space :: "nat \<Rightarrow> u32"

definition constants_m5 :: "VmConstants" where
  "constants_m5 =
     (let USED_BOOTLOADER_MEMORY_BYTES = 2 ^ 24;
          USED_BOOTLOADER_MEMORY_WORDS = USED_BOOTLOADER_MEMORY_BYTES div 32;
          MAX_TXS_IN_BLOCK = 1024;
          DEBUG_SLOTS_OFFSET = 8;
          DEBUG_FIRST_SLOTS = 32;
          PAYMASTER_CONTEXT_SLOTS = 32 + 1;
          CURRENT_L2_TX_HASHES_SLOTS = 2;
          NEW_FACTORY_DEPS_RESERVED_SLOTS = MAX_NEW_FACTORY_DEPS + 4;
          OPERATOR_REFUNDS_OFFSET =
            DEBUG_SLOTS_OFFSET + DEBUG_FIRST_SLOTS + PAYMASTER_CONTEXT_SLOTS +
            CURRENT_L2_TX_HASHES_SLOTS + NEW_FACTORY_DEPS_RESERVED_SLOTS;
          OPERATOR_REFUNDS_SLOTS = MAX_TXS_IN_BLOCK;
          TX_OVERHEAD_OFFSET = OPERATOR_REFUNDS_OFFSET + OPERATOR_REFUNDS_SLOTS;
          TX_OVERHEAD_SLOTS = MAX_TXS_IN_BLOCK;
          BOOTLOADER_TX_DESCRIPTION_OFFSET = TX_OVERHEAD_OFFSET + TX_OVERHEAD_SLOTS;
          BOOTLOADER_TX_DESCRIPTION_SIZE = 2;
          MAX_POSTOP_SLOTS = PAYMASTER_CONTEXT_SLOTS + 7;
          TX_DESCRIPTION_OFFSET =
            BOOTLOADER_TX_DESCRIPTION_OFFSET + BOOTLOADER_TX_DESCRIPTION_SIZE * MAX_TXS_IN_BLOCK +
            MAX_POSTOP_SLOTS
      in \<lparr>max_txs_in_batch = MAX_TXS_IN_BLOCK,
         used_memory_bytes = USED_BOOTLOADER_MEMORY_BYTES, used_memory_words = USED_BOOTLOADER_MEMORY_WORDS,
         tx_description_offset = TX_DESCRIPTION_OFFSET,
         tx_encoding_space = (\<lambda>MAX_HEAP_PAGE_SIZE_IN_WORDS. of_nat (MAX_HEAP_PAGE_SIZE_IN_WORDS - TX_DESCRIPTION_OFFSET - MAX_TXS_IN_BLOCK))\<rparr>)"

definition constants_m6 :: "VmConstants" where
  "constants_m6 =
     (let USED_BOOTLOADER_MEMORY_BYTES = 2 ^ 24;
          USED_BOOTLOADER_MEMORY_WORDS = USED_BOOTLOADER_MEMORY_BYTES div 32;
          MAX_TXS_IN_BLOCK = 1024;
          DEBUG_SLOTS_OFFSET = 8;
          DEBUG_FIRST_SLOTS = 32;
          PAYMASTER_CONTEXT_SLOTS = 32 + 1;
          CURRENT_L2_TX_HASHES_SLOTS = 2;
          NEW_FACTORY_DEPS_RESERVED_SLOTS = MAX_NEW_FACTORY_DEPS + 4;
          OPERATOR_REFUNDS_OFFSET =
            DEBUG_SLOTS_OFFSET + DEBUG_FIRST_SLOTS + PAYMASTER_CONTEXT_SLOTS +
            CURRENT_L2_TX_HASHES_SLOTS + NEW_FACTORY_DEPS_RESERVED_SLOTS;
          OPERATOR_REFUNDS_SLOTS = MAX_TXS_IN_BLOCK;
          TX_OVERHEAD_OFFSET = OPERATOR_REFUNDS_OFFSET + OPERATOR_REFUNDS_SLOTS;
          TX_OVERHEAD_SLOTS = MAX_TXS_IN_BLOCK;
          TX_TRUSTED_GAS_LIMIT_OFFSET = TX_OVERHEAD_OFFSET + TX_OVERHEAD_SLOTS;
          TX_TRUSTED_GAS_LIMIT_SLOTS = MAX_TXS_IN_BLOCK;
          COMPRESSED_BYTECODES_OFFSET = TX_TRUSTED_GAS_LIMIT_OFFSET + TX_TRUSTED_GAS_LIMIT_SLOTS;
          COMPRESSED_BYTECODES_SLOTS = 32768;
          BOOTLOADER_TX_DESCRIPTION_OFFSET = COMPRESSED_BYTECODES_OFFSET + COMPRESSED_BYTECODES_SLOTS;
          BOOTLOADER_TX_DESCRIPTION_SIZE = 2;
          MAX_POSTOP_SLOTS = PAYMASTER_CONTEXT_SLOTS + 7;
          TX_DESCRIPTION_OFFSET =
            BOOTLOADER_TX_DESCRIPTION_OFFSET + BOOTLOADER_TX_DESCRIPTION_SIZE * MAX_TXS_IN_BLOCK +
            MAX_POSTOP_SLOTS
      in \<lparr>max_txs_in_batch = MAX_TXS_IN_BLOCK,
         used_memory_bytes = USED_BOOTLOADER_MEMORY_BYTES, used_memory_words = USED_BOOTLOADER_MEMORY_WORDS,
         tx_description_offset = TX_DESCRIPTION_OFFSET,
         tx_encoding_space = (\<lambda>MAX_HEAP_PAGE_SIZE_IN_WORDS. of_nat (MAX_HEAP_PAGE_SIZE_IN_WORDS - TX_DESCRIPTION_OFFSET - MAX_TXS_IN_BLOCK))\<rparr>)"

definition constants_1_3_2 :: "VmConstants" where
  "constants_1_3_2 =
     (let USED_BOOTLOADER_MEMORY_BYTES = 2 ^ 24;
          USED_BOOTLOADER_MEMORY_WORDS = USED_BOOTLOADER_MEMORY_BYTES div 32;
          MAX_TXS_IN_BLOCK = 1024;
          DEBUG_SLOTS_OFFSET = 8;
          DEBUG_FIRST_SLOTS = 32;
          PAYMASTER_CONTEXT_SLOTS = 32 + 1;
          CURRENT_L2_TX_HASHES_SLOTS = 2;
          NEW_FACTORY_DEPS_RESERVED_SLOTS = MAX_NEW_FACTORY_DEPS + 4;
          OPERATOR_REFUNDS_OFFSET =
            DEBUG_SLOTS_OFFSET + DEBUG_FIRST_SLOTS + PAYMASTER_CONTEXT_SLOTS +
            CURRENT_L2_TX_HASHES_SLOTS + NEW_FACTORY_DEPS_RESERVED_SLOTS;
          OPERATOR_REFUNDS_SLOTS = MAX_TXS_IN_BLOCK;
          TX_OVERHEAD_OFFSET = OPERATOR_REFUNDS_OFFSET + OPERATOR_REFUNDS_SLOTS;
          TX_OVERHEAD_SLOTS = MAX_TXS_IN_BLOCK;
          TX_TRUSTED_GAS_LIMIT_OFFSET = TX_OVERHEAD_OFFSET + TX_OVERHEAD_SLOTS;
          TX_TRUSTED_GAS_LIMIT_SLOTS = MAX_TXS_IN_BLOCK;
          COMPRESSED_BYTECODES_OFFSET = TX_TRUSTED_GAS_LIMIT_OFFSET + TX_TRUSTED_GAS_LIMIT_SLOTS;
          COMPRESSED_BYTECODES_SLOTS = 32768;
          BOOTLOADER_TX_DESCRIPTION_OFFSET = COMPRESSED_BYTECODES_OFFSET + COMPRESSED_BYTECODES_SLOTS;
          BOOTLOADER_TX_DESCRIPTION_SIZE = 2;
          MAX_POSTOP_SLOTS = PAYMASTER_CONTEXT_SLOTS + 7;
          TX_DESCRIPTION_OFFSET =
            BOOTLOADER_TX_DESCRIPTION_OFFSET + BOOTLOADER_TX_DESCRIPTION_SIZE * MAX_TXS_IN_BLOCK +
            MAX_POSTOP_SLOTS
      in \<lparr>max_txs_in_batch = MAX_TXS_IN_BLOCK,
         used_memory_bytes = USED_BOOTLOADER_MEMORY_BYTES, used_memory_words = USED_BOOTLOADER_MEMORY_WORDS,
         tx_description_offset = TX_DESCRIPTION_OFFSET,
         tx_encoding_space = (\<lambda>_. of_nat (USED_BOOTLOADER_MEMORY_WORDS - TX_DESCRIPTION_OFFSET - MAX_TXS_IN_BLOCK))\<rparr>)"

definition constants_virtual_blocks :: "VmConstants" where
  "constants_virtual_blocks =
     (let USED_BOOTLOADER_MEMORY_BYTES = 2 ^ 24;
          USED_BOOTLOADER_MEMORY_WORDS = USED_BOOTLOADER_MEMORY_BYTES div 32;
          MAX_TXS_IN_BLOCK = 1024;
          DEBUG_SLOTS_OFFSET = 8;
          DEBUG_FIRST_SLOTS = 32;
          PAYMASTER_CONTEXT_SLOTS = 32 + 1;
          CURRENT_L2_TX_HASHES_SLOTS = 2;
          NEW_FACTORY_DEPS_RESERVED_SLOTS = MAX_NEW_FACTORY_DEPS + 4;
          OPERATOR_REFUNDS_OFFSET =
            DEBUG_SLOTS_OFFSET + DEBUG_FIRST_SLOTS + PAYMASTER_CONTEXT_SLOTS +
            CURRENT_L2_TX_HASHES_SLOTS + NEW_FACTORY_DEPS_RESERVED_SLOTS;
          OPERATOR_REFUNDS_SLOTS = MAX_TXS_IN_BLOCK;
          TX_OVERHEAD_OFFSET = OPERATOR_REFUNDS_OFFSET + OPERATOR_REFUNDS_SLOTS;
          TX_OVERHEAD_SLOTS = MAX_TXS_IN_BLOCK;
          TX_TRUSTED_GAS_LIMIT_OFFSET = TX_OVERHEAD_OFFSET + TX_OVERHEAD_SLOTS;
          TX_TRUSTED_GAS_LIMIT_SLOTS = MAX_TXS_IN_BLOCK;
          TX_OPERATOR_L2_BLOCK_INFO_OFFSET = TX_TRUSTED_GAS_LIMIT_OFFSET + TX_TRUSTED_GAS_LIMIT_SLOTS;
          TX_OPERATOR_SLOTS_PER_L2_BLOCK_INFO = 4;
          TX_OPERATOR_L2_BLOCK_INFO_SLOTS = (MAX_TXS_IN_BLOCK + 1) * TX_OPERATOR_SLOTS_PER_L2_BLOCK_INFO;
          COMPRESSED_BYTECODES_OFFSET = TX_OPERATOR_L2_BLOCK_INFO_OFFSET + TX_OPERATOR_L2_BLOCK_INFO_SLOTS;
          COMPRESSED_BYTECODES_SLOTS = 32768;
          BOOTLOADER_TX_DESCRIPTION_OFFSET = COMPRESSED_BYTECODES_OFFSET + COMPRESSED_BYTECODES_SLOTS;
          BOOTLOADER_TX_DESCRIPTION_SIZE = 2;
          MAX_POSTOP_SLOTS = PAYMASTER_CONTEXT_SLOTS + 7;
          TX_DESCRIPTION_OFFSET =
            BOOTLOADER_TX_DESCRIPTION_OFFSET + BOOTLOADER_TX_DESCRIPTION_SIZE * MAX_TXS_IN_BLOCK +
            MAX_POSTOP_SLOTS
      in \<lparr>max_txs_in_batch = MAX_TXS_IN_BLOCK,
         used_memory_bytes = USED_BOOTLOADER_MEMORY_BYTES, used_memory_words = USED_BOOTLOADER_MEMORY_WORDS,
         tx_description_offset = TX_DESCRIPTION_OFFSET,
         tx_encoding_space = (\<lambda>_. of_nat (USED_BOOTLOADER_MEMORY_WORDS - TX_DESCRIPTION_OFFSET - MAX_TXS_IN_BLOCK))\<rparr>)"

definition constants_refunds_enhancement :: "VmConstants" where
  "constants_refunds_enhancement =
     (let USED_BOOTLOADER_MEMORY_BYTES = 2 ^ 24;
          USED_BOOTLOADER_MEMORY_WORDS = USED_BOOTLOADER_MEMORY_BYTES div 32;
          MAX_TXS_IN_BLOCK = 1024;
          DEBUG_SLOTS_OFFSET = 8;
          DEBUG_FIRST_SLOTS = 32;
          PAYMASTER_CONTEXT_SLOTS = 32 + 1;
          CURRENT_L2_TX_HASHES_SLOTS = 2;
          NEW_FACTORY_DEPS_RESERVED_SLOTS = MAX_NEW_FACTORY_DEPS + 4;
          OPERATOR_REFUNDS_OFFSET =
            DEBUG_SLOTS_OFFSET + DEBUG_FIRST_SLOTS + PAYMASTER_CONTEXT_SLOTS +
            CURRENT_L2_TX_HASHES_SLOTS + NEW_FACTORY_DEPS_RESERVED_SLOTS;
          OPERATOR_REFUNDS_SLOTS = MAX_TXS_IN_BLOCK;
          TX_OVERHEAD_OFFSET = OPERATOR_REFUNDS_OFFSET + OPERATOR_REFUNDS_SLOTS;
          TX_OVERHEAD_SLOTS = MAX_TXS_IN_BLOCK;
          TX_TRUSTED_GAS_LIMIT_OFFSET = TX_OVERHEAD_OFFSET + TX_OVERHEAD_SLOTS;
          TX_TRUSTED_GAS_LIMIT_SLOTS = MAX_TXS_IN_BLOCK;
          TX_OPERATOR_L2_BLOCK_INFO_OFFSET = TX_TRUSTED_GAS_LIMIT_OFFSET + TX_TRUSTED_GAS_LIMIT_SLOTS;
          TX_OPERATOR_SLOTS_PER_L2_BLOCK_INFO = 4;
          TX_OPERATOR_L2_BLOCK_INFO_SLOTS = (MAX_TXS_IN_BLOCK + 1) * TX_OPERATOR_SLOTS_PER_L2_BLOCK_INFO;
          COMPRESSED_BYTECODES_OFFSET = TX_OPERATOR_L2_BLOCK_INFO_OFFSET + TX_OPERATOR_L2_BLOCK_INFO_SLOTS;
          COMPRESSED_BYTECODES_SLOTS = 32768;
          BOOTLOADER_TX_DESCRIPTION_OFFSET = COMPRESSED_BYTECODES_OFFSET + COMPRESSED_BYTECODES_SLOTS;
          BOOTLOADER_TX_DESCRIPTION_SIZE = 2;
          MAX_POSTOP_SLOTS = PAYMASTER_CONTEXT_SLOTS + 7;
          TX_DESCRIPTION_OFFSET =
            BOOTLOADER_TX_DESCRIPTION_OFFSET + BOOTLOADER_TX_DESCRIPTION_SIZE * MAX_TXS_IN_BLOCK +
            MAX_POSTOP_SLOTS
      in \<lparr>max_txs_in_batch = MAX_TXS_IN_BLOCK,
         used_memory_bytes = USED_BOOTLOADER_MEMORY_BYTES, used_memory_words = USED_BOOTLOADER_MEMORY_WORDS,
         tx_description_offset = TX_DESCRIPTION_OFFSET,
         tx_encoding_space = (\<lambda>_. of_nat (USED_BOOTLOADER_MEMORY_WORDS - TX_DESCRIPTION_OFFSET - MAX_TXS_IN_BLOCK))\<rparr>)"

definition constants_boojum_integration :: "VmConstants" where
  "constants_boojum_integration =
     (let USED_BOOTLOADER_MEMORY_BYTES = 2 ^ 24;
          USED_BOOTLOADER_MEMORY_WORDS = USED_BOOTLOADER_MEMORY_BYTES div 32;
          MAX_TXS_IN_BLOCK = 1024;
          DEBUG_SLOTS_OFFSET = 8;
          DEBUG_FIRST_SLOTS = 32;
          PAYMASTER_CONTEXT_SLOTS = 32 + 1;
          CURRENT_L2_TX_HASHES_SLOTS = 2;
          NEW_FACTORY_DEPS_RESERVED_SLOTS = MAX_NEW_FACTORY_DEPS + 4;
          OPERATOR_REFUNDS_OFFSET =
            DEBUG_SLOTS_OFFSET + DEBUG_FIRST_SLOTS + PAYMASTER_CONTEXT_SLOTS +
            CURRENT_L2_TX_HASHES_SLOTS + NEW_FACTORY_DEPS_RESERVED_SLOTS;
          OPERATOR_REFUNDS_SLOTS = MAX_TXS_IN_BLOCK;
          TX_OVERHEAD_OFFSET = OPERATOR_REFUNDS_OFFSET + OPERATOR_REFUNDS_SLOTS;
          TX_OVERHEAD_SLOTS = MAX_TXS_IN_BLOCK;
          TX_TRUSTED_GAS_LIMIT_OFFSET = TX_OVERHEAD_OFFSET + TX_OVERHEAD_SLOTS;
          TX_TRUSTED_GAS_LIMIT_SLOTS = MAX_TXS_IN_BLOCK;
          TX_OPERATOR_L2_BLOCK_INFO_OFFSET = TX_TRUSTED_GAS_LIMIT_OFFSET + TX_TRUSTED_GAS_LIMIT_SLOTS;
          TX_OPERATOR_SLOTS_PER_L2_BLOCK_INFO = 4;
          TX_OPERATOR_L2_BLOCK_INFO_SLOTS = (MAX_TXS_IN_BLOCK + 1) * TX_OPERATOR_SLOTS_PER_L2_BLOCK_INFO;
          COMPRESSED_BYTECODES_OFFSET = TX_OPERATOR_L2_BLOCK_INFO_OFFSET + TX_OPERATOR_L2_BLOCK_INFO_SLOTS;
          COMPRESSED_BYTECODES_SLOTS = 32768;
          PRIORITY_TXS_L1_DATA_OFFSET = COMPRESSED_BYTECODES_OFFSET + COMPRESSED_BYTECODES_SLOTS;
          PRIORITY_TXS_L1_DATA_SLOTS = 2;
          OPERATOR_PROVIDED_L1_MESSENGER_PUBDATA_OFFSET =
            PRIORITY_TXS_L1_DATA_OFFSET + PRIORITY_TXS_L1_DATA_SLOTS;
          OPERATOR_PROVIDED_L1_MESSENGER_PUBDATA_SLOTS = 208000;
          BOOTLOADER_TX_DESCRIPTION_OFFSET =
            OPERATOR_PROVIDED_L1_MESSENGER_PUBDATA_OFFSET +
            OPERATOR_PROVIDED_L1_MESSENGER_PUBDATA_SLOTS;
          BOOTLOADER_TX_DESCRIPTION_SIZE = 2;
          MAX_POSTOP_SLOTS = PAYMASTER_CONTEXT_SLOTS + 7;
          TX_DESCRIPTION_OFFSET =
            BOOTLOADER_TX_DESCRIPTION_OFFSET + BOOTLOADER_TX_DESCRIPTION_SIZE * MAX_TXS_IN_BLOCK +
            MAX_POSTOP_SLOTS
      in \<lparr>max_txs_in_batch = MAX_TXS_IN_BLOCK,
         used_memory_bytes = USED_BOOTLOADER_MEMORY_BYTES, used_memory_words = USED_BOOTLOADER_MEMORY_WORDS,
         tx_description_offset = TX_DESCRIPTION_OFFSET,
         tx_encoding_space = (\<lambda>_. of_nat (USED_BOOTLOADER_MEMORY_WORDS - TX_DESCRIPTION_OFFSET - MAX_TXS_IN_BLOCK))\<rparr>)"

definition constants_1_4_1 :: "VmConstants" where
  "constants_1_4_1 =
     (let USED_BOOTLOADER_MEMORY_BYTES = 24000000;
          USED_BOOTLOADER_MEMORY_WORDS = USED_BOOTLOADER_MEMORY_BYTES div 32;
          MAX_TXS_IN_BATCH = 10000;
          DEBUG_SLOTS_OFFSET = 8;
          DEBUG_FIRST_SLOTS = 32;
          PAYMASTER_CONTEXT_SLOTS = 32 + 1;
          CURRENT_L2_TX_HASHES_SLOTS = 2;
          NEW_FACTORY_DEPS_RESERVED_SLOTS = MAX_NEW_FACTORY_DEPS + 4;
          OPERATOR_REFUNDS_OFFSET =
            DEBUG_SLOTS_OFFSET + DEBUG_FIRST_SLOTS + PAYMASTER_CONTEXT_SLOTS +
            CURRENT_L2_TX_HASHES_SLOTS + NEW_FACTORY_DEPS_RESERVED_SLOTS;
          OPERATOR_REFUNDS_SLOTS = MAX_TXS_IN_BATCH;
          TX_OVERHEAD_OFFSET = OPERATOR_REFUNDS_OFFSET + OPERATOR_REFUNDS_SLOTS;
          TX_OVERHEAD_SLOTS = MAX_TXS_IN_BATCH;
          TX_TRUSTED_GAS_LIMIT_OFFSET = TX_OVERHEAD_OFFSET + TX_OVERHEAD_SLOTS;
          TX_TRUSTED_GAS_LIMIT_SLOTS = MAX_TXS_IN_BATCH;
          TX_OPERATOR_L2_BLOCK_INFO_OFFSET = TX_TRUSTED_GAS_LIMIT_OFFSET + TX_TRUSTED_GAS_LIMIT_SLOTS;
          TX_OPERATOR_SLOTS_PER_L2_BLOCK_INFO = 4;
          TX_OPERATOR_L2_BLOCK_INFO_SLOTS = (MAX_TXS_IN_BATCH + 1) * TX_OPERATOR_SLOTS_PER_L2_BLOCK_INFO;
          COMPRESSED_BYTECODES_OFFSET = TX_OPERATOR_L2_BLOCK_INFO_OFFSET + TX_OPERATOR_L2_BLOCK_INFO_SLOTS;
          COMPRESSED_BYTECODES_SLOTS = 32768;
          PRIORITY_TXS_L1_DATA_OFFSET = COMPRESSED_BYTECODES_OFFSET + COMPRESSED_BYTECODES_SLOTS;
          PRIORITY_TXS_L1_DATA_SLOTS = 2;
          OPERATOR_PROVIDED_L1_MESSENGER_PUBDATA_OFFSET =
            PRIORITY_TXS_L1_DATA_OFFSET + PRIORITY_TXS_L1_DATA_SLOTS;
          OPERATOR_PROVIDED_L1_MESSENGER_PUBDATA_SLOTS = 208000;
          BOOTLOADER_TX_DESCRIPTION_OFFSET =
            OPERATOR_PROVIDED_L1_MESSENGER_PUBDATA_OFFSET +
            OPERATOR_PROVIDED_L1_MESSENGER_PUBDATA_SLOTS;
          BOOTLOADER_TX_DESCRIPTION_SIZE = 2;
          MAX_POSTOP_SLOTS = PAYMASTER_CONTEXT_SLOTS + 7;
          TX_DESCRIPTION_OFFSET =
            BOOTLOADER_TX_DESCRIPTION_OFFSET + BOOTLOADER_TX_DESCRIPTION_SIZE * MAX_TXS_IN_BATCH +
            MAX_POSTOP_SLOTS
      in \<lparr>max_txs_in_batch = MAX_TXS_IN_BATCH,
         used_memory_bytes = USED_BOOTLOADER_MEMORY_BYTES, used_memory_words = USED_BOOTLOADER_MEMORY_WORDS,
         tx_description_offset = TX_DESCRIPTION_OFFSET,
         tx_encoding_space = (\<lambda>_. of_nat (USED_BOOTLOADER_MEMORY_WORDS - TX_DESCRIPTION_OFFSET - MAX_TXS_IN_BATCH))\<rparr>)"

definition constants_1_4_2 :: "VmConstants" where
  "constants_1_4_2 =
     (let USED_BOOTLOADER_MEMORY_BYTES = 30000000;
          USED_BOOTLOADER_MEMORY_WORDS = USED_BOOTLOADER_MEMORY_BYTES div 32;
          MAX_TXS_IN_BATCH = 10000;
          DEBUG_SLOTS_OFFSET = 8;
          DEBUG_FIRST_SLOTS = 32;
          PAYMASTER_CONTEXT_SLOTS = 32 + 1;
          CURRENT_L2_TX_HASHES_SLOTS = 2;
          NEW_FACTORY_DEPS_RESERVED_SLOTS = MAX_NEW_FACTORY_DEPS + 4;
          OPERATOR_REFUNDS_OFFSET =
            DEBUG_SLOTS_OFFSET + DEBUG_FIRST_SLOTS + PAYMASTER_CONTEXT_SLOTS +
            CURRENT_L2_TX_HASHES_SLOTS + NEW_FACTORY_DEPS_RESERVED_SLOTS;
          OPERATOR_REFUNDS_SLOTS = MAX_TXS_IN_BATCH;
          TX_OVERHEAD_OFFSET = OPERATOR_REFUNDS_OFFSET + OPERATOR_REFUNDS_SLOTS;
          TX_OVERHEAD_SLOTS = MAX_TXS_IN_BATCH;
          TX_TRUSTED_GAS_LIMIT_OFFSET = TX_OVERHEAD_OFFSET + TX_OVERHEAD_SLOTS;
          TX_TRUSTED_GAS_LIMIT_SLOTS = MAX_TXS_IN_BATCH;
          TX_OPERATOR_L2_BLOCK_INFO_OFFSET = TX_TRUSTED_GAS_LIMIT_OFFSET + TX_TRUSTED_GAS_LIMIT_SLOTS;
          TX_OPERATOR_SLOTS_PER_L2_BLOCK_INFO = 4;
          TX_OPERATOR_L2_BLOCK_INFO_SLOTS = (MAX_TXS_IN_BATCH + 1) * TX_OPERATOR_SLOTS_PER_L2_BLOCK_INFO;
          COMPRESSED_BYTECODES_OFFSET = TX_OPERATOR_L2_BLOCK_INFO_OFFSET + TX_OPERATOR_L2_BLOCK_INFO_SLOTS;
          COMPRESSED_BYTECODES_SLOTS = 65536;
          PRIORITY_TXS_L1_DATA_OFFSET = COMPRESSED_BYTECODES_OFFSET + COMPRESSED_BYTECODES_SLOTS;
          PRIORITY_TXS_L1_DATA_SLOTS = 2;
          OPERATOR_PROVIDED_L1_MESSENGER_PUBDATA_OFFSET =
            PRIORITY_TXS_L1_DATA_OFFSET + PRIORITY_TXS_L1_DATA_SLOTS;
          OPERATOR_PROVIDED_L1_MESSENGER_PUBDATA_SLOTS = 451000;
          BOOTLOADER_TX_DESCRIPTION_OFFSET =
            OPERATOR_PROVIDED_L1_MESSENGER_PUBDATA_OFFSET +
            OPERATOR_PROVIDED_L1_MESSENGER_PUBDATA_SLOTS;
          BOOTLOADER_TX_DESCRIPTION_SIZE = 2;
          MAX_POSTOP_SLOTS = PAYMASTER_CONTEXT_SLOTS + 7;
          TX_DESCRIPTION_OFFSET =
            BOOTLOADER_TX_DESCRIPTION_OFFSET + BOOTLOADER_TX_DESCRIPTION_SIZE * MAX_TXS_IN_BATCH +
            MAX_POSTOP_SLOTS
      in \<lparr>max_txs_in_batch = MAX_TXS_IN_BATCH,
         used_memory_bytes = USED_BOOTLOADER_MEMORY_BYTES, used_memory_words = USED_BOOTLOADER_MEMORY_WORDS,
         tx_description_offset = TX_DESCRIPTION_OFFSET,
         tx_encoding_space = (\<lambda>_. of_nat (USED_BOOTLOADER_MEMORY_WORDS - TX_DESCRIPTION_OFFSET - MAX_TXS_IN_BATCH))\<rparr>)"

datatype MultiVMSubversion = SmallBootloaderMemory | IncreasedBootloaderMemory

fun get_latest_memory_bytes :: "MultiVMSubversion \<Rightarrow> nat" where
  "get_latest_memory_bytes SmallBootloaderMemory = 59000000"
| "get_latest_memory_bytes IncreasedBootloaderMemory = 63800000"

definition get_latest_memory_words :: "MultiVMSubversion \<Rightarrow> nat" where
  "get_latest_memory_words subversion = get_latest_memory_bytes subversion div 32"

definition constants_latest :: "MultiVMSubversion \<Rightarrow> VmConstants" where
  "constants_latest subversion =
     (let USED_BOOTLOADER_MEMORY_BYTES = get_latest_memory_bytes subversion;
          USED_BOOTLOADER_MEMORY_WORDS = get_latest_memory_words subversion;
          MAX_TXS_IN_BATCH = 10000;
          DEBUG_SLOTS_OFFSET = 8;
          DEBUG_FIRST_SLOTS = 32;
          PAYMASTER_CONTEXT_SLOTS = 32 + 1;
          CURRENT_L2_TX_HASHES_SLOTS = 2;
          NEW_FACTORY_DEPS_RESERVED_SLOTS = MAX_NEW_FACTORY_DEPS + 4;
          OPERATOR_REFUNDS_OFFSET =
            DEBUG_SLOTS_OFFSET + DEBUG_FIRST_SLOTS + PAYMASTER_CONTEXT_SLOTS +
            CURRENT_L2_TX_HASHES_SLOTS + NEW_FACTORY_DEPS_RESERVED_SLOTS;
          OPERATOR_REFUNDS_SLOTS = MAX_TXS_IN_BATCH;
          TX_OVERHEAD_OFFSET = OPERATOR_REFUNDS_OFFSET + OPERATOR_REFUNDS_SLOTS;
          TX_OVERHEAD_SLOTS = MAX_TXS_IN_BATCH;
          TX_TRUSTED_GAS_LIMIT_OFFSET = TX_OVERHEAD_OFFSET + TX_OVERHEAD_SLOTS;
          TX_TRUSTED_GAS_LIMIT_SLOTS = MAX_TXS_IN_BATCH;
          TX_OPERATOR_L2_BLOCK_INFO_OFFSET = TX_TRUSTED_GAS_LIMIT_OFFSET + TX_TRUSTED_GAS_LIMIT_SLOTS;
          TX_OPERATOR_SLOTS_PER_L2_BLOCK_INFO = 4;
          TX_OPERATOR_L2_BLOCK_INFO_SLOTS = (MAX_TXS_IN_BATCH + 1) * TX_OPERATOR_SLOTS_PER_L2_BLOCK_INFO;
          COMPRESSED_BYTECODES_OFFSET = TX_OPERATOR_L2_BLOCK_INFO_OFFSET + TX_OPERATOR_L2_BLOCK_INFO_SLOTS;
          COMPRESSED_BYTECODES_SLOTS = 196608;
          PRIORITY_TXS_L1_DATA_OFFSET = COMPRESSED_BYTECODES_OFFSET + COMPRESSED_BYTECODES_SLOTS;
          PRIORITY_TXS_L1_DATA_SLOTS = 2;
          OPERATOR_PROVIDED_L1_MESSENGER_PUBDATA_OFFSET =
            PRIORITY_TXS_L1_DATA_OFFSET + PRIORITY_TXS_L1_DATA_SLOTS;
          OPERATOR_PROVIDED_L1_MESSENGER_PUBDATA_SLOTS = 1360000;
          BOOTLOADER_TX_DESCRIPTION_OFFSET =
            OPERATOR_PROVIDED_L1_MESSENGER_PUBDATA_OFFSET +
            OPERATOR_PROVIDED_L1_MESSENGER_PUBDATA_SLOTS;
          BOOTLOADER_TX_DESCRIPTION_SIZE = 2;
          MAX_POSTOP_SLOTS = PAYMASTER_CONTEXT_SLOTS + 7;
          TX_DESCRIPTION_OFFSET =
            BOOTLOADER_TX_DESCRIPTION_OFFSET + BOOTLOADER_TX_DESCRIPTION_SIZE * MAX_TXS_IN_BATCH +
            MAX_POSTOP_SLOTS
      in \<lparr>max_txs_in_batch = MAX_TXS_IN_BATCH,
         used_memory_bytes = USED_BOOTLOADER_MEMORY_BYTES, used_memory_words = USED_BOOTLOADER_MEMORY_WORDS,
         tx_description_offset = TX_DESCRIPTION_OFFSET,
         tx_encoding_space = (\<lambda>_. of_nat (USED_BOOTLOADER_MEMORY_WORDS - TX_DESCRIPTION_OFFSET - MAX_TXS_IN_BATCH))\<rparr>)"

section \<open>Limits by VM version\<close>

fun get_bootloader_encoding_space :: "nat \<Rightarrow> VmVersion \<Rightarrow> u32" where
  "get_bootloader_encoding_space heap_words M5WithRefunds = tx_encoding_space constants_m5 heap_words"
| "get_bootloader_encoding_space heap_words M5WithoutRefunds = tx_encoding_space constants_m5 heap_words"
| "get_bootloader_encoding_space heap_words M6Initial = tx_encoding_space constants_m6 heap_words"
| "get_bootloader_encoding_space heap_words M6BugWithCompressionFixed =
     tx_encoding_space constants_m6 heap_words"
| "get_bootloader_encoding_space heap_words Vm1_3_2 = tx_encoding_space constants_1_3_2 heap_words"
| "get_bootloader_encoding_space heap_words VmVirtualBlocks =
     tx_encoding_space constants_virtual_blocks heap_words"
| "get_bootloader_encoding_space heap_words VmVirtualBlocksRefundsEnhancement =
     tx_encoding_space constants_refunds_enhancement heap_words"
| "get_bootloader_encoding_space heap_words VmBoojumIntegration =
     tx_encoding_space constants_boojum_integration heap_words"
| "get_bootloader_encoding_space heap_words Vm1_4_1 = tx_encoding_space constants_1_4_1 heap_words"
| "get_bootloader_encoding_space heap_words Vm1_4_2 = tx_encoding_space constants_1_4_2 heap_words"
| "get_bootloader_encoding_space heap_words Vm1_5_0SmallBootloaderMemory =
     tx_encoding_space (constants_latest SmallBootloaderMemory) heap_words"
| "get_bootloader_encoding_space heap_words Vm1_5_0IncreasedBootloaderMemory =
     tx_encoding_space (constants_latest IncreasedBootloaderMemory) heap_words"

fun get_bootloader_max_txs_in_batch :: "VmVersion \<Rightarrow> nat" where
  "get_bootloader_max_txs_in_batch M5WithRefunds = max_txs_in_batch constants_m5"
| "get_bootloader_max_txs_in_batch M5WithoutRefunds = max_txs_in_batch constants_m5"
| "get_bootloader_max_txs_in_batch M6Initial = max_txs_in_batch constants_m6"
| "get_bootloader_max_txs_in_batch M6BugWithCompressionFixed = max_txs_in_batch constants_m6"
| "get_bootloader_max_txs_in_batch Vm1_3_2 = max_txs_in_batch constants_1_3_2"
| "get_bootloader_max_txs_in_batch VmVirtualBlocks = max_txs_in_batch constants_virtual_blocks"
| "get_bootloader_max_txs_in_batch VmVirtualBlocksRefundsEnhancement =
     max_txs_in_batch constants_refunds_enhancement"
| "get_bootloader_max_txs_in_batch VmBoojumIntegration = max_txs_in_batch constants_boojum_integration"
| "get_bootloader_max_txs_in_batch Vm1_4_1 = max_txs_in_batch constants_1_4_1"
| "get_bootloader_max_txs_in_batch Vm1_4_2 = max_txs_in_batch constants_1_4_2"
| "get_bootloader_max_txs_in_batch Vm1_5_0SmallBootloaderMemory =
     max_txs_in_batch (constants_latest SmallBootloaderMemory)"
| "get_bootloader_max_txs_in_batch Vm1_5_0IncreasedBootloaderMemory =
     max_txs_in_batch (constants_latest IncreasedBootloaderMemory)"

fun gas_bootloader_batch_tip_overhead :: "VmVersion \<Rightarrow> u32" where
  "gas_bootloader_batch_tip_overhead VmBoojumIntegration = 80000000"
| "gas_bootloader_batch_tip_overhead Vm1_4_1 = 80000000"
| "gas_bootloader_batch_tip_overhead Vm1_4_2 = 170000000"
| "gas_bootloader_batch_tip_overhead Vm1_5_0SmallBootloaderMemory = 400000000"
| "gas_bootloader_batch_tip_overhead Vm1_5_0IncreasedBootloaderMemory = 400000000"
| "gas_bootloader_batch_tip_overhead _ = 0"

fun circuit_statistics_bootloader_batch_tip_overhead :: "VmVersion \<Rightarrow> nat" where
  "circuit_statistics_bootloader_batch_tip_overhead Vm1_4_2 = 5000"
| "circuit_statistics_bootloader_batch_tip_overhead Vm1_5_0SmallBootloaderMemory = 12000"
| "circuit_statistics_bootloader_batch_tip_overhead Vm1_5_0IncreasedBootloaderMemory = 12000"
| "circuit_statistics_bootloader_batch_tip_overhead _ = 0"

fun execution_metrics_bootloader_batch_tip_overhead :: "VmVersion \<Rightarrow> nat" where
  "execution_metrics_bootloader_batch_tip_overhead Vm1_4_2 = 1500"
| "execution_metrics_bootloader_batch_tip_overhead Vm1_5_0SmallBootloaderMemory = 2000"
| "execution_metrics_bootloader_batch_tip_overhead Vm1_5_0IncreasedBootloaderMemory = 2000"
| "execution_metrics_bootloader_batch_tip_overhead _ = 0"

definition MAX_L2_TX_GAS_LIMIT :: u64 where "MAX_L2_TX_GAS_LIMIT = 80000000"

fun get_max_gas_per_pubdata_byte :: "VmVersion \<Rightarrow> u64" where
  "get_max_gas_per_pubdata_byte Vm1_4_1 = MAX_L2_TX_GAS_LIMIT div 2500"
| "get_max_gas_per_pubdata_byte Vm1_4_2 = MAX_L2_TX_GAS_LIMIT div 2500"
| "get_max_gas_per_pubdata_byte Vm1_5_0SmallBootloaderMemory = 50000"
| "get_max_gas_per_pubdata_byte Vm1_5_0IncreasedBootloaderMemory = 50000"
| "get_max_gas_per_pubdata_byte _ = MAX_L2_TX_GAS_LIMIT div 4000"

fun get_used_bootloader_memory_bytes :: "VmVersion \<Rightarrow> nat" where
  "get_used_bootloader_memory_bytes M5WithRefunds = used_memory_bytes constants_m5"
| "get_used_bootloader_memory_bytes M5WithoutRefunds = used_memory_bytes constants_m5"
| "get_used_bootloader_memory_bytes M6Initial = used_memory_bytes constants_m6"
| "get_used_bootloader_memory_bytes M6BugWithCompressionFixed = used_memory_bytes constants_m6"
| "get_used_bootloader_memory_bytes Vm1_3_2 = used_memory_bytes constants_1_3_2"
| "get_used_bootloader_memory_bytes VmVirtualBlocks = used_memory_bytes constants_virtual_blocks"
| "get_used_bootloader_memory_bytes VmVirtualBlocksRefundsEnhancement =
     used_memory_bytes constants_refunds_enhancement"
| "get_used_bootloader_memory_bytes VmBoojumIntegration = used_memory_bytes constants_boojum_integration"
| "get_used_bootloader_memory_bytes Vm1_4_1 = used_memory_bytes constants_1_4_1"
| "get_used_bootloader_memory_bytes Vm1_4_2 = used_memory_bytes constants_1_4_2"
| "get_used_bootloader_memory_bytes Vm1_5_0SmallBootloaderMemory =
     get_latest_memory_bytes SmallBootloaderMemory"
| "get_used_bootloader_memory_bytes Vm1_5_0IncreasedBootloaderMemory =
     get_latest_memory_bytes IncreasedBootloaderMemory"

text \<open>The two branches of version 1.5.0 call the function for bytes.\<close>

fun get_used_bootloader_memory_words :: "VmVersion \<Rightarrow> nat" where
  "get_used_bootloader_memory_words M5WithRefunds = used_memory_words constants_m5"
| "get_used_bootloader_memory_words M5WithoutRefunds = used_memory_words constants_m5"
| "get_used_bootloader_memory_words M6Initial = used_memory_words constants_m6"
| "get_used_bootloader_memory_words M6BugWithCompressionFixed = used_memory_words constants_m6"
| "get_used_bootloader_memory_words Vm1_3_2 = used_memory_words constants_1_3_2"
| "get_used_bootloader_memory_words VmVirtualBlocks = used_memory_words constants_virtual_blocks"
| "get_used_bootloader_memory_words VmVirtualBlocksRefundsEnhancement =
     used_memory_words constants_refunds_enhancement"
| "get_used_bootloader_memory_words VmBoojumIntegration = used_memory_words constants_boojum_integration"
| "get_used_bootloader_memory_words Vm1_4_1 = used_memory_words constants_1_4_1"
| "get_used_bootloader_memory_words Vm1_4_2 = used_memory_words constants_1_4_2"
| "get_used_bootloader_memory_words Vm1_5_0SmallBootloaderMemory =
     get_latest_memory_bytes SmallBootloaderMemory"
| "get_used_bootloader_memory_words Vm1_5_0IncreasedBootloaderMemory =
     get_latest_memory_bytes IncreasedBootloaderMemory"

fun get_eth_call_gas_limit :: "VmVersion \<Rightarrow> u64" where
  "get_eth_call_gas_limit Vm1_5_0SmallBootloaderMemory = push_bit 50 1"
| "get_eth_call_gas_limit Vm1_5_0IncreasedBootloaderMemory = push_bit 50 1"
| "get_eth_call_gas_limit _ = ucast (ucast MAX_L2_TX_GAS_LIMIT :: u32)"

fun get_max_batch_base_layer_circuits :: "VmVersion \<Rightarrow> nat" where
  "get_max_batch_base_layer_circuits Vm1_5_0SmallBootloaderMemory = 34100"
| "get_max_batch_base_layer_circuits Vm1_5_0IncreasedBootloaderMemory = 34100"
| "get_max_batch_base_layer_circuits _ = 24100"

lemma max_txs_latest [simp]: "max_txs_in_batch (constants_latest subversion) = 10000"
  by (simp add: constants_latest_def Let_def)

lemma latest_space:
  "unat (get_bootloader_encoding_space heap_words Vm1_5_0IncreasedBootloaderMemory) = 336985"
  by (simp add: constants_latest_def Let_def get_latest_memory_words_def MAX_NEW_FACTORY_DEPS_def)

end
