(* ===== verification/StateDiffs.thy ===== *)
theory StateDiffs
  imports Bytes "HOL-Library.Product_Lexorder"
begin

text \<open>
  State diffs and their compression for the pubdata:
  \<^verbatim>\<open>core/lib/types/src/storage/writes/mod.rs\<close> (records, their encoding and the compressed list) and
  \<^verbatim>\<open>core/lib/types/src/storage/writes/compression.rs\<close> (the compression of one value). A \<open>U256\<close> is a
  256-bit word with wrap-around arithmetic, a \<open>[u8; 32]\<close> a byte list of that length.

  The repository only compresses; whoever reconstructs the state from L1 decompresses. A reference
  decoder, written from the documented format, states what compression has to guarantee.
\<close>

unbundle bit_operations_syntax

section \<open>Compression of one value\<close>

definition COMPRESSION_VERSION_NUMBER :: u8 where
  "COMPRESSION_VERSION_NUMBER = 1"

definition metadata_byte :: "nat \<Rightarrow> nat \<Rightarrow> u8" where
  "metadata_byte output_sz op_id = ucast ((push_bit 3 (of_nat output_sz :: u64)) OR of_nat op_id)"

datatype CompressionMode =
    CompressionByteAdd u256 u256
  | CompressionByteSub u256 u256
  | CompressionByteTransform u256
  | CompressionByteNone u256

fun operation_id :: "CompressionMode \<Rightarrow> nat" where
  "operation_id (CompressionByteAdd _ _) = 1"
| "operation_id (CompressionByteSub _ _) = 2"
| "operation_id (CompressionByteTransform _) = 3"
| "operation_id (CompressionByteNone _) = 0"

definition diff_and_size :: "u256 \<Rightarrow> (u256 \<times> nat) option" where
  "diff_and_size diff =
     (let sz = (bit_length (unat diff) + 7) div 8
      in if sz \<ge> 31 then None else Some (diff, sz))"

fun get_diff_and_size :: "CompressionMode \<Rightarrow> (u256 \<times> nat) option" where
  "get_diff_and_size (CompressionByteAdd prev_value new_value) = diff_and_size (new_value - prev_value)"
| "get_diff_and_size (CompressionByteSub prev_value new_value) = diff_and_size (prev_value - new_value)"
| "get_diff_and_size (CompressionByteTransform new_value) = diff_and_size new_value"
| "get_diff_and_size (CompressionByteNone new_value) = None"

fun output_size :: "CompressionMode \<Rightarrow> nat option" where
  "output_size (CompressionByteNone _) = Some 32"
| "output_size c = map_option snd (get_diff_and_size c)"

fun compress_value_only :: "CompressionMode \<Rightarrow> bytes option" where
  "compress_value_only (CompressionByteNone new_value) = Some (word_be 32 new_value)"
| "compress_value_only c =
     (case get_diff_and_size c of
        None \<Rightarrow> None
      | Some (diff, sz) \<Rightarrow> Some (drop (32 - sz) (word_be 32 diff)))"

fun compress_extended :: "CompressionMode \<Rightarrow> bytes option" where
  "compress_extended (CompressionByteNone new_value) = Some (0 # word_be 32 new_value)"
| "compress_extended c =
     (case compress_value_only c of
        None \<Rightarrow> None
      | Some compressed_value \<Rightarrow>
          (case output_size c of
             None \<Rightarrow> None
           | Some sz \<Rightarrow> Some (metadata_byte sz (operation_id c) # compressed_value)))"

definition default_passes :: "u256 \<Rightarrow> u256 \<Rightarrow> CompressionMode list" where
  "default_passes prev_value new_value =
     [CompressionByteAdd prev_value new_value, CompressionByteSub prev_value new_value,
      CompressionByteTransform new_value]"

text \<open>\<open>Iterator::min_by_key\<close> returns the first of the minimal elements.\<close>

fun min_by_len :: "bytes list \<Rightarrow> bytes option" where
  "min_by_len [] = None"
| "min_by_len (x # xs) =
     (case min_by_len xs of
        None \<Rightarrow> Some x
      | Some y \<Rightarrow> if length y < length x then Some y else Some x)"

definition compress_with_best_strategy :: "u256 \<Rightarrow> u256 \<Rightarrow> bytes" where
  "compress_with_best_strategy prev_value new_value =
     (case min_by_len (List.map_filter compress_extended (default_passes prev_value new_value)) of
        Some bs \<Rightarrow> bs
      | None \<Rightarrow> 0 # word_be 32 new_value)"

section \<open>State diff records\<close>

definition BYTES_PER_ENUMERATION_INDEX :: u8 where
  "BYTES_PER_ENUMERATION_INDEX = 4"

definition STATE_DIFF_RECORD_SIZE :: nat where
  "STATE_DIFF_RECORD_SIZE = 156"

definition PADDED_ENCODED_STORAGE_DIFF_LEN_BYTES :: nat where
  "PADDED_ENCODED_STORAGE_DIFF_LEN_BYTES = 272"

record StateDiffRecord =
  sd_address :: address
  sd_key :: u256
  derived_key :: bytes
  enumeration_index :: u64
  initial_value :: u256
  final_value :: u256

definition encode :: "StateDiffRecord \<Rightarrow> bytes" where
  "encode r =
     word_be 20 (sd_address r) @ word_be 32 (sd_key r) @ derived_key r @
     word_be 8 (enumeration_index r) @ word_be 32 (initial_value r) @ word_be 32 (final_value r)"

definition encode_padded :: "StateDiffRecord \<Rightarrow> bytes" where
  "encode_padded r =
     encode r @ replicate (PADDED_ENCODED_STORAGE_DIFF_LEN_BYTES - length (encode r)) 0"

definition slice :: "nat \<Rightarrow> nat \<Rightarrow> bytes \<Rightarrow> bytes" where
  "slice a b data = take (b - a) (drop a data)"

definition try_from_slice :: "bytes \<Rightarrow> StateDiffRecord option" where
  "try_from_slice data =
     (if length data = 156
      then Some \<lparr> sd_address = word_of_be (slice 0 20 data), sd_key = word_of_be (slice 20 52 data),
                  derived_key = slice 52 84 data, enumeration_index = word_of_be (slice 84 92 data),
                  initial_value = word_of_be (slice 92 124 data),
                  final_value = word_of_be (slice 124 156 data) \<rparr>
      else None)"

text \<open>\<open>None\<close> is the panic on an index that does not fit 32 bits.\<close>

definition compress_record :: "StateDiffRecord \<Rightarrow> bytes option" where
  "compress_record r =
     map_option (\<lambda>start. start @ compress_with_best_strategy (initial_value r) (final_value r))
       (if enumeration_index r = 0 then Some (derived_key r)
        else if enumeration_index r \<le> 0xFFFFFFFF
        then Some (word_be 4 (ucast (enumeration_index r) :: u32))
        else None)"

definition is_write_initial :: "StateDiffRecord \<Rightarrow> bool" where
  "is_write_initial r \<longleftrightarrow> enumeration_index r = 0"

definition prepend_header :: "bytes \<Rightarrow> bytes" where
  "prepend_header compressed_state_diffs =
     [COMPRESSION_VERSION_NUMBER] @
     drop 1 (word_be 4 (of_nat (length compressed_state_diffs) :: u32)) @
     [BYTES_PER_ENUMERATION_INDEX] @ compressed_state_diffs"

definition sort_state_diffs :: "StateDiffRecord list \<Rightarrow> StateDiffRecord list" where
  "sort_state_diffs = sort_key (\<lambda>rec. (sd_address rec, sd_key rec))"

definition compress_state_diffs :: "StateDiffRecord list \<Rightarrow> bytes option" where
  "compress_state_diffs state_diffs =
     (let sorted = sort_state_diffs state_diffs;
          initial_writes = filter (\<lambda>rec. enumeration_index rec = 0) sorted;
          repeated_writes = filter (\<lambda>rec. enumeration_index rec \<noteq> 0) sorted
      in case those (map compress_record (initial_writes @ repeated_writes)) of
           None \<Rightarrow> None
         | Some parts \<Rightarrow>
             Some (prepend_header
               (word_be 2 (of_nat (length initial_writes) :: u16) @ concat parts)))"

section \<open>The reference decoder\<close>

text \<open>
  A compressed value starts with a metadata byte: the operation in the low three bits and the
  number of value bytes in the other five; operation 0 is followed by all 32 bytes.
\<close>

definition decompress_value :: "u256 \<Rightarrow> bytes \<Rightarrow> (u256 \<times> bytes) option" where
  "decompress_value prev bs =
     (case bs of
        [] \<Rightarrow> None
      | mb # rest \<Rightarrow>
          (let op = unat mb mod 8; len = (if op = 0 then 32 else unat mb div 8);
               v = word_of_be (take len rest)
           in if length rest < len then None
              else if op = 0 \<or> op = 3 then Some (v, drop len rest)
              else if op = 1 then Some (prev + v, drop len rest)
              else if op = 2 then Some (prev - v, drop len rest)
              else None))"

text \<open>The previous values come from the state the reader already has.\<close>

fun decode_initial :: "(bytes \<Rightarrow> u256) \<Rightarrow> nat \<Rightarrow> bytes \<Rightarrow> ((bytes \<times> u256) list \<times> bytes) option" where
  "decode_initial prev 0 bs = Some ([], bs)"
| "decode_initial prev (Suc n) bs =
     (if length bs < 32 then None
      else (case decompress_value (prev (take 32 bs)) (drop 32 bs) of
              None \<Rightarrow> None
            | Some (v, rest) \<Rightarrow>
                map_option (\<lambda>(ws, rest'). ((take 32 bs, v) # ws, rest')) (decode_initial prev n rest)))"

fun decode_repeated :: "(u32 \<Rightarrow> u256) \<Rightarrow> nat \<Rightarrow> bytes \<Rightarrow> (u32 \<times> u256) list option" where
  "decode_repeated prev 0 bs = (if bs = [] then Some [] else None)"
| "decode_repeated prev (Suc fuel) bs =
     (if bs = [] then Some []
      else if length bs < 4 then None
      else (let i = word_of_be (take 4 bs)
            in case decompress_value (prev i) (drop 4 bs) of
                 None \<Rightarrow> None
               | Some (v, rest) \<Rightarrow> map_option (\<lambda>ws. (i, v) # ws) (decode_repeated prev fuel rest)))"

definition decode_state_diffs ::
  "(bytes \<Rightarrow> u256) \<Rightarrow> (u32 \<Rightarrow> u256) \<Rightarrow> bytes \<Rightarrow> ((bytes \<times> u256) list \<times> (u32 \<times> u256) list) option" where
  "decode_state_diffs prev_key prev_index bs =
     (if length bs < 7 \<or> bs ! 0 \<noteq> 1 \<or> bs ! 4 \<noteq> 4 \<or> from_be (slice 1 4 bs) \<noteq> length bs - 5 then None
      else (case decode_initial prev_key (from_be (slice 5 7 bs)) (drop 7 bs) of
              None \<Rightarrow> None
            | Some (ini, rest) \<Rightarrow>
                map_option (\<lambda>rep. (ini, rep)) (decode_repeated prev_index (length rest) rest)))"

section \<open>Lemmas on one value\<close>

lemma bit_small:
  assumes "bit (of_nat k :: u64) n" "k < 8"
  shows "n < 3"
proof (rule ccontr)
  assume n: "\<not> n < 3"
  have "bit (unat (of_nat k :: u64)) n"
    using assms(1) bit_imp_le_length [OF assms(1)] by (simp add: bit_unsigned_iff)
  then have "bit k n" using assms(2) by (simp add: unat_of_nat)
  moreover have "k < 2 ^ n" using assms(2) power_increasing [of 3 n "2 :: nat"] n by simp
  ultimately show False by (simp add: bit_iff_odd)
qed

lemma metadata_byte_unat:
  assumes "sz < 32" "k < 8"
  shows "unat (metadata_byte sz k) = 8 * sz + k"
proof -
  have "push_bit 3 (of_nat sz :: u64) + of_nat k = push_bit 3 (of_nat sz) OR of_nat k"
    by (rule disjunctive_add) (auto simp: bit_push_bit_iff dest: bit_small [OF _ assms(2)])
  then have "metadata_byte sz k = ucast (of_nat (8 * sz + k) :: u64)"
    by (simp add: metadata_byte_def push_bit_eq_mult mult.commute)
  also have "\<dots> = (of_nat (8 * sz + k) :: u8)"
    using assms by (simp add: unsigned_of_nat take_bit_nat_eq_self del: of_nat_add of_nat_mult)
  finally have "unat (metadata_byte sz k) = unat (of_nat (8 * sz + k) :: u8)" by (rule arg_cong)
  then show ?thesis using assms by (simp only: unat_of_nat) simp
qed

lemma diff_and_size_SomeD:
  assumes "diff_and_size d = Some (d', sz)"
  shows "d' = d" "sz < 31" "sz = byte_length (unat d)"
    "drop (32 - sz) (word_be 32 d) = be_bytes sz (unat d)" "word_of_be (be_bytes sz (unat d)) = d"
proof -
  show "d' = d" "sz < 31" and sz: "sz = byte_length (unat d)"
    using assms by (auto simp: diff_and_size_def byte_length_def Let_def split: if_splits)
  have "unat d < 256 ^ sz" using less_byte_length sz by simp
  then show "drop (32 - sz) (word_be 32 d) = be_bytes sz (unat d)" "word_of_be (be_bytes sz (unat d)) = d"
    using \<open>sz < 31\<close> be_bytes_drop [of sz 32 "unat d"] by (simp_all add: word_be_def word_of_be_def)
qed

text \<open>The three passes have one shape: the operation and the difference it encodes.\<close>

definition pass :: "nat \<Rightarrow> u256 \<Rightarrow> bytes option" where
  "pass k d =
     (case diff_and_size d of
        None \<Rightarrow> None
      | Some (d', sz) \<Rightarrow> Some (metadata_byte sz k # be_bytes sz (unat d)))"

lemma compress_extended_pass:
  "compress_extended (CompressionByteAdd prev new) = pass 1 (new - prev)"
  "compress_extended (CompressionByteSub prev new) = pass 2 (prev - new)"
  "compress_extended (CompressionByteTransform new) = pass 3 new"
  by (auto simp: pass_def dest: diff_and_size_SomeD split: option.splits)

lemma decompress_pass:
  assumes "pass k d = Some bs" "0 < k" "k < 8"
  shows "decompress_value prev (bs @ rest) =
     (if k = 1 then Some (prev + d, rest) else if k = 2 then Some (prev - d, rest)
      else if k = 3 then Some (d, rest) else None)"
proof -
  obtain sz where ds: "diff_and_size d = Some (d, sz)" and bs: "bs = metadata_byte sz k # be_bytes sz (unat d)"
    using assms(1) by (auto simp: pass_def dest: diff_and_size_SomeD split: option.splits)
  have "unat (metadata_byte sz k) = 8 * sz + k"
    using metadata_byte_unat diff_and_size_SomeD(2) [OF ds] assms(3) by simp
  then show ?thesis
    using assms(2,3) bs diff_and_size_SomeD(5) [OF ds] by (auto simp: decompress_value_def Let_def)
qed

lemma length_pass: "pass k d = Some bs \<Longrightarrow> length bs = 1 + byte_length (unat d) \<and> length bs \<le> 31"
  by (auto simp: pass_def dest: diff_and_size_SomeD split: option.splits)

lemma min_by_len_None [simp]: "min_by_len xs = None \<longleftrightarrow> xs = []"
  by (cases xs) (auto split: option.splits)

lemma min_by_len_Some: "min_by_len xs = Some x \<Longrightarrow> x \<in> set xs \<and> (\<forall>y\<in>set xs. length x \<le> length y)"
  by (induction xs arbitrary: x) (fastforce split: option.splits if_splits)+

definition candidates :: "u256 \<Rightarrow> u256 \<Rightarrow> bytes list" where
  "candidates prev new = List.map_filter (\<lambda>x. x) [pass 1 (new - prev), pass 2 (prev - new), pass 3 new]"

lemma compress_with_best_strategy_eq:
  "compress_with_best_strategy prev new =
     (case min_by_len (candidates prev new) of Some bs \<Rightarrow> bs | None \<Rightarrow> 0 # word_be 32 new)"
  by (simp only: compress_with_best_strategy_def candidates_def default_passes_def
      List.map_filter_simps compress_extended_pass)

lemma candidatesD:
  assumes "bs \<in> set (candidates prev new)"
  obtains "pass 1 (new - prev) = Some bs" | "pass 2 (prev - new) = Some bs" | "pass 3 new = Some bs"
  using assms by (auto simp: candidates_def List.map_filter_def split: if_splits)

lemma decompress_compress:
  "decompress_value prev (compress_with_best_strategy prev new @ rest) = Some (new, rest)"
proof (cases "min_by_len (candidates prev new)")
  case None
  then show ?thesis
    by (simp add: compress_with_best_strategy_eq decompress_value_def Let_def word_of_be_word_be)
next
  case (Some bs)
  then have "bs \<in> set (candidates prev new)" using min_by_len_Some by blast
  then have "decompress_value prev (bs @ rest) = Some (new, rest)"
    by (rule candidatesD) (auto dest: decompress_pass [where prev = prev and rest = rest])
  then show ?thesis using Some by (simp add: compress_with_best_strategy_eq)
qed

lemma length_compress_with_best_strategy: "length (compress_with_best_strategy prev new) \<le> 33"
proof (cases "min_by_len (candidates prev new)")
  case (Some bs)
  then have "bs \<in> set (candidates prev new)" using min_by_len_Some by blast
  then have "length bs \<le> 31" by (rule candidatesD) (auto dest: length_pass)
  then show ?thesis using Some by (simp add: compress_with_best_strategy_eq)
qed (simp add: compress_with_best_strategy_eq)

lemma compress_with_best_strategy_nonempty: "compress_with_best_strategy prev new \<noteq> []"
  using decompress_compress [of prev new "[]"] by (auto simp: decompress_value_def)

section \<open>Lemmas on lists of records\<close>

abbreviation compressed_value :: "StateDiffRecord \<Rightarrow> bytes" where
  "compressed_value r \<equiv> compress_with_best_strategy (initial_value r) (final_value r)"

lemma compress_record_cases:
  "compress_record r =
     (if enumeration_index r = 0 then Some (derived_key r @ compressed_value r)
      else if enumeration_index r \<le> 0xFFFFFFFF
      then Some (word_be 4 (ucast (enumeration_index r) :: u32) @ compressed_value r)
      else None)"
  by (simp add: compress_record_def)

lemma decode_initial_ok:
  assumes "\<forall>r\<in>set rs. length (derived_key r) = 32 \<and> prev (derived_key r) = initial_value r"
  shows "decode_initial prev (length rs) (concat (map (\<lambda>r. derived_key r @ compressed_value r) rs) @ rest) =
     Some (map (\<lambda>r. (derived_key r, final_value r)) rs, rest)"
  using assms
proof (induction rs)
  case (Cons r rs)
  then have "length (derived_key r) = 32" "prev (derived_key r) = initial_value r" by auto
  then show ?case using Cons by (simp add: decompress_compress)
qed simp

lemma decode_repeated_ok:
  assumes "\<forall>r\<in>set rs. prev (ucast (enumeration_index r)) = initial_value r" "length rs \<le> fuel"
  shows "decode_repeated prev fuel
       (concat (map (\<lambda>r. word_be 4 (ucast (enumeration_index r) :: u32) @ compressed_value r) rs)) =
     Some (map (\<lambda>r. (ucast (enumeration_index r), final_value r)) rs)"
  using assms
proof (induction rs arbitrary: fuel)
  case Nil
  then show ?case by (cases fuel) auto
next
  case (Cons r rs)
  then obtain f where f: "fuel = Suc f" "length rs \<le> f" by (cases fuel) auto
  let ?i = "ucast (enumeration_index r) :: u32"
  have "prev ?i = initial_value r" "word_of_be (word_be 4 ?i) = ?i"
    using Cons.prems(1) by (simp_all add: word_of_be_word_be)
  moreover have "word_be 4 ?i \<noteq> []" using length_word_be [of 4 ?i] by force
  ultimately show ?case
    using Cons.IH [of f] Cons.prems(1) f by (simp add: decompress_compress Let_def)
qed

lemma length_concat_ge:
  "\<forall>r\<in>set rs. f r \<noteq> [] \<Longrightarrow> length rs \<le> length (concat (map f rs))"
proof (induction rs)
  case (Cons r rs)
  then have "1 \<le> length (f r)" by (cases "f r") auto
  then show ?case using Cons by simp
qed simp

lemma set_sort_state_diffs [simp]: "set (sort_state_diffs ds) = set ds"
  by (simp add: sort_state_diffs_def)

lemma compress_state_diffs_Some:
  assumes "\<forall>r\<in>set ds. enumeration_index r \<le> 0xFFFFFFFF"
  shows "compress_state_diffs ds = Some (prepend_header
     (word_be 2 (of_nat (length (filter is_write_initial (sort_state_diffs ds))) :: u16) @
      concat (map (\<lambda>r. derived_key r @ compressed_value r) (filter is_write_initial (sort_state_diffs ds))) @
      concat (map (\<lambda>r. word_be 4 (ucast (enumeration_index r) :: u32) @ compressed_value r)
        (filter (\<lambda>r. \<not> is_write_initial r) (sort_state_diffs ds)))))"
proof -
  let ?ini = "filter (\<lambda>r. enumeration_index r = 0) (sort_state_diffs ds)"
  let ?rep = "filter (\<lambda>r. enumeration_index r \<noteq> 0) (sort_state_diffs ds)"
  have "those (map compress_record (?ini @ ?rep)) = Some (map (\<lambda>r. the (compress_record r)) (?ini @ ?rep))"
    using assms by (intro those_map_Some) (auto simp: compress_record_cases)
  moreover have "map (\<lambda>r. the (compress_record r)) ?ini = map (\<lambda>r. derived_key r @ compressed_value r) ?ini"
    by (auto simp: compress_record_cases)
  moreover have "map (\<lambda>r. the (compress_record r)) ?rep =
      map (\<lambda>r. word_be 4 (ucast (enumeration_index r) :: u32) @ compressed_value r) ?rep"
    using assms by (auto simp: compress_record_cases)
  ultimately show ?thesis by (simp add: compress_state_diffs_def Let_def is_write_initial_def [abs_def])
qed

lemma decode_header:
  assumes "length body < 2 ^ 24" "n < 2 ^ 16" "body = word_be 2 (of_nat n :: u16) @ payload"
  shows "decode_state_diffs pk pi (prepend_header body) =
     (case decode_initial pk n payload of
        None \<Rightarrow> None
      | Some (ini, rest) \<Rightarrow> map_option (\<lambda>rep. (ini, rep)) (decode_repeated pi (length rest) rest))"
proof -
  let ?len = "of_nat (length body) :: u32"
  have "unat ?len = length body" using assms(1) by (simp add: unat_of_nat)
  then have len: "drop 1 (word_be 4 ?len) = be_bytes 3 (length body)"
    using be_bytes_drop [of 3 4 "length body"] assms(1) by (simp add: word_be_def)
  then have hdr: "prepend_header body = 1 # be_bytes 3 (length body) @ 4 # body"
    by (simp add: prepend_header_def COMPRESSION_VERSION_NUMBER_def BYTES_PER_ENUMERATION_INDEX_def)
  have "unat (of_nat n :: u16) = n" using assms(2) by (simp add: unat_of_nat)
  then have body: "body = be_bytes 2 n @ payload" using assms(3) by (simp add: word_be_def)
  have "length body < 256 ^ 3" "n < 256 ^ 2" using assms(1,2) by simp_all
  note vals = this [THEN from_be_be_bytes_id]
  obtain a b c where abc: "be_bytes 3 (length body) = [a, b, c]"
    using length_be_bytes [of 3 "length body"]
    by (auto simp: length_Suc_conv numeral_3_eq_3 simp del: length_be_bytes be_bytes.simps)
  obtain x y where xy: "be_bytes 2 n = [x, y]"
    using length_be_bytes [of 2 n]
    by (auto simp: length_Suc_conv numeral_2_eq_2 simp del: length_be_bytes be_bytes.simps)
  have "from_be [a, b, c] = Suc (Suc (length payload))" "from_be [x, y] = n"
    using vals abc xy body by simp_all
  moreover have "prepend_header body = 1 # a # b # c # 4 # x # y # payload"
    using hdr abc body xy by simp
  ultimately show ?thesis by (simp add: decode_state_diffs_def slice_def del: from_be.simps)
qed

lemma slice_append: "a \<le> b \<Longrightarrow> b \<le> c \<Longrightarrow> slice a b data @ slice b c data = slice a c data"
  using take_add [of "b - a" "c - b" "drop a data"] by (simp add: slice_def)

section \<open>Properties\<close>

text \<open>
  C29. Nothing is lost: a reader who knows the previous values recovers from the compressed state
  diffs the new value of every slot, the initial writes by derived key and the repeated writes by
  index, in the order of address and key. This needs at most 65535 initial writes and fewer than
  \<open>2 ^ 24\<close> bytes, the ranges of the two length fields.
\<close>

theorem state_diffs_roundtrip:
  assumes "compress_state_diffs ds = Some bs"
    and "\<forall>r\<in>set ds. length (derived_key r) = 32 \<and> enumeration_index r \<le> 0xFFFFFFFF"
    and "\<forall>r\<in>set ds. is_write_initial r \<longrightarrow> prev_key (derived_key r) = initial_value r"
    and "\<forall>r\<in>set ds. \<not> is_write_initial r \<longrightarrow> prev_index (ucast (enumeration_index r)) = initial_value r"
    and "length (filter is_write_initial (sort_state_diffs ds)) < 2 ^ 16" "length bs < 2 ^ 24"
  shows "decode_state_diffs prev_key prev_index bs =
     Some (map (\<lambda>r. (derived_key r, final_value r)) (filter is_write_initial (sort_state_diffs ds)),
           map (\<lambda>r. (ucast (enumeration_index r), final_value r))
             (filter (\<lambda>r. \<not> is_write_initial r) (sort_state_diffs ds)))"
proof -
  let ?ini = "filter is_write_initial (sort_state_diffs ds)"
  let ?rep = "filter (\<lambda>r. \<not> is_write_initial r) (sort_state_diffs ds)"
  let ?enc = "\<lambda>r. word_be 4 (ucast (enumeration_index r) :: u32) @ compressed_value r"
  define payload where "payload = concat (map (\<lambda>r. derived_key r @ compressed_value r) ?ini) @ concat (map ?enc ?rep)"
  define body where "body = word_be 2 (of_nat (length ?ini) :: u16) @ payload"
  have bs: "bs = prepend_header body"
    using assms(1,2) compress_state_diffs_Some [of ds] by (simp add: body_def payload_def)
  then have "length body < 2 ^ 24" using assms(6) by (simp add: prepend_header_def)
  note header = decode_header [OF this assms(5) body_def, of prev_key prev_index]
  have "decode_initial prev_key (length ?ini) payload =
      Some (map (\<lambda>r. (derived_key r, final_value r)) ?ini, concat (map ?enc ?rep))"
    unfolding payload_def using assms(2,3) by (intro decode_initial_ok) auto
  moreover have "decode_repeated prev_index (length (concat (map ?enc ?rep))) (concat (map ?enc ?rep)) =
      Some (map (\<lambda>r. (ucast (enumeration_index r), final_value r)) ?rep)"
    using assms(4) compress_with_best_strategy_nonempty
    by (intro decode_repeated_ok length_concat_ge) auto
  ultimately show ?thesis using header bs by simp
qed

definition demo_diff :: "address \<Rightarrow> u64 \<Rightarrow> u256 \<Rightarrow> u256 \<Rightarrow> StateDiffRecord" where
  "demo_diff a i old new =
     \<lparr> sd_address = a, sd_key = 7, derived_key = replicate 32 9, enumeration_index = i,
       initial_value = old, final_value = new \<rparr>"

theorem state_diffs_roundtrip_witness:
  "\<exists>bs. compress_state_diffs [demo_diff 2 5 1000 998, demo_diff 1 0 0 300] = Some bs \<and>
     decode_state_diffs (\<lambda>_. 0) (\<lambda>_. 1000) bs = Some ([(replicate 32 9, 300)], [(5, 998)])"
proof -
  let ?ds = "[demo_diff 2 5 1000 998, demo_diff 1 0 0 300]"
  have sorted: "sort_state_diffs ?ds = [demo_diff 1 0 0 300, demo_diff 2 5 1000 998]"
    by (simp add: sort_state_diffs_def demo_diff_def word_le_nat_alt)
  obtain bs where run: "compress_state_diffs ?ds = Some bs"
    using compress_state_diffs_Some [of ?ds] by (simp add: demo_diff_def)
  have "length bs \<le> 5 + (2 + (32 + 33 + (4 + 33)))"
    using run compress_state_diffs_Some [of ?ds] sorted
      length_compress_with_best_strategy [of 0 300] length_compress_with_best_strategy [of 1000 998]
    by (simp add: prepend_header_def demo_diff_def is_write_initial_def)
  then show ?thesis
    using state_diffs_roundtrip [OF run, of "\<lambda>_. 0" "\<lambda>_. 1000"] run sorted
    by (simp add: demo_diff_def is_write_initial_def)
qed

text \<open>
  C30. One value: for every previous and new value the compressed form decodes to the new value in
  front of any other data. It is at most 33 bytes long and no longer than any of the three
  strategies that applies.
\<close>

theorem compressed_value_roundtrip:
  "decompress_value prev (compress_with_best_strategy prev new @ rest) = Some (new, rest) \<and>
   length (compress_with_best_strategy prev new) \<le> 33 \<and>
   list_all (\<lambda>mode. case compress_extended mode of
       Some bs \<Rightarrow> length (compress_with_best_strategy prev new) \<le> length bs | None \<Rightarrow> True)
     (default_passes prev new)"
proof -
  have "length (compress_with_best_strategy prev new) \<le> length bs"
    if "mode \<in> set (default_passes prev new)" "compress_extended mode = Some bs" for mode bs
  proof -
    have "bs \<in> set (candidates prev new)"
      using that by (auto simp: default_passes_def candidates_def List.map_filter_def compress_extended_pass
          simp del: compress_extended.simps split: if_splits)
    then obtain best where "min_by_len (candidates prev new) = Some best"
      by (cases "min_by_len (candidates prev new)") auto
    then show ?thesis
      using min_by_len_Some \<open>bs \<in> set _\<close> by (simp add: compress_with_best_strategy_eq)
  qed
  then show ?thesis
    using decompress_compress length_compress_with_best_strategy
    by (auto simp: list_all_iff simp del: compress_extended.simps split: option.splits)
qed

text \<open>
  The fixed-width encoding of a record has 156 bytes, decodes to the record, and is the only
  byte string that does.
\<close>

theorem state_diff_record_roundtrip:
  assumes "length (derived_key r) = 32"
  shows "length (encode r) = STATE_DIFF_RECORD_SIZE \<and> (try_from_slice data = Some r \<longleftrightarrow> data = encode r)"
proof
  show len: "length (encode r) = STATE_DIFF_RECORD_SIZE"
    using assms by (simp add: encode_def STATE_DIFF_RECORD_SIZE_def)
  have "try_from_slice (encode r) = Some r"
    using assms by (simp add: try_from_slice_def encode_def slice_def word_of_be_word_be)
  moreover have "data = encode r" if "try_from_slice data = Some r"
  proof -
    have d: "length data = 156" using that by (simp add: try_from_slice_def split: if_splits)
    let ?s = "\<lambda>a b. slice a b data"
    have "encode r = ?s 0 20 @ ?s 20 52 @ ?s 52 84 @ ?s 84 92 @ ?s 92 124 @ ?s 124 156"
      using that d by (auto simp: try_from_slice_def encode_def word_be_word_of_be slice_def)
    also have "\<dots> = data"
      using d by (simp add: slice_append) (simp add: slice_def)
    finally show ?thesis by simp
  qed
  ultimately show "try_from_slice data = Some r \<longleftrightarrow> data = encode r" by auto
qed

theorem state_diff_record_roundtrip_witness:
  "length (encode (demo_diff 2 5 1000 998)) = 156 \<and>
   try_from_slice (encode (demo_diff 2 5 1000 998)) = Some (demo_diff 2 5 1000 998)"
  using state_diff_record_roundtrip [of "demo_diff 2 5 1000 998" "encode (demo_diff 2 5 1000 998)"]
  by (simp add: demo_diff_def STATE_DIFF_RECORD_SIZE_def)

text \<open>
  Size bounds and the only panic: a compressed initial write has at most 65 bytes, a repeated
  write at most 37, and compression fails exactly if some index does not fit 32 bits.
\<close>

theorem compress_bounds:
  assumes "length (derived_key r) = 32"
  shows "case compress_record r of
      Some bs \<Rightarrow> length bs \<le> (if is_write_initial r then 65 else 37)
    | None \<Rightarrow> 2 ^ 32 \<le> unat (enumeration_index r)"
proof -
  have "\<not> enumeration_index r \<le> 0xFFFFFFFF \<longleftrightarrow> 2 ^ 32 \<le> unat (enumeration_index r)"
    unfolding word_le_nat_alt by simp linarith
  then show ?thesis
    using assms length_compress_with_best_strategy [of "initial_value r" "final_value r"]
    by (simp add: compress_record_cases is_write_initial_def)
qed

theorem compress_bounds_witness:
  "case compress_record (demo_diff 1 0 0 300) of
      Some bs \<Rightarrow> length bs \<le> 65 | None \<Rightarrow> False"
  using compress_bounds [of "demo_diff 1 0 0 300"]
  by (simp add: demo_diff_def is_write_initial_def compress_record_cases)

end
