(* ===== verification/WritesDeduplicator.thy ===== *)
theory WritesDeduplicator
  imports StateDiffs
begin

text \<open>
  The deduplication of storage writes while a batch is executed:
  \<^verbatim>\<open>core/lib/types/src/storage_writes_deduplicator.rs\<close>, the logs of
  \<^verbatim>\<open>core/lib/types/src/storage/log.rs\<close> and the metrics of
  \<^verbatim>\<open>core/lib/types/src/tx/tx_execution_info.rs\<close>. A storage key is an address and a slot; an \<open>H256\<close>
  value is the number it encodes. The counters are natural numbers whose subtraction fails
  (\<open>None\<close>) where \<open>usize\<close> would underflow; the \<open>panic!\<close> branches are \<open>None\<close> as well.
\<close>

section \<open>Logs\<close>

type_synonym storage_key = "address \<times> u256"

datatype StorageLogKind = ReadLog | InitialWrite | RepeatedWrite

record StorageLog =
  log_kind :: StorageLogKind
  log_key :: storage_key
  log_value :: u256

record StorageLogWithPreviousValue =
  log :: StorageLog
  previous_value :: u256

definition is_write :: "StorageLog \<Rightarrow> bool" where
  "is_write l \<longleftrightarrow> log_kind l \<noteq> ReadLog"

section \<open>The deduplicator\<close>

record ModifiedSlot =
  slot_value :: u256
  slot_size :: nat

datatype UpdateType = RemoveSlot ModifiedSlot | UpdateSlot ModifiedSlot | InsertSlot

record UpdateItem =
  item_key :: storage_key
  update_type :: UpdateType
  item_is_write_initial :: bool

record DeduplicatedWritesMetrics =
  initial_storage_writes :: nat
  repeated_storage_writes :: nat
  total_updated_values_size :: nat

record StorageWritesDeduplicator =
  initial_values :: "(storage_key \<times> u256) list"
  modified_key_values :: "(storage_key \<times> ModifiedSlot) list"
  dd_metrics :: DeduplicatedWritesMetrics

definition StorageWritesDeduplicator_new :: StorageWritesDeduplicator where
  "StorageWritesDeduplicator_new =
     \<lparr> initial_values = [], modified_key_values = [],
       dd_metrics = \<lparr> initial_storage_writes = 0, repeated_storage_writes = 0,
                      total_updated_values_size = 0 \<rparr> \<rparr>"

definition checked_sub :: "nat \<Rightarrow> nat \<Rightarrow> nat option" where
  "checked_sub a b = (if b \<le> a then Some (a - b) else None)"

text \<open>\<open>field_to_change\<close> is the counter that \<open>is_write_initial\<close> selects.\<close>

definition add_write :: "bool \<Rightarrow> DeduplicatedWritesMetrics \<Rightarrow> DeduplicatedWritesMetrics" where
  "add_write ini mt =
     (if ini then mt\<lparr> initial_storage_writes := initial_storage_writes mt + 1 \<rparr>
      else mt\<lparr> repeated_storage_writes := repeated_storage_writes mt + 1 \<rparr>)"

definition sub_write :: "bool \<Rightarrow> DeduplicatedWritesMetrics \<Rightarrow> DeduplicatedWritesMetrics option" where
  "sub_write ini mt =
     (if ini then map_option (\<lambda>n. mt\<lparr> initial_storage_writes := n \<rparr>) (checked_sub (initial_storage_writes mt) 1)
      else map_option (\<lambda>n. mt\<lparr> repeated_storage_writes := n \<rparr>) (checked_sub (repeated_storage_writes mt) 1))"

definition add_size :: "nat \<Rightarrow> DeduplicatedWritesMetrics \<Rightarrow> DeduplicatedWritesMetrics" where
  "add_size n mt = mt\<lparr> total_updated_values_size := total_updated_values_size mt + n \<rparr>"

definition sub_size :: "nat \<Rightarrow> DeduplicatedWritesMetrics \<Rightarrow> DeduplicatedWritesMetrics option" where
  "sub_size n mt =
     map_option (\<lambda>k. mt\<lparr> total_updated_values_size := k \<rparr>) (checked_sub (total_updated_values_size mt) n)"

definition modified_slot :: "u256 \<Rightarrow> u256 \<Rightarrow> ModifiedSlot" where
  "modified_slot init_value new_value =
     \<lparr> slot_value = new_value, slot_size = length (compress_with_best_strategy init_value new_value) \<rparr>"

text \<open>The body of the loop over the write logs.\<close>

definition process_write ::
  "StorageLogWithPreviousValue \<Rightarrow> StorageWritesDeduplicator \<Rightarrow> (UpdateItem list \<times> StorageWritesDeduplicator) option" where
  "process_write l s =
     (let key = log_key (log l);
          init_value = (case map_of (initial_values s) key of Some v \<Rightarrow> v | None \<Rightarrow> previous_value l);
          s1 = (case map_of (initial_values s) key of
                  Some _ \<Rightarrow> s
                | None \<Rightarrow> s\<lparr> initial_values := AList.update key (previous_value l) (initial_values s) \<rparr>);
          ini = (log_kind (log l) = InitialWrite);
          slot = modified_slot init_value (log_value (log l))
      in case map_of (modified_key_values s) key of
           Some old \<Rightarrow>
             if init_value = log_value (log l)
             then Option.bind (sub_write ini (dd_metrics s)) (\<lambda>mt.
                  Option.bind (sub_size (slot_size old) mt) (\<lambda>mt'.
                  Some ([\<lparr> item_key = key, update_type = RemoveSlot old, item_is_write_initial = ini \<rparr>],
                        s1\<lparr> modified_key_values := AList.delete key (modified_key_values s),
                            dd_metrics := mt' \<rparr>)))
             else Option.bind (sub_size (slot_size old) (dd_metrics s)) (\<lambda>mt.
                  Some ([\<lparr> item_key = key, update_type = UpdateSlot old, item_is_write_initial = ini \<rparr>],
                        s1\<lparr> modified_key_values := AList.update key slot (modified_key_values s),
                            dd_metrics := add_size (slot_size slot) mt \<rparr>))
         | None \<Rightarrow>
             if init_value = log_value (log l) then Some ([], s1)
             else Some ([\<lparr> item_key = key, update_type = InsertSlot, item_is_write_initial = ini \<rparr>],
                        s1\<lparr> modified_key_values := AList.update key slot (modified_key_values s),
                            dd_metrics := add_size (slot_size slot) (add_write ini (dd_metrics s)) \<rparr>))"

fun process_storage_logs ::
  "StorageLogWithPreviousValue list \<Rightarrow> StorageWritesDeduplicator \<Rightarrow> (UpdateItem list \<times> StorageWritesDeduplicator) option" where
  "process_storage_logs [] s = Some ([], s)"
| "process_storage_logs (l # ls) s =
     (if is_write (log l)
      then Option.bind (process_write l s) (\<lambda>(us, s1).
             map_option (\<lambda>(us', s2). (us @ us', s2)) (process_storage_logs ls s1))
      else process_storage_logs ls s)"

definition rollback_item :: "UpdateItem \<Rightarrow> StorageWritesDeduplicator \<Rightarrow> StorageWritesDeduplicator option" where
  "rollback_item item s =
     (case update_type item of
        InsertSlot \<Rightarrow>
          (case map_of (modified_key_values s) (item_key item) of
             None \<Rightarrow> None
           | Some v \<Rightarrow>
               Option.bind (sub_write (item_is_write_initial item) (dd_metrics s)) (\<lambda>mt.
               Option.bind (sub_size (slot_size v) mt) (\<lambda>mt'.
               Some (s\<lparr> modified_key_values := AList.delete (item_key item) (modified_key_values s),
                        dd_metrics := mt' \<rparr>))))
      | UpdateSlot v \<Rightarrow>
          (case map_of (modified_key_values s) (item_key item) of
             None \<Rightarrow> None
           | Some old \<Rightarrow>
               Option.bind (sub_size (slot_size old) (add_size (slot_size v) (dd_metrics s))) (\<lambda>mt.
               Some (s\<lparr> modified_key_values := AList.update (item_key item) v (modified_key_values s),
                        dd_metrics := mt \<rparr>)))
      | RemoveSlot v \<Rightarrow>
          Some (s\<lparr> modified_key_values := AList.update (item_key item) v (modified_key_values s),
                   dd_metrics := add_size (slot_size v)
                     (add_write (item_is_write_initial item) (dd_metrics s)) \<rparr>))"

fun rollback_items :: "UpdateItem list \<Rightarrow> StorageWritesDeduplicator \<Rightarrow> StorageWritesDeduplicator option" where
  "rollback_items [] s = Some s"
| "rollback_items (u # us) s = Option.bind (rollback_item u s) (rollback_items us)"

definition dd_rollback :: "UpdateItem list \<Rightarrow> StorageWritesDeduplicator \<Rightarrow> StorageWritesDeduplicator option" where
  "dd_rollback updates s = rollback_items (rev updates) s"

definition dd_apply :: "StorageLogWithPreviousValue list \<Rightarrow> StorageWritesDeduplicator \<Rightarrow> StorageWritesDeduplicator option" where
  "dd_apply logs s = map_option snd (process_storage_logs logs s)"

definition apply_and_rollback ::
  "StorageLogWithPreviousValue list \<Rightarrow> StorageWritesDeduplicator
   \<Rightarrow> (DeduplicatedWritesMetrics \<times> StorageWritesDeduplicator) option" where
  "apply_and_rollback logs s =
     Option.bind (process_storage_logs logs s) (\<lambda>(updates, s1).
       map_option (\<lambda>s2. (dd_metrics s1, s2)) (dd_rollback updates s1))"

definition apply_on_empty_state :: "StorageLogWithPreviousValue list \<Rightarrow> DeduplicatedWritesMetrics option" where
  "apply_on_empty_state logs = map_option dd_metrics (dd_apply logs StorageWritesDeduplicator_new)"

definition BYTES_PER_DERIVED_KEY :: u8 where
  "BYTES_PER_DERIVED_KEY = 32"

text \<open>\<open>DeduplicatedWritesMetrics::size\<close> for the protocol versions since Boojum.\<close>

definition metrics_size :: "DeduplicatedWritesMetrics \<Rightarrow> nat" where
  "metrics_size mt =
     total_updated_values_size mt + unat BYTES_PER_DERIVED_KEY * initial_storage_writes mt +
     unat BYTES_PER_ENUMERATION_INDEX * repeated_storage_writes mt"

section \<open>Invariant\<close>

text \<open>
  Whether a write to a key is initial is a fact about the key while a batch is open (\<open>ini\<close>): the
  slot has no index in the tree yet.
\<close>

definition kinds_ok :: "(storage_key \<Rightarrow> bool) \<Rightarrow> StorageLogWithPreviousValue list \<Rightarrow> bool" where
  "kinds_ok ini ls \<longleftrightarrow>
     (\<forall>l\<in>set ls. is_write (log l) \<longrightarrow> (log_kind (log l) = InitialWrite \<longleftrightarrow> ini (log_key (log l))))"

definition exact_metrics ::
  "(storage_key \<Rightarrow> bool) \<Rightarrow> (storage_key \<times> ModifiedSlot) list \<Rightarrow> DeduplicatedWritesMetrics" where
  "exact_metrics ini kvs =
     \<lparr> initial_storage_writes = sum_list (map (\<lambda>(k, _). if ini k then 1 else 0) kvs),
       repeated_storage_writes = sum_list (map (\<lambda>(k, _). if ini k then 0 else 1) kvs),
       total_updated_values_size = sum_list (map (\<lambda>(_, v). slot_size v) kvs) \<rparr>"

definition slot_ok :: "u256 option \<Rightarrow> ModifiedSlot option \<Rightarrow> bool" where
  "slot_ok init slot \<longleftrightarrow>
     (case slot of
        None \<Rightarrow> True
      | Some v \<Rightarrow> (\<exists>iv. init = Some iv \<and> slot_value v \<noteq> iv \<and> v = modified_slot iv (slot_value v)))"

definition dd_inv :: "(storage_key \<Rightarrow> bool) \<Rightarrow> StorageWritesDeduplicator \<Rightarrow> bool" where
  "dd_inv ini s \<longleftrightarrow>
     distinct (map fst (modified_key_values s)) \<and>
     (\<forall>k. slot_ok (map_of (initial_values s) k) (map_of (modified_key_values s) k)) \<and>
     dd_metrics s = exact_metrics ini (modified_key_values s)"

section \<open>The metrics stay exact\<close>

lemma checked_sub_add [simp]: "checked_sub (a + b) b = Some a" "checked_sub (b + a) b = Some a"
  by (simp_all add: checked_sub_def)

lemma exact_delete:
  assumes "distinct (map fst al)" "map_of al k = Some old"
  shows "Option.bind (sub_write (ini k) (exact_metrics ini al)) (sub_size (slot_size old)) =
     Some (exact_metrics ini (AList.delete k al))"
proof -
  note parts = sum_alist_delete [OF assms(1), of _ k, symmetric, unfolded assms(2) option.case]
  show ?thesis
    by (simp add: exact_metrics_def sub_write_def sub_size_def parts checked_sub_def)
qed

lemma exact_update:
  assumes "distinct (map fst al)" "map_of al k = Some old"
  shows "Option.bind (sub_size (slot_size old) (exact_metrics ini al)) (\<lambda>mt. Some (add_size (slot_size v) mt)) =
     Some (exact_metrics ini (AList.update k v al))"
proof -
  have "sum_list (map f (AList.update k v al)) + f (k, old) = sum_list (map f al) + f (k, v)"
    for f :: "storage_key \<times> ModifiedSlot \<Rightarrow> nat"
    using sum_alist_update [OF assms(1), of f k v] assms(2) by simp
  from this [of "\<lambda>(k, _). if ini k then 1 else 0"] this [of "\<lambda>(k, _). if ini k then 0 else 1"]
    this [of "\<lambda>(_, v). slot_size v"]
    sum_alist_delete [OF assms(1), of "\<lambda>(_, v). slot_size v" k, unfolded assms(2) option.case]
  show ?thesis by (auto simp: exact_metrics_def sub_size_def add_size_def checked_sub_def)
qed

lemma exact_insert:
  assumes "distinct (map fst al)" "map_of al k = None"
  shows "add_size (slot_size v) (add_write (ini k) (exact_metrics ini al)) =
     exact_metrics ini (AList.update k v al)"
proof -
  have "sum_list (map f (AList.update k v al)) = sum_list (map f al) + f (k, v)"
    for f :: "storage_key \<times> ModifiedSlot \<Rightarrow> nat"
    using sum_alist_update [OF assms(1), of f k v] assms(2) by simp
  then show ?thesis by (simp add: exact_metrics_def add_size_def add_write_def)
qed

section \<open>What processing computes\<close>

definition writes_to :: "storage_key \<Rightarrow> StorageLogWithPreviousValue list \<Rightarrow> StorageLogWithPreviousValue list" where
  "writes_to k ls = filter (\<lambda>l. is_write (log l) \<and> log_key (log l) = k) ls"

text \<open>
  The reference: what a key's first known value and its modified slot are after the writes \<open>ws\<close> to
  it, given what they were before. Only the previous value of the first write and the value of
  the last one count.
\<close>

fun init_after :: "u256 option \<Rightarrow> StorageLogWithPreviousValue list \<Rightarrow> u256 option" where
  "init_after init [] = init"
| "init_after init (w # ws) = Some (case init of Some v \<Rightarrow> v | None \<Rightarrow> previous_value w)"

fun slot_after ::
  "u256 option \<Rightarrow> ModifiedSlot option \<Rightarrow> StorageLogWithPreviousValue list \<Rightarrow> ModifiedSlot option" where
  "slot_after init slot [] = slot"
| "slot_after init slot (w # ws) =
     (let iv = (case init of Some v \<Rightarrow> v | None \<Rightarrow> previous_value w);
          v = log_value (log (last (w # ws)))
      in if iv = v then None else Some (modified_slot iv v))"

declare split_paired_All [simp del] split_paired_Ex [simp del]

lemma slot_value_modified_slot [simp]: "slot_value (modified_slot iv v) = v"
  by (simp add: modified_slot_def)

lemma process_write_spec:
  assumes inv: "dd_inv ini s" and kind: "log_kind (log l) = InitialWrite \<longleftrightarrow> ini (log_key (log l))"
  shows "\<exists>us s'. process_write l s = Some (us, s') \<and> dd_inv ini s' \<and>
     map_of (initial_values s') = (map_of (initial_values s))
       (log_key (log l) := init_after (map_of (initial_values s) (log_key (log l))) [l]) \<and>
     map_of (modified_key_values s') = (map_of (modified_key_values s))
       (log_key (log l) := slot_after (map_of (initial_values s) (log_key (log l)))
          (map_of (modified_key_values s) (log_key (log l))) [l])"
proof -
  define k where "k = log_key (log l)"
  define kvs where "kvs = modified_key_values s"
  define iv where "iv = (case map_of (initial_values s) k of Some v \<Rightarrow> v | None \<Rightarrow> previous_value l)"
  define s1 where "s1 = (case map_of (initial_values s) k of Some _ \<Rightarrow> s
    | None \<Rightarrow> s\<lparr> initial_values := AList.update k (previous_value l) (initial_values s) \<rparr>)"
  let ?slot = "modified_slot iv (log_value (log l))"
  have s1: "map_of (initial_values s1) = (map_of (initial_values s))(k \<mapsto> iv)"
    by (auto simp: s1_def iv_def AList.update_conv' fun_eq_iff split: option.splits)
  have dist: "distinct (map fst kvs)" and mt: "dd_metrics s = exact_metrics ini kvs"
    and slots: "slot_ok (map_of (initial_values s) k') (map_of kvs k')" for k'
    using inv unfolding dd_inv_def kvs_def by blast+
  have keep: "map_of (initial_values s) k' = Some v \<Longrightarrow> map_of (initial_values s1) k' = Some v" for k' v
    by (auto simp: s1 iv_def)
  have slots1: "slot_ok (map_of (initial_values s1) k') (map_of kvs k')" for k'
    using slots [of k'] keep [of k'] by (auto simp: slot_ok_def split: option.splits)
  have kind': "(log_kind (log l) = InitialWrite) = ini k" using kind by (simp add: k_def)
  have eq: "process_write l s =
     (case map_of kvs k of
        Some old \<Rightarrow>
          if iv = log_value (log l)
          then Option.bind (sub_write (ini k) (dd_metrics s)) (\<lambda>mt.
               Option.bind (sub_size (slot_size old) mt) (\<lambda>mt'.
               Some ([\<lparr> item_key = k, update_type = RemoveSlot old, item_is_write_initial = ini k \<rparr>],
                     s1\<lparr> modified_key_values := AList.delete k kvs, dd_metrics := mt' \<rparr>)))
          else Option.bind (sub_size (slot_size old) (dd_metrics s)) (\<lambda>mt.
               Some ([\<lparr> item_key = k, update_type = UpdateSlot old, item_is_write_initial = ini k \<rparr>],
                     s1\<lparr> modified_key_values := AList.update k ?slot kvs,
                         dd_metrics := add_size (slot_size ?slot) mt \<rparr>))
      | None \<Rightarrow>
          if iv = log_value (log l) then Some ([], s1)
          else Some ([\<lparr> item_key = k, update_type = InsertSlot, item_is_write_initial = ini k \<rparr>],
                     s1\<lparr> modified_key_values := AList.update k ?slot kvs,
                         dd_metrics := add_size (slot_size ?slot) (add_write (ini k) (dd_metrics s)) \<rparr>))"
    unfolding process_write_def Let_def k_def [symmetric] kvs_def [symmetric] iv_def [symmetric]
      s1_def [symmetric] kind' by (rule refl)
  have init_eq: "init_after (map_of (initial_values s) k) [l] = Some iv" by (simp add: iv_def)
  have slot_eq: "slot_after (map_of (initial_values s) k) slot [l] =
      (if iv = log_value (log l) then None else Some ?slot)" for slot
    by (simp add: iv_def Let_def)
  have post: "\<exists>us s'. process_write l s = Some (us, s') \<and> dd_inv ini s' \<and>
      map_of (initial_values s') = (map_of (initial_values s))(k \<mapsto> iv) \<and>
      map_of (modified_key_values s') =
        (map_of kvs)(k := (if iv = log_value (log l) then None else Some ?slot))"
  proof (cases "map_of kvs k")
    case None
    show ?thesis
    proof (cases "iv = log_value (log l)")
      case True
      have "dd_inv ini s1" "modified_key_values s1 = kvs"
        using inv slots1 by (auto simp: dd_inv_def s1_def kvs_def split: option.splits)
      then show ?thesis using eq None True s1 by (simp add: fun_upd_idem)
    next
      case False
      have "dd_inv ini (s1\<lparr> modified_key_values := AList.update k ?slot kvs,
          dd_metrics := add_size (slot_size ?slot) (add_write (ini k) (dd_metrics s)) \<rparr>)"
        using slots1 s1 False exact_insert [OF dist None] mt dist
        by (simp add: dd_inv_def AList.distinct_update AList.update_conv' slot_ok_def)
      then show ?thesis using eq None False s1 by (simp add: AList.update_conv')
    qed
  next
    case (Some old)
    show ?thesis
    proof (cases "iv = log_value (log l)")
      case True
      obtain mt1 where mt1: "sub_write (ini k) (dd_metrics s) = Some mt1"
        "sub_size (slot_size old) mt1 = Some (exact_metrics ini (AList.delete k kvs))"
        using exact_delete [OF dist Some, of ini] mt by (auto simp: bind_eq_Some_conv)
      have "dd_inv ini (s1\<lparr> modified_key_values := AList.delete k kvs,
          dd_metrics := exact_metrics ini (AList.delete k kvs) \<rparr>)"
        using slots1 dist by (simp add: dd_inv_def AList.distinct_delete AList.delete_conv' slot_ok_def)
      then show ?thesis using eq Some True s1 mt1 by (simp add: AList.delete_conv')
    next
      case False
      obtain mt1 where mt1: "sub_size (slot_size old) (dd_metrics s) = Some mt1"
        "add_size (slot_size ?slot) mt1 = exact_metrics ini (AList.update k ?slot kvs)"
        using exact_update [OF dist Some, of ini ?slot] mt by (auto simp: bind_eq_Some_conv)
      have "dd_inv ini (s1\<lparr> modified_key_values := AList.update k ?slot kvs,
          dd_metrics := exact_metrics ini (AList.update k ?slot kvs) \<rparr>)"
        using slots1 s1 False dist
        by (simp add: dd_inv_def AList.distinct_update AList.update_conv' slot_ok_def)
      then show ?thesis using eq Some False s1 mt1 by (simp add: AList.update_conv')
    qed
  qed
  then show ?thesis
    unfolding k_def [symmetric] kvs_def [symmetric] init_eq slot_eq .
qed

lemma writes_to_Cons:
  "writes_to k (l # ls) =
     (if is_write (log l) \<and> log_key (log l) = k then l # writes_to k ls else writes_to k ls)"
  by (simp add: writes_to_def)

lemma init_after_Cons: "init_after (init_after init [w]) ws = init_after init (w # ws)"
  by (cases ws) auto

lemma slot_after_Cons:
  "slot_after (init_after init [w]) (slot_after init slot [w]) ws = slot_after init slot (w # ws)"
  by (cases ws) (auto simp: Let_def)

lemma process_storage_logs_spec:
  assumes "dd_inv ini s" "kinds_ok ini ls"
  shows "\<exists>us s'. process_storage_logs ls s = Some (us, s') \<and> dd_inv ini s' \<and>
     (\<forall>k. map_of (initial_values s') k = init_after (map_of (initial_values s) k) (writes_to k ls)) \<and>
     (\<forall>k. map_of (modified_key_values s') k =
        slot_after (map_of (initial_values s) k) (map_of (modified_key_values s) k) (writes_to k ls))"
  using assms
proof (induction ls arbitrary: s)
  case Nil
  then show ?case by (simp add: writes_to_def)
next
  case (Cons l ls)
  have rest: "kinds_ok ini ls" using Cons.prems(2) by (simp add: kinds_ok_def)
  show ?case
  proof (cases "is_write (log l)")
    case False
    then show ?thesis using Cons.IH [OF Cons.prems(1) rest] by (simp add: writes_to_Cons)
  next
    case True
    then have kind: "log_kind (log l) = InitialWrite \<longleftrightarrow> ini (log_key (log l))"
      using Cons.prems(2) by (simp add: kinds_ok_def)
    obtain us s1 where step: "process_write l s = Some (us, s1)" "dd_inv ini s1"
      and init1: "map_of (initial_values s1) = (map_of (initial_values s))
        (log_key (log l) := init_after (map_of (initial_values s) (log_key (log l))) [l])"
      and mod1: "map_of (modified_key_values s1) = (map_of (modified_key_values s))
        (log_key (log l) := slot_after (map_of (initial_values s) (log_key (log l)))
          (map_of (modified_key_values s) (log_key (log l))) [l])"
      using process_write_spec [OF Cons.prems(1) kind] by blast
    obtain us' s' where run: "process_storage_logs ls s1 = Some (us', s')" "dd_inv ini s'"
      and init': "map_of (initial_values s') k = init_after (map_of (initial_values s1) k) (writes_to k ls)"
      and mod': "map_of (modified_key_values s') k =
        slot_after (map_of (initial_values s1) k) (map_of (modified_key_values s1) k) (writes_to k ls)" for k
      using Cons.IH [OF step(2) rest] by blast
    have "map_of (initial_values s') k = init_after (map_of (initial_values s) k) (writes_to k (l # ls))" for k
      using True unfolding init' init1 by (simp add: writes_to_Cons init_after_Cons del: init_after.simps)
    moreover have "map_of (modified_key_values s') k =
        slot_after (map_of (initial_values s) k) (map_of (modified_key_values s) k) (writes_to k (l # ls))" for k
      using True unfolding mod' mod1 init1
      by (simp add: writes_to_Cons slot_after_Cons del: init_after.simps slot_after.simps)
    ultimately show ?thesis using True step(1) run by (intro exI [of _ "us @ us'"] exI [of _ s']) simp
  qed
qed

section \<open>Rolling back\<close>

text \<open>What rolling back restores: the modified slots and the metrics, not the initial values.\<close>

definition dd_view :: "StorageWritesDeduplicator \<Rightarrow> (storage_key \<rightharpoonup> ModifiedSlot) \<times> DeduplicatedWritesMetrics" where
  "dd_view s = (map_of (modified_key_values s), dd_metrics s)"

lemma sub_write_add_write [simp]: "sub_write ini (add_write ini mt) = Some mt"
  by (simp add: sub_write_def add_write_def checked_sub_def)

lemma sub_size_add_size [simp]: "sub_size n (add_size n mt) = Some mt"
  by (simp add: sub_size_def add_size_def checked_sub_def)

lemma sub_write_SomeD: "sub_write ini mt = Some mt' \<Longrightarrow> add_write ini mt' = mt"
  by (auto simp: sub_write_def add_write_def checked_sub_def split: if_splits)

lemma sub_size_SomeD: "sub_size n mt = Some mt' \<Longrightarrow> add_size n mt' = mt"
  by (auto simp: sub_size_def add_size_def checked_sub_def split: if_splits)

lemma undo_update: "sub_size n (add_size m (add_size n mt)) = Some (add_size m mt)"
  by (simp add: sub_size_def add_size_def checked_sub_def)

lemma undo_insert: "Option.bind (sub_write ini (add_size n (add_write ini mt))) (sub_size n) = Some mt"
  by (simp add: sub_write_def sub_size_def add_size_def add_write_def checked_sub_def)

lemma undo_remove:
  assumes "sub_write ini mt = Some mt1" "sub_size n mt1 = Some mt2"
  shows "add_size n (add_write ini mt2) = mt"
proof -
  have "add_size n (add_write ini mt2) = add_write ini (add_size n mt2)"
    by (simp add: add_size_def add_write_def)
  then show ?thesis using assms sub_write_SomeD sub_size_SomeD by simp
qed

lemma rollback_write:
  assumes "process_write l s = Some (us, s')" "dd_view t = dd_view s'"
  shows "\<exists>t'. rollback_items (rev us) t = Some t' \<and> dd_view t' = dd_view s \<and> initial_values t' = initial_values t"
proof -
  define k where "k = log_key (log l)"
  define kvs where "kvs = modified_key_values s"
  define iv where "iv = (case map_of (initial_values s) k of Some v \<Rightarrow> v | None \<Rightarrow> previous_value l)"
  define s1 where "s1 = (case map_of (initial_values s) k of Some _ \<Rightarrow> s
    | None \<Rightarrow> s\<lparr> initial_values := AList.update k (previous_value l) (initial_values s) \<rparr>)"
  define ini where "ini \<longleftrightarrow> log_kind (log l) = InitialWrite"
  let ?slot = "modified_slot iv (log_value (log l))"
  have s1: "modified_key_values s1 = kvs" "dd_metrics s1 = dd_metrics s"
    by (simp_all add: s1_def kvs_def split: option.split)
  have t: "map_of (modified_key_values t) = map_of (modified_key_values s')" "dd_metrics t = dd_metrics s'"
    using assms(2) by (simp_all add: dd_view_def)
  note run = assms(1) [unfolded process_write_def Let_def, folded k_def kvs_def, folded iv_def s1_def ini_def]
  show ?thesis
  proof (cases "map_of kvs k")
    case None
    show ?thesis
    proof (cases "iv = log_value (log l)")
      case True
      then show ?thesis using run None t s1 by (simp add: dd_view_def kvs_def)
    next
      case False
      then have "dd_metrics t = add_size (slot_size ?slot) (add_write ini (dd_metrics s))"
        "map_of (modified_key_values t) = (map_of kvs)(k \<mapsto> ?slot)"
        "us = [\<lparr> item_key = k, update_type = InsertSlot, item_is_write_initial = ini \<rparr>]"
        using run None t by (auto simp: AList.update_conv')
      then show ?thesis
        using undo_insert [of ini "slot_size ?slot" "dd_metrics s"] None
        by (auto simp: rollback_item_def dd_view_def bind_eq_Some_conv AList.delete_conv' kvs_def [symmetric] fun_upd_idem)
    qed
  next
    case (Some old)
    show ?thesis
    proof (cases "iv = log_value (log l)")
      case True
      then obtain mt1 where mt1: "sub_write ini (dd_metrics s) = Some mt1"
        "sub_size (slot_size old) mt1 = Some (dd_metrics s')"
        and "map_of (modified_key_values t) = (map_of kvs)(k := None)"
        "us = [\<lparr> item_key = k, update_type = RemoveSlot old, item_is_write_initial = ini \<rparr>]"
        using run Some t(1) by (auto simp: bind_eq_Some_conv AList.delete_conv')
      then show ?thesis
        using undo_remove [OF mt1] Some t(2)
        by (auto simp: rollback_item_def dd_view_def AList.update_conv' kvs_def [symmetric] fun_upd_idem)
    next
      case False
      then obtain mt1 where mt1: "sub_size (slot_size old) (dd_metrics s) = Some mt1"
        and "dd_metrics t = add_size (slot_size ?slot) mt1"
        "map_of (modified_key_values t) = (map_of kvs)(k \<mapsto> ?slot)"
        "us = [\<lparr> item_key = k, update_type = UpdateSlot old, item_is_write_initial = ini \<rparr>]"
        using run Some t by (auto simp: bind_eq_Some_conv AList.update_conv')
      then show ?thesis
        using sub_size_SomeD [OF mt1] undo_update [of "slot_size ?slot" "slot_size old" mt1] Some
        by (auto simp: rollback_item_def dd_view_def AList.update_conv' kvs_def [symmetric] fun_upd_idem)
    qed
  qed
qed

lemma rollback_items_append:
  "rollback_items (us @ vs) s = Option.bind (rollback_items us s) (rollback_items vs)"
  by (induction us arbitrary: s) (auto split: bind_splits)

lemma rollback_logs:
  assumes "process_storage_logs ls s = Some (us, s')" "dd_view t = dd_view s'"
  shows "\<exists>t'. rollback_items (rev us) t = Some t' \<and> dd_view t' = dd_view s \<and> initial_values t' = initial_values t"
  using assms
proof (induction ls arbitrary: s us)
  case (Cons l ls)
  show ?case
  proof (cases "is_write (log l)")
    case True
    then obtain us1 s1 us2 where step: "process_write l s = Some (us1, s1)"
      "process_storage_logs ls s1 = Some (us2, s')" "us = us1 @ us2"
      using Cons.prems(1) by (auto simp: bind_eq_Some_conv)
    obtain t1 where t1: "rollback_items (rev us2) t = Some t1" "dd_view t1 = dd_view s1"
      "initial_values t1 = initial_values t"
      using Cons.IH [OF step(2) Cons.prems(2)] by blast
    then show ?thesis
      using rollback_write [OF step(1) t1(2)] step(3) by (auto simp: rollback_items_append)
  qed (use Cons in simp)
qed simp

section \<open>The size of the pubdata\<close>

text \<open>The state diffs of the slots that are modified, as the end of a batch collects them.\<close>

definition diff_records ::
  "(storage_key \<Rightarrow> bytes) \<Rightarrow> (storage_key \<Rightarrow> u64) \<Rightarrow> StorageWritesDeduplicator \<Rightarrow> StateDiffRecord list" where
  "diff_records dk idx s =
     map (\<lambda>(k, v). \<lparr> sd_address = fst k, sd_key = snd k, derived_key = dk k, enumeration_index = idx k,
                     initial_value = the (map_of (initial_values s) k), final_value = slot_value v \<rparr>)
       (modified_key_values s)"

lemma dd_new_inv: "dd_inv ini StorageWritesDeduplicator_new"
  by (simp add: dd_inv_def StorageWritesDeduplicator_new_def exact_metrics_def slot_ok_def)

lemma sum_list_partition:
  fixes f :: "'a \<Rightarrow> nat"
  shows "sum_list (map f (filter P xs)) + sum_list (map f (filter (\<lambda>x. \<not> P x) xs)) = sum_list (map f xs)"
  by (induction xs) auto

lemma sum_list_sort_state_diffs:
  fixes f :: "StateDiffRecord \<Rightarrow> nat"
  shows "sum_list (map f (sort_state_diffs ds)) = sum_list (map f ds)"
proof -
  have "sum_list (map f (insort_key g x xs)) = f x + sum_list (map f xs)"
    for g :: "StateDiffRecord \<Rightarrow> address \<times> u256" and x xs
    by (induction xs) auto
  then show ?thesis unfolding sort_state_diffs_def sort_key_def by (induction ds) auto
qed

lemma length_prepend_header: "length (prepend_header body) = 5 + length body"
  by (simp add: prepend_header_def)

lemma length_compress_state_diffs:
  assumes "\<forall>r\<in>set ds. enumeration_index r \<le> 0xFFFFFFFF \<and> length (derived_key r) = 32"
    and "compress_state_diffs ds = Some bs"
  shows "length bs = 7 + sum_list (map (\<lambda>r. (if is_write_initial r then 32 else 4) + length (compressed_value r)) ds)"
proof -
  let ?f = "\<lambda>r. (if is_write_initial r then 32 else 4) + length (compressed_value r)"
  let ?ini = "filter is_write_initial (sort_state_diffs ds)"
  let ?rep = "filter (\<lambda>r. \<not> is_write_initial r) (sort_state_diffs ds)"
  have a: "map (\<lambda>r. length (derived_key r) + length (compressed_value r)) ?ini = map ?f ?ini"
    using assms(1) by (intro map_cong) auto
  have b: "map (\<lambda>r. 4 + length (compressed_value r)) ?rep = map ?f ?rep"
    by (intro map_cong) auto
  have "bs = prepend_header (word_be 2 (of_nat (length ?ini) :: u16) @
      concat (map (\<lambda>r. derived_key r @ compressed_value r) ?ini) @
      concat (map (\<lambda>r. word_be 4 (ucast (enumeration_index r) :: u32) @ compressed_value r) ?rep))"
    using assms compress_state_diffs_Some [of ds] by simp
  then have "length bs = 7 + sum_list (map ?f ?ini) + sum_list (map ?f ?rep)"
    by (simp only: length_prepend_header length_append length_concat length_word_be map_map comp_def a b)
  then show ?thesis using sum_list_partition [of ?f is_write_initial "sort_state_diffs ds"]
    by (simp add: sum_list_sort_state_diffs)
qed

lemma metrics_size_exact:
  "metrics_size (exact_metrics ini kvs) =
     sum_list (map (\<lambda>(k, v). (if ini k then 32 else 4) + slot_size v) kvs)"
proof -
  have "unat BYTES_PER_DERIVED_KEY = 32" "unat BYTES_PER_ENUMERATION_INDEX = 4"
    by (simp_all add: BYTES_PER_DERIVED_KEY_def BYTES_PER_ENUMERATION_INDEX_def)
  then show ?thesis
    by (simp add: metrics_size_def exact_metrics_def) (induction kvs; auto)
qed

section \<open>Properties\<close>

text \<open>
  C31. Deduplication is exact for logs in which each key is always written with the same kind, initial or repeated
  (\<open>kinds_ok\<close>, which is what the VM promises: the kind of a key is fixed by the state before the batch). Then no
  counter underflows and no \<open>panic!\<close> is reached; a key is reported as modified exactly if its last
  written value differs from the value before its first write, with the last value and the size of
  its compressed form; the counters are the numbers of modified keys of each kind and the total of
  the sizes.
\<close>

theorem dedup_exact:
  assumes "kinds_ok ini ls"
  shows "\<exists>s. dd_apply ls StorageWritesDeduplicator_new = Some s \<and>
     (\<forall>k. map_of (modified_key_values s) k = slot_after None None (writes_to k ls)) \<and>
     distinct (map fst (modified_key_values s)) \<and> dd_metrics s = exact_metrics ini (modified_key_values s)"
  using process_storage_logs_spec [OF dd_new_inv assms]
  by (auto simp: dd_apply_def dd_inv_def StorageWritesDeduplicator_new_def)

definition write_log :: "StorageLogKind \<Rightarrow> u256 \<Rightarrow> u256 \<Rightarrow> u256 \<Rightarrow> StorageLogWithPreviousValue" where
  "write_log kind slot old new =
     \<lparr> log = \<lparr> log_kind = kind, log_key = (1, slot), log_value = new \<rparr>, previous_value = old \<rparr>"

text \<open>One slot written twice, one written and restored, one repeated write, one read.\<close>

definition demo_logs :: "StorageLogWithPreviousValue list" where
  "demo_logs = [write_log InitialWrite 1 0 5, write_log InitialWrite 2 0 8, write_log RepeatedWrite 3 9 4,
     write_log ReadLog 4 7 7, write_log InitialWrite 1 5 6, write_log InitialWrite 2 8 0]"

lemma demo_kinds: "kinds_ok (\<lambda>(_, slot). slot \<noteq> 3) demo_logs"
  by (simp add: kinds_ok_def demo_logs_def write_log_def is_write_def)

theorem dedup_exact_witness:
  "\<exists>s. dd_apply demo_logs StorageWritesDeduplicator_new = Some s \<and>
     map_of (modified_key_values s) (1, 1) = Some (modified_slot 0 6) \<and>
     map_of (modified_key_values s) (1, 2) = None \<and>
     map_of (modified_key_values s) (1, 3) = Some (modified_slot 9 4)"
proof -
  obtain s where s: "dd_apply demo_logs StorageWritesDeduplicator_new = Some s"
    "map_of (modified_key_values s) k = slot_after None None (writes_to k demo_logs)" for k
    using dedup_exact [OF demo_kinds] by blast
  then show ?thesis
    by (simp add: demo_logs_def writes_to_def write_log_def is_write_def Let_def)
qed

text \<open>Without the condition on the kinds the counters can underflow: a slot is written initially and restored by a repeated write.\<close>

lemma mixed_kinds_underflow:
  "dd_apply [write_log InitialWrite 1 0 5, write_log RepeatedWrite 1 5 0] StorageWritesDeduplicator_new = None"
  by (simp add: dd_apply_def write_log_def is_write_def StorageWritesDeduplicator_new_def process_write_def sub_write_def
      add_write_def add_size_def checked_sub_def Let_def)

text \<open>
  C33. Measuring does not change the state: for the same logs, \<open>apply_and_rollback\<close> succeeds from any
  state that satisfies the invariant, returns the metrics that applying the logs would give, and
  leaves the modified slots and the metrics as they were.
\<close>

theorem dedup_rollback:
  assumes "dd_inv ini s" "kinds_ok ini ls"
  shows "\<exists>s1 s2. dd_apply ls s = Some s1 \<and> apply_and_rollback ls s = Some (dd_metrics s1, s2) \<and>
     map_of (modified_key_values s2) = map_of (modified_key_values s) \<and> dd_metrics s2 = dd_metrics s"
proof -
  obtain us s1 where run: "process_storage_logs ls s = Some (us, s1)"
    using process_storage_logs_spec [OF assms] by blast
  obtain s2 where "rollback_items (rev us) s1 = Some s2" "dd_view s2 = dd_view s"
    using rollback_logs [OF run refl] by blast
  then show ?thesis
    using run by (auto simp: dd_apply_def apply_and_rollback_def dd_rollback_def dd_view_def)
qed

theorem dedup_rollback_witness:
  "\<exists>s1 s2. dd_apply demo_logs StorageWritesDeduplicator_new = Some s1 \<and>
     apply_and_rollback demo_logs StorageWritesDeduplicator_new = Some (dd_metrics s1, s2) \<and>
     map_of (modified_key_values s2) = Map.empty"
  using dedup_rollback [OF dd_new_inv demo_kinds] by (auto simp: StorageWritesDeduplicator_new_def)

text \<open>
  C32. The metrics predict the pubdata: the size computed from the metrics of a deduplicator is the
  number of bytes that the compressed state diffs of its modified slots take, without the
  seven bytes of the header.
\<close>

theorem metrics_size_is_pubdata_size:
  assumes "kinds_ok ini ls" "dd_apply ls StorageWritesDeduplicator_new = Some s"
    and "\<And>k. (idx k = 0) = ini k" "\<And>k. idx k \<le> 0xFFFFFFFF" "\<And>k. length (dk k) = 32"
  shows "\<exists>bs. compress_state_diffs (diff_records dk idx s) = Some bs \<and>
     length bs = 7 + metrics_size (dd_metrics s)"
proof -
  obtain us s' where "process_storage_logs ls StorageWritesDeduplicator_new = Some (us, s')" "dd_inv ini s'"
    using process_storage_logs_spec [OF dd_new_inv assms(1)] by blast
  then have inv: "dd_inv ini s" using assms(2) by (simp add: dd_apply_def)
  have size: "slot_size v = length (compress_with_best_strategy (the (map_of (initial_values s) k)) (slot_value v))"
    if "(k, v) \<in> set (modified_key_values s)" for k v
  proof -
    have "map_of (modified_key_values s) k = Some v" using inv that by (simp add: dd_inv_def)
    then have "slot_ok (map_of (initial_values s) k) (Some v)" using inv unfolding dd_inv_def by metis
    then show ?thesis by (auto simp: slot_ok_def modified_slot_def) (metis ModifiedSlot.select_convs(2))
  qed
  have ok: "\<forall>r\<in>set (diff_records dk idx s). enumeration_index r \<le> 0xFFFFFFFF \<and> length (derived_key r) = 32"
    using assms(4,5) by (auto simp: diff_records_def)
  then obtain bs where bs: "compress_state_diffs (diff_records dk idx s) = Some bs"
    using compress_state_diffs_Some by blast
  have "map (\<lambda>r. (if is_write_initial r then 32 else 4) + length (compressed_value r)) (diff_records dk idx s) =
      map (\<lambda>(k, v). (if ini k then 32 else 4) + slot_size v) (modified_key_values s)"
    unfolding diff_records_def map_map by (intro map_cong) (auto simp: is_write_initial_def assms(3) size)
  then show ?thesis
    using length_compress_state_diffs [OF ok bs] bs inv by (simp add: dd_inv_def metrics_size_exact)
qed

theorem metrics_size_is_pubdata_size_witness:
  "\<exists>s bs. dd_apply demo_logs StorageWritesDeduplicator_new = Some s \<and>
     compress_state_diffs (diff_records (\<lambda>_. replicate 32 0) (\<lambda>(_, slot). if slot \<noteq> 3 then 0 else 12) s) = Some bs \<and>
     length bs = 7 + metrics_size (dd_metrics s)"
proof -
  obtain s where s: "dd_apply demo_logs StorageWritesDeduplicator_new = Some s"
    using process_storage_logs_spec [OF dd_new_inv demo_kinds] by (auto simp: dd_apply_def)
  show ?thesis
    using metrics_size_is_pubdata_size [OF demo_kinds s,
        of "\<lambda>(_, slot). if slot \<noteq> 3 then 0 else 12" "\<lambda>_. replicate 32 0"] s
    by (auto simp: word_le_nat_alt split: prod.splits)
qed

section \<open>Measuring and then applying\<close>

lemma rollback_item_distinct:
  "rollback_item u s = Some s' \<Longrightarrow> distinct (map fst (modified_key_values s)) \<Longrightarrow> distinct (map fst (modified_key_values s'))"
  by (auto simp: rollback_item_def bind_eq_Some_conv AList.distinct_update AList.distinct_delete
      split: UpdateType.splits option.splits)

lemma rollback_items_distinct:
  "rollback_items us s = Some s' \<Longrightarrow> distinct (map fst (modified_key_values s)) \<Longrightarrow> distinct (map fst (modified_key_values s'))"
  by (induction us arbitrary: s) (auto simp: bind_eq_Some_conv dest: rollback_item_distinct)

lemma exact_metrics_cong:
  assumes "distinct (map fst al)" "distinct (map fst al')" "map_of al = map_of al'"
  shows "exact_metrics ini al = exact_metrics ini al'"
proof -
  have "set al = set al'" using assms by (simp add: map_of_inject_set)
  moreover have "distinct al" "distinct al'" using assms(1,2) by (simp_all add: distinct_map)
  ultimately have "sum_list (map f al) = sum_list (map f al')" for f :: "storage_key \<times> ModifiedSlot \<Rightarrow> nat"
    by (simp add: sum_list_distinct_conv_sum_set)
  then show ?thesis by (simp add: exact_metrics_def)
qed

lemma dd_inv_metrics_cong:
  "dd_inv ini s \<Longrightarrow> dd_inv ini s' \<Longrightarrow> map_of (modified_key_values s) = map_of (modified_key_values s') \<Longrightarrow>
   dd_metrics s = dd_metrics s'"
  unfolding dd_inv_def using exact_metrics_cong by metis

lemma init_after_mono: "init = Some v \<Longrightarrow> init_after init ws = Some v"
  by (cases ws) auto

lemma slot_after_again: "slot_after (init_after init ws) slot ws = slot_after init slot ws"
  by (cases ws) (auto split: option.splits)

lemma dd_apply_inv: "dd_inv ini s \<Longrightarrow> kinds_ok ini ls \<Longrightarrow> \<exists>s'. dd_apply ls s = Some s' \<and> dd_inv ini s'"
  using process_storage_logs_spec [of ini s ls] by (auto simp: dd_apply_def)

text \<open>
  After measuring the logs, the state has the same modified slots, and applying them gives the metrics that were
  measured, although the initial values of their keys are known by then.
\<close>

lemma measure_then_apply:
  assumes inv: "dd_inv ini s" and kinds: "kinds_ok ini ls" and m: "apply_and_rollback ls s = Some (mt, s2)"
  shows "dd_inv ini s2 \<and> dd_metrics s2 = dd_metrics s \<and>
    (\<exists>s3. dd_apply ls s2 = Some s3 \<and> dd_inv ini s3 \<and> dd_metrics s3 = mt)"
proof -
  obtain us s1 where run: "process_storage_logs ls s = Some (us, s1)" and inv1: "dd_inv ini s1"
    and init1: "\<And>k. map_of (initial_values s1) k = init_after (map_of (initial_values s) k) (writes_to k ls)"
    and mod1: "\<And>k. map_of (modified_key_values s1) k =
      slot_after (map_of (initial_values s) k) (map_of (modified_key_values s) k) (writes_to k ls)"
    using process_storage_logs_spec [OF inv kinds] by blast
  have mt: "mt = dd_metrics s1" and back_: "rollback_items (rev us) s1 = Some s2"
    using m run by (auto simp: apply_and_rollback_def dd_rollback_def)
  obtain t where "rollback_items (rev us) s1 = Some t" "dd_view t = dd_view s" "initial_values t = initial_values s1"
    using rollback_logs [OF run refl] by blast
  then have view: "map_of (modified_key_values s2) = map_of (modified_key_values s)" "dd_metrics s2 = dd_metrics s"
    "initial_values s2 = initial_values s1" using back_ by (auto simp: dd_view_def)
  have dist: "distinct (map fst (modified_key_values s2))" "distinct (map fst (modified_key_values s))"
    using rollback_items_distinct [OF back_] inv1 inv by (auto simp: dd_inv_def)
  have slots: "slot_ok (map_of (initial_values s2) k) (map_of (modified_key_values s2) k)" for k
  proof -
    have "slot_ok (map_of (initial_values s) k) (map_of (modified_key_values s) k)" using inv by (simp add: dd_inv_def)
    then show ?thesis unfolding view init1 by (auto simp: slot_ok_def init_after_mono split: option.splits)
  qed
  have inv2: "dd_inv ini s2"
    using slots dist view exact_metrics_cong [OF dist view(1), of ini] inv by (simp add: dd_inv_def)
  obtain us' s3 where s3: "process_storage_logs ls s2 = Some (us', s3)" "dd_inv ini s3"
    and mod3: "\<And>k. map_of (modified_key_values s3) k =
      slot_after (map_of (initial_values s2) k) (map_of (modified_key_values s2) k) (writes_to k ls)"
    using process_storage_logs_spec [OF inv2 kinds] by blast
  have "map_of (modified_key_values s3) = map_of (modified_key_values s1)"
    by (rule ext) (simp add: mod3 mod1 view init1 slot_after_again)
  then have "dd_metrics s3 = mt" using dd_inv_metrics_cong [OF s3(2) inv1] by (simp add: mt)
  then show ?thesis using inv2 view(2) s3 by (auto simp: dd_apply_def)
qed

section \<open>Initial values\<close>

text \<open>
  The initial values a state has recorded are those of \<open>base\<close>. If the first write to a key that is not recorded
  yet has its value in \<open>base\<close> as previous value, the modified slots only depend on \<open>base\<close> and the logs.
\<close>

definition dd_base :: "(storage_key \<Rightarrow> u256) \<Rightarrow> StorageWritesDeduplicator \<Rightarrow> bool" where
  "dd_base base s \<longleftrightarrow> (\<forall>k v. map_of (initial_values s) k = Some v \<longrightarrow> v = base k)"

definition starts_from ::
  "(storage_key \<Rightarrow> u256) \<Rightarrow> StorageLogWithPreviousValue list \<Rightarrow> StorageWritesDeduplicator \<Rightarrow> bool" where
  "starts_from base ls s \<longleftrightarrow>
     (\<forall>k w ws. writes_to k ls = w # ws \<longrightarrow> map_of (initial_values s) k = None \<longrightarrow> previous_value w = base k)"

lemma base_slot_after:
  assumes "dd_base base s" "starts_from base ls s"
  shows "slot_after (map_of (initial_values s) k) slot (writes_to k ls) = slot_after (Some (base k)) slot (writes_to k ls)"
proof (cases "writes_to k ls")
  case (Cons w ws)
  then have "(case map_of (initial_values s) k of Some v \<Rightarrow> v | None \<Rightarrow> previous_value w) = base k"
    using assms unfolding dd_base_def starts_from_def by (cases "map_of (initial_values s) k") auto
  then show ?thesis using Cons by simp
qed simp

lemma base_init_after:
  assumes "dd_base base s" "starts_from base ls s" "init_after (map_of (initial_values s) k) (writes_to k ls) = Some v"
  shows "v = base k"
proof (cases "map_of (initial_values s) k")
  case None
  then show ?thesis using assms(2,3) unfolding starts_from_def by (cases "writes_to k ls") auto
next
  case (Some u)
  then show ?thesis using assms(1,3) init_after_mono [of "Some u" u] unfolding dd_base_def by auto
qed

lemma init_after_None: "init_after init ws = None \<longleftrightarrow> init = None \<and> ws = []"
  by (cases ws) auto

lemma apply_from_base:
  assumes "dd_inv ini s" "kinds_ok ini ls" "dd_base base s" "starts_from base ls s"
  shows "\<exists>s'. dd_apply ls s = Some s' \<and> dd_inv ini s' \<and> dd_base base s' \<and>
     (\<forall>k. map_of (modified_key_values s') k =
        slot_after (Some (base k)) (map_of (modified_key_values s) k) (writes_to k ls)) \<and>
     (\<forall>k. map_of (initial_values s') k = None \<longleftrightarrow> map_of (initial_values s) k = None \<and> writes_to k ls = [])"
proof -
  obtain us s' where run: "process_storage_logs ls s = Some (us, s')" "dd_inv ini s'"
    and init: "\<And>k. map_of (initial_values s') k = init_after (map_of (initial_values s) k) (writes_to k ls)"
    and mods: "\<And>k. map_of (modified_key_values s') k =
      slot_after (map_of (initial_values s) k) (map_of (modified_key_values s) k) (writes_to k ls)"
    using process_storage_logs_spec [OF assms(1,2)] by blast
  have "dd_base base s'" unfolding dd_base_def init using base_init_after [OF assms(3,4)] by blast
  then show ?thesis
    using run by (auto simp: dd_apply_def mods init base_slot_after [OF assms(3,4)] init_after_None)
qed

lemma measure_from_base:
  assumes "dd_inv ini s" "kinds_ok ini ls" "dd_base base s" "starts_from base ls s"
    and "apply_and_rollback ls s = Some (mt, s2)"
  shows "dd_inv ini s2 \<and> dd_base base s2 \<and> dd_view s2 = dd_view s \<and>
     (\<forall>k. map_of (initial_values s2) k = None \<longleftrightarrow> map_of (initial_values s) k = None \<and> writes_to k ls = [])"
proof -
  obtain us s1 where run: "process_storage_logs ls s = Some (us, s1)" "rollback_items (rev us) s1 = Some s2"
    using assms(5) by (auto simp: apply_and_rollback_def dd_rollback_def bind_eq_Some_conv)
  obtain t where "rollback_items (rev us) s1 = Some t" "dd_view t = dd_view s" "initial_values t = initial_values s1"
    using rollback_logs [OF run(1) refl] by blast
  then have "dd_view s2 = dd_view s" "initial_values s2 = initial_values s1" using run(2) by auto
  moreover obtain s' where "dd_apply ls s = Some s'" "dd_base base s'"
    "\<forall>k. map_of (initial_values s') k = None \<longleftrightarrow> map_of (initial_values s) k = None \<and> writes_to k ls = []"
    using apply_from_base [OF assms(1-4)] by blast
  ultimately show ?thesis
    using run(1) measure_then_apply [OF assms(1,2,5)] by (auto simp: dd_apply_def dd_base_def)
qed

declare split_paired_All [simp] split_paired_Ex [simp]

end
