(* ===== verification/ExecutionMetrics.thy ===== *)
theory ExecutionMetrics
  imports Floats VmVersions WritesDeduplicator Mempool
begin

text \<open>
  What executing transactions costs: circuit statistics (\<^verbatim>\<open>core/lib/types/src/circuit.rs\<close>), execution
  and writes metrics (\<^verbatim>\<open>core/lib/types/src/tx/tx_execution_info.rs\<close>, \<^verbatim>\<open>core/lib/types/src/fee.rs\<close>),
  the L1 gas of a batch (\<open>BlockGasCount\<close> in \<^verbatim>\<open>core/lib/types/src/block.rs\<close>) and its estimation
  (\<^verbatim>\<open>core/node/state_keeper/src/utils.rs\<close>). A \<open>usize\<close> counter of objects in memory is a natural
  number; fields of a fixed width are words whose addition wraps, as in a release build.
\<close>

section \<open>Circuit statistics\<close>

record CircuitStatistic =
  main_vm :: f32
  ram_permutation :: f32
  storage_application :: f32
  storage_sorter :: f32
  code_decommitter :: f32
  code_decommitter_sorter :: f32
  log_demuxer :: f32
  events_sorter :: f32
  keccak256_circuits :: f32
  ecrecover :: f32
  sha256 :: f32
  secp256k1_verify :: f32
  transient_storage_checker :: f32

definition CircuitStatistic_default :: CircuitStatistic where
  "CircuitStatistic_default = \<lparr>main_vm = 0, ram_permutation = 0, storage_application = 0,
     storage_sorter = 0, code_decommitter = 0, code_decommitter_sorter = 0, log_demuxer = 0,
     events_sorter = 0, keccak256_circuits = 0, ecrecover = 0, sha256 = 0, secp256k1_verify = 0,
     transient_storage_checker = 0\<rparr>"

definition circuits_total :: "CircuitStatistic \<Rightarrow> nat" where
  "circuits_total s =
     f32_ceil (main_vm s) + f32_ceil (ram_permutation s) + f32_ceil (storage_application s) +
     f32_ceil (storage_sorter s) + f32_ceil (code_decommitter s) +
     f32_ceil (code_decommitter_sorter s) + f32_ceil (log_demuxer s) + f32_ceil (events_sorter s) +
     f32_ceil (keccak256_circuits s) + f32_ceil (ecrecover s) + f32_ceil (sha256 s) +
     f32_ceil (secp256k1_verify s) + f32_ceil (transient_storage_checker s)"

definition circuits_add :: "CircuitStatistic \<Rightarrow> CircuitStatistic \<Rightarrow> CircuitStatistic" where
  "circuits_add a b = \<lparr>
     main_vm = f32_add (main_vm a) (main_vm b),
     ram_permutation = f32_add (ram_permutation a) (ram_permutation b),
     storage_application = f32_add (storage_application a) (storage_application b),
     storage_sorter = f32_add (storage_sorter a) (storage_sorter b),
     code_decommitter = f32_add (code_decommitter a) (code_decommitter b),
     code_decommitter_sorter = f32_add (code_decommitter_sorter a) (code_decommitter_sorter b),
     log_demuxer = f32_add (log_demuxer a) (log_demuxer b),
     events_sorter = f32_add (events_sorter a) (events_sorter b),
     keccak256_circuits = f32_add (keccak256_circuits a) (keccak256_circuits b),
     ecrecover = f32_add (ecrecover a) (ecrecover b),
     sha256 = f32_add (sha256 a) (sha256 b),
     secp256k1_verify = f32_add (secp256k1_verify a) (secp256k1_verify b),
     transient_storage_checker =
       f32_add (transient_storage_checker a) (transient_storage_checker b)\<rparr>"

text \<open>A statistic whose fields are \<open>f32\<close> numbers.\<close>

definition f32_statistic :: "CircuitStatistic \<Rightarrow> bool" where
  "f32_statistic s \<longleftrightarrow> list_all (representable 24)
     [main_vm s, ram_permutation s, storage_application s, storage_sorter s, code_decommitter s,
      code_decommitter_sorter s, log_demuxer s, events_sorter s, keccak256_circuits s, ecrecover s,
      sha256 s, secp256k1_verify s, transient_storage_checker s]"

section \<open>Metrics of a transaction or a batch\<close>

datatype TxExecutionStatus = Success | Failure

definition from_has_failed :: "bool \<Rightarrow> TxExecutionStatus" where
  "from_has_failed has_failed = (if has_failed then Failure else Success)"

record TransactionExecutionMetrics =
  tm_initial_storage_writes :: nat
  tm_repeated_storage_writes :: nat
  tm_gas_used :: nat
  tm_gas_remaining :: u32
  tm_event_topics :: u16
  tm_published_bytecode_bytes :: nat
  tm_l2_l1_long_messages :: nat
  tm_l2_l1_logs :: nat
  tm_contracts_used :: nat
  tm_contracts_deployed :: u16
  tm_vm_events :: nat
  tm_storage_logs :: nat
  tm_total_log_queries :: nat
  tm_cycles_used :: u32
  tm_computational_gas_used :: u32
  tm_total_updated_values_size :: nat
  tm_pubdata_published :: u32
  tm_circuit_statistic :: CircuitStatistic

record ExecutionMetrics =
  gas_used :: nat
  published_bytecode_bytes :: nat
  l2_l1_long_messages :: nat
  l2_to_l1_logs :: nat
  contracts_used :: nat
  contracts_deployed :: u16
  vm_events :: nat
  em_storage_logs :: nat
  total_log_queries :: nat
  cycles_used :: u32
  computational_gas_used :: u32
  pubdata_published :: u32
  circuit_statistic :: CircuitStatistic

definition ExecutionMetrics_default :: ExecutionMetrics where
  "ExecutionMetrics_default = \<lparr>gas_used = 0, published_bytecode_bytes = 0, l2_l1_long_messages = 0,
     l2_to_l1_logs = 0, contracts_used = 0, contracts_deployed = 0, vm_events = 0,
     em_storage_logs = 0, total_log_queries = 0, cycles_used = 0, computational_gas_used = 0,
     pubdata_published = 0, circuit_statistic = CircuitStatistic_default\<rparr>"

definition em_from_tx_metrics :: "TransactionExecutionMetrics \<Rightarrow> ExecutionMetrics" where
  "em_from_tx_metrics t = \<lparr>gas_used = tm_gas_used t,
     published_bytecode_bytes = tm_published_bytecode_bytes t,
     l2_l1_long_messages = tm_l2_l1_long_messages t, l2_to_l1_logs = tm_l2_l1_logs t,
     contracts_used = tm_contracts_used t, contracts_deployed = tm_contracts_deployed t,
     vm_events = tm_vm_events t, em_storage_logs = tm_storage_logs t,
     total_log_queries = tm_total_log_queries t, cycles_used = tm_cycles_used t,
     computational_gas_used = tm_computational_gas_used t,
     pubdata_published = tm_pubdata_published t, circuit_statistic = tm_circuit_statistic t\<rparr>"

definition L2ToL1Log_SERIALIZED_SIZE :: nat where "L2ToL1Log_SERIALIZED_SIZE = 88"

definition em_size :: "ExecutionMetrics \<Rightarrow> nat" where
  "em_size e =
     l2_to_l1_logs e * L2ToL1Log_SERIALIZED_SIZE + l2_l1_long_messages e +
     published_bytecode_bytes e + l2_to_l1_logs e * 4"

definition em_add :: "ExecutionMetrics \<Rightarrow> ExecutionMetrics \<Rightarrow> ExecutionMetrics" where
  "em_add a b = \<lparr>gas_used = gas_used a + gas_used b,
     published_bytecode_bytes = published_bytecode_bytes a + published_bytecode_bytes b,
     l2_l1_long_messages = l2_l1_long_messages a + l2_l1_long_messages b,
     l2_to_l1_logs = l2_to_l1_logs a + l2_to_l1_logs b,
     contracts_used = contracts_used a + contracts_used b,
     contracts_deployed = contracts_deployed a + contracts_deployed b,
     vm_events = vm_events a + vm_events b,
     em_storage_logs = em_storage_logs a + em_storage_logs b,
     total_log_queries = total_log_queries a + total_log_queries b,
     cycles_used = cycles_used a + cycles_used b,
     computational_gas_used = computational_gas_used a + computational_gas_used b,
     pubdata_published = pubdata_published a + pubdata_published b,
     circuit_statistic = circuits_add (circuit_statistic a) (circuit_statistic b)\<rparr>"

definition wm_from_tx_metrics :: "TransactionExecutionMetrics \<Rightarrow> DeduplicatedWritesMetrics" where
  "wm_from_tx_metrics t = \<lparr>initial_storage_writes = tm_initial_storage_writes t,
     repeated_storage_writes = tm_repeated_storage_writes t,
     total_updated_values_size = tm_total_updated_values_size t\<rparr>"

definition InitialStorageWrite_SERIALIZED_SIZE :: nat where "InitialStorageWrite_SERIALIZED_SIZE = 64"
definition RepeatedStorageWrite_SERIALIZED_SIZE :: nat where "RepeatedStorageWrite_SERIALIZED_SIZE = 40"

definition wm_size :: "ProtocolVersionId \<Rightarrow> DeduplicatedWritesMetrics \<Rightarrow> nat" where
  "wm_size pv m =
     (if is_pre_boojum pv
      then initial_storage_writes m * InitialStorageWrite_SERIALIZED_SIZE +
           repeated_storage_writes m * RepeatedStorageWrite_SERIALIZED_SIZE
      else metrics_size m)"

section \<open>L1 gas\<close>

record BlockGasCount =
  commit_gas :: u32
  prove_gas :: u32
  execute_gas :: u32

definition BlockGasCount_default :: BlockGasCount where
  "BlockGasCount_default = \<lparr>commit_gas = 0, prove_gas = 0, execute_gas = 0\<rparr>"

definition any_field_greater_than :: "u32 \<Rightarrow> BlockGasCount \<Rightarrow> bool" where
  "any_field_greater_than bound g \<longleftrightarrow>
     commit_gas g > bound \<or> prove_gas g > bound \<or> execute_gas g > bound"

definition gas_add :: "BlockGasCount \<Rightarrow> BlockGasCount \<Rightarrow> BlockGasCount" where
  "gas_add a b = \<lparr>commit_gas = commit_gas a + commit_gas b, prove_gas = prove_gas a + prove_gas b,
     execute_gas = execute_gas a + execute_gas b\<rparr>"

datatype AggregatedActionType = Commit | PublishProofOnchain | Execute

definition L1_BATCH_COMMIT_BASE_COST :: u32 where "L1_BATCH_COMMIT_BASE_COST = 31000"
definition L1_BATCH_PROVE_BASE_COST :: u32 where "L1_BATCH_PROVE_BASE_COST = 7000"
definition L1_BATCH_EXECUTE_BASE_COST :: u32 where "L1_BATCH_EXECUTE_BASE_COST = 30000"
definition EXECUTE_COMMIT_COST :: u32 where "EXECUTE_COMMIT_COST = 0"
definition EXECUTE_EXECUTE_COST :: u32 where "EXECUTE_EXECUTE_COST = 0"
definition L1_OPERATION_EXECUTE_COST :: u32 where "L1_OPERATION_EXECUTE_COST = 12500"
definition GAS_PER_BYTE :: u32 where "GAS_PER_BYTE = 18"

fun l1_batch_base_cost :: "AggregatedActionType \<Rightarrow> u32" where
  "l1_batch_base_cost Commit = L1_BATCH_COMMIT_BASE_COST"
| "l1_batch_base_cost PublishProofOnchain = L1_BATCH_PROVE_BASE_COST"
| "l1_batch_base_cost Execute = L1_BATCH_EXECUTE_BASE_COST"

fun base_tx_cost :: "'x Transaction \<Rightarrow> AggregatedActionType \<Rightarrow> u32" where
  "base_tx_cost tx Commit = EXECUTE_COMMIT_COST"
| "base_tx_cost tx PublishProofOnchain = 0"
| "base_tx_cost (TxL1 _) Execute = L1_OPERATION_EXECUTE_COST"
| "base_tx_cost (TxL2 _) Execute = EXECUTE_EXECUTE_COST"
| "base_tx_cost (TxProtocolUpgrade _) Execute = EXECUTE_EXECUTE_COST"

definition additional_pubdata_commit_cost :: "ExecutionMetrics \<Rightarrow> u32" where
  "additional_pubdata_commit_cost e = of_nat (em_size e) * GAS_PER_BYTE"

definition additional_writes_commit_cost :: "DeduplicatedWritesMetrics \<Rightarrow> ProtocolVersionId \<Rightarrow> u32" where
  "additional_writes_commit_cost m pv = of_nat (wm_size pv m) * GAS_PER_BYTE"

definition new_block_gas_count :: BlockGasCount where
  "new_block_gas_count = \<lparr>commit_gas = l1_batch_base_cost Commit,
     prove_gas = l1_batch_base_cost PublishProofOnchain, execute_gas = l1_batch_base_cost Execute\<rparr>"

definition gas_count_from_tx_and_metrics :: "'x Transaction \<Rightarrow> ExecutionMetrics \<Rightarrow> BlockGasCount" where
  "gas_count_from_tx_and_metrics tx e =
     \<lparr>commit_gas = base_tx_cost tx Commit + additional_pubdata_commit_cost e,
      prove_gas = base_tx_cost tx PublishProofOnchain, execute_gas = base_tx_cost tx Execute\<rparr>"

definition gas_count_from_metrics :: "ExecutionMetrics \<Rightarrow> BlockGasCount" where
  "gas_count_from_metrics e =
     \<lparr>commit_gas = additional_pubdata_commit_cost e, prove_gas = 0, execute_gas = 0\<rparr>"

definition gas_count_from_writes :: "DeduplicatedWritesMetrics \<Rightarrow> ProtocolVersionId \<Rightarrow> BlockGasCount" where
  "gas_count_from_writes m pv =
     \<lparr>commit_gas = additional_writes_commit_cost m pv, prove_gas = 0, execute_gas = 0\<rparr>"

section \<open>Lemmas\<close>

lemma gas_add_assoc: "gas_add (gas_add a b) c = gas_add a (gas_add b c)"
  by (simp add: gas_add_def add.assoc)

lemma gas_add_commute: "gas_add a b = gas_add b a"
  by (simp add: gas_add_def add.commute)

lemma gas_add_left_commute: "gas_add a (gas_add b c) = gas_add b (gas_add a c)"
  by (simp add: gas_add_def add.left_commute)

lemmas gas_add_ac = gas_add_assoc gas_add_commute gas_add_left_commute

lemma gas_add_default [simp]:
  "gas_add g BlockGasCount_default = g" "gas_add BlockGasCount_default g = g"
  by (simp_all add: gas_add_def BlockGasCount_default_def)

lemma circuits_add_default [simp]:
  "f32_statistic s \<Longrightarrow> circuits_add s CircuitStatistic_default = s"
  "f32_statistic s \<Longrightarrow> circuits_add CircuitStatistic_default s = s"
  by (simp_all add: circuits_add_def CircuitStatistic_default_def f32_statistic_def)

lemma f32_statistic_default [simp]: "f32_statistic CircuitStatistic_default"
  by (simp add: f32_statistic_def CircuitStatistic_default_def)

lemma em_add_default [simp]:
  "f32_statistic (circuit_statistic e) \<Longrightarrow> em_add e ExecutionMetrics_default = e"
  "f32_statistic (circuit_statistic e) \<Longrightarrow> em_add ExecutionMetrics_default e = e"
  by (simp_all add: em_add_def ExecutionMetrics_default_def)

lemma em_size_add [simp]: "em_size (em_add a b) = em_size a + em_size b"
  by (simp add: em_size_def em_add_def algebra_simps)

end
