(* ===== verification/SealCriteria.thy ===== *)
theory SealCriteria
  imports ExecutionMetrics
begin

text \<open>
  When the sequencer seals a batch: \<^verbatim>\<open>core/node/state_keeper/src/seal_criteria\<close>. The trait object
  \<open>SealCriterion\<close> is a datatype with the criteria of the sequencer; a criterion returns \<open>None\<close> where
  an assertion on the configuration fails. The time at which the batch was opened, which no
  criterion reads, is left out. The argument \<open>hw\<close> is the heap size of the oldest VMs (see \<open>VmVersions\<close>).
\<close>

section \<open>Resolutions\<close>

datatype Halt =
    ValidationFailed string | PaymasterValidationFailed string
  | PrePaymasterPreparationFailed string | PayForTxFailed string
  | FailedToMarkFactoryDependencies string | FailedToChargeFee string | FromIsNotAnAccount
  | InnerTxError | Unknown string | UnexpectedVMBehavior string | HaltBootloaderOutOfGas
  | ValidationOutOfGas | TooBigGasLimit | HaltNotEnoughGasProvided | MissingInvocationLimitReached
  | FailedToSetL2Block string | FailedToAppendTransactionToL2Block string | VMPanic
  | TracerCustom string | FailedToPublishCompressedBytecodes

datatype UnexecutableReason =
    ReasonHalt Halt | TxEncodingSize | LargeEncodingSize | PubdataLimit | ProofWillFail | TooMuchGas
  | OutOfGasForBatchTip | BootloaderOutOfGas | NotEnoughGasProvided

datatype SealResolution =
    NoSeal | IncludeAndSeal | ExcludeAndSeal | Unexecutable (reason_of: UnexecutableReason)

fun stricter :: "SealResolution \<Rightarrow> SealResolution \<Rightarrow> SealResolution" where
  "stricter (Unexecutable reason) _ = Unexecutable reason"
| "stricter _ (Unexecutable reason) = Unexecutable reason"
| "stricter ExcludeAndSeal _ = ExcludeAndSeal"
| "stricter _ ExcludeAndSeal = ExcludeAndSeal"
| "stricter IncludeAndSeal _ = IncludeAndSeal"
| "stricter _ IncludeAndSeal = IncludeAndSeal"
| "stricter _ _ = NoSeal"

fun resolution_should_seal :: "SealResolution \<Rightarrow> bool" where
  "resolution_should_seal IncludeAndSeal = True"
| "resolution_should_seal ExcludeAndSeal = True"
| "resolution_should_seal _ = False"

section \<open>Configuration and data\<close>

record StateKeeperConfig =
  transaction_slots :: nat
  max_single_tx_gas :: u32
  reject_tx_at_geometry_percentage :: f64
  reject_tx_at_eth_params_percentage :: f64
  reject_tx_at_gas_percentage :: f64
  close_block_at_geometry_percentage :: f64
  close_block_at_eth_params_percentage :: f64
  close_block_at_gas_percentage :: f64
  max_pubdata_per_batch :: u64
  max_circuits_per_batch :: nat
  block_commit_deadline_ms :: u64
  l2_block_commit_deadline_ms :: u64
  l2_block_max_payload_size :: nat
  max_allowed_l2_tx_gas_limit :: u64

record SealData =
  execution_metrics :: ExecutionMetrics
  gas_count :: BlockGasCount
  cumulative_size :: nat
  writes_metrics :: DeduplicatedWritesMetrics
  gas_remaining :: u32

text \<open>\<open>SealData::for_transaction\<close>; the bootloader encoding size of the transaction is \<open>encoding_size\<close>.\<close>

definition seal_data_for_transaction ::
  "'x Transaction \<Rightarrow> nat \<Rightarrow> TransactionExecutionMetrics \<Rightarrow> ProtocolVersionId \<Rightarrow> SealData" where
  "seal_data_for_transaction tx encoding_size t pv =
     \<lparr>execution_metrics = em_from_tx_metrics t,
      gas_count = gas_add (gas_count_from_tx_and_metrics tx (em_from_tx_metrics t))
        (gas_count_from_writes (wm_from_tx_metrics t) pv),
      cumulative_size = encoding_size, writes_metrics = wm_from_tx_metrics t,
      gas_remaining = tm_gas_remaining t\<rparr>"

section \<open>Criteria\<close>

definition slots_should_seal ::
  "StateKeeperConfig \<Rightarrow> nat \<Rightarrow> ProtocolVersionId \<Rightarrow> SealResolution option" where
  "slots_should_seal cfg tx_count pv =
     (if transaction_slots cfg \<le> get_bootloader_max_txs_in_batch (vm_version_from pv)
      then Some (if tx_count \<ge> transaction_slots cfg then IncludeAndSeal else NoSeal)
      else None)"

definition gas_should_seal :: "StateKeeperConfig \<Rightarrow> SealData \<Rightarrow> SealData \<Rightarrow> SealResolution" where
  "gas_should_seal cfg block_data tx_data =
     (let tx_bound = of_nat (scaled 32 (unat (max_single_tx_gas cfg)) (reject_tx_at_gas_percentage cfg));
          block_bound = of_nat (scaled 32 (unat (max_single_tx_gas cfg)) (close_block_at_gas_percentage cfg))
      in if any_field_greater_than tx_bound (gas_add (gas_count tx_data) new_block_gas_count)
         then Unexecutable TooMuchGas
         else if any_field_greater_than (max_single_tx_gas cfg) (gas_count block_data) then ExcludeAndSeal
         else if any_field_greater_than block_bound (gas_count block_data) then IncludeAndSeal
         else NoSeal)"

definition data_size :: "ProtocolVersionId \<Rightarrow> SealData \<Rightarrow> nat" where
  "data_size pv d = em_size (execution_metrics d) + wm_size pv (writes_metrics d)"

definition pubdata_tx_size :: "ProtocolVersionId \<Rightarrow> SealData \<Rightarrow> nat" where
  "pubdata_tx_size pv tx_data =
     (if pubdata_published (execution_metrics tx_data) = 0 then data_size pv tx_data
      else unat (pubdata_published (execution_metrics tx_data)))"

definition pubdata_should_seal ::
  "u64 \<Rightarrow> StateKeeperConfig \<Rightarrow> SealData \<Rightarrow> SealData \<Rightarrow> ProtocolVersionId \<Rightarrow> SealResolution" where
  "pubdata_should_seal max_pubdata cfg block_data tx_data pv =
     (let limit = unat max_pubdata;
          reject_bound = scaled 64 limit (reject_tx_at_eth_params_percentage cfg);
          include_and_seal_bound = scaled 64 limit (close_block_at_eth_params_percentage cfg);
          block_size = data_size pv block_data;
          tx_size = pubdata_tx_size pv tx_data;
          overhead = execution_metrics_bootloader_batch_tip_overhead (vm_version_from pv)
      in if tx_size + overhead > reject_bound then Unexecutable PubdataLimit
         else if block_size + overhead > limit then ExcludeAndSeal
         else if block_size + overhead > include_and_seal_bound then IncludeAndSeal
         else NoSeal)"

definition circuits_should_seal ::
  "StateKeeperConfig \<Rightarrow> SealData \<Rightarrow> SealData \<Rightarrow> ProtocolVersionId \<Rightarrow> SealResolution option" where
  "circuits_should_seal cfg block_data tx_data pv =
     (let overhead = circuit_statistics_bootloader_batch_tip_overhead (vm_version_from pv)
      in if \<not> max_circuits_per_batch cfg \<le> get_max_batch_base_layer_circuits (vm_version_from pv) then None
         else if \<not> overhead < max_circuits_per_batch cfg then None
         else
           let reject_bound = scaled 64 (max_circuits_per_batch cfg) (reject_tx_at_geometry_percentage cfg);
               include_and_seal_bound =
                 scaled 64 (max_circuits_per_batch cfg) (close_block_at_geometry_percentage cfg);
               used_tx = circuits_total (circuit_statistic (execution_metrics tx_data));
               used_batch = circuits_total (circuit_statistic (execution_metrics block_data))
           in Some (if used_tx + overhead \<ge> reject_bound then Unexecutable ProofWillFail
                    else if used_batch + overhead \<ge> max_circuits_per_batch cfg then ExcludeAndSeal
                    else if used_batch + overhead \<ge> include_and_seal_bound then IncludeAndSeal
                    else NoSeal))"

definition tx_encoding_should_seal ::
  "nat \<Rightarrow> StateKeeperConfig \<Rightarrow> SealData \<Rightarrow> SealData \<Rightarrow> ProtocolVersionId \<Rightarrow> SealResolution" where
  "tx_encoding_should_seal hw cfg block_data tx_data pv =
     (let space = unat (get_bootloader_encoding_space hw (vm_version_from pv));
          reject_bound = scaled 64 space (reject_tx_at_geometry_percentage cfg);
          include_and_seal_bound = scaled 64 space (close_block_at_geometry_percentage cfg)
      in if cumulative_size tx_data > reject_bound then Unexecutable LargeEncodingSize
         else if cumulative_size block_data > space then ExcludeAndSeal
         else if cumulative_size block_data > include_and_seal_bound then IncludeAndSeal
         else NoSeal)"

definition gas_for_batch_tip_should_seal :: "nat \<Rightarrow> SealData \<Rightarrow> ProtocolVersionId \<Rightarrow> SealResolution" where
  "gas_for_batch_tip_should_seal tx_count tx_data pv =
     (if gas_remaining tx_data < gas_bootloader_batch_tip_overhead (vm_version_from pv)
      then (if tx_count = 1 then Unexecutable OutOfGasForBatchTip else ExcludeAndSeal)
      else NoSeal)"

datatype SealCriterion =
    SlotsCriterion | GasCriterion | PubDataBytesCriterion u64 | CircuitsCriterion
  | TxEncodingSizeCriterion | GasForBatchTipCriterion

fun should_seal ::
  "nat \<Rightarrow> SealCriterion \<Rightarrow> StateKeeperConfig \<Rightarrow> nat \<Rightarrow> SealData \<Rightarrow> SealData \<Rightarrow> ProtocolVersionId \<Rightarrow>
   SealResolution option" where
  "should_seal hw SlotsCriterion cfg n b t pv = slots_should_seal cfg n pv"
| "should_seal hw GasCriterion cfg n b t pv = Some (gas_should_seal cfg b t)"
| "should_seal hw (PubDataBytesCriterion m) cfg n b t pv = Some (pubdata_should_seal m cfg b t pv)"
| "should_seal hw CircuitsCriterion cfg n b t pv = circuits_should_seal cfg b t pv"
| "should_seal hw TxEncodingSizeCriterion cfg n b t pv = Some (tx_encoding_should_seal hw cfg b t pv)"
| "should_seal hw GasForBatchTipCriterion cfg n b t pv = Some (gas_for_batch_tip_should_seal n t pv)"

fun prom_criterion_name :: "SealCriterion \<Rightarrow> string" where
  "prom_criterion_name SlotsCriterion = ''slots''"
| "prom_criterion_name GasCriterion = ''gas''"
| "prom_criterion_name (PubDataBytesCriterion _) = ''pub_data_size''"
| "prom_criterion_name CircuitsCriterion = ''circuits_criterion''"
| "prom_criterion_name TxEncodingSizeCriterion = ''tx_encoding_size''"
| "prom_criterion_name GasForBatchTipCriterion = ''gas_for_batch_tip''"

section \<open>The sealers\<close>

record SequencerSealer =
  sealer_config :: StateKeeperConfig
  sealers :: "SealCriterion list"

definition default_sealers :: "StateKeeperConfig \<Rightarrow> SealCriterion list" where
  "default_sealers cfg =
     [SlotsCriterion, GasCriterion, PubDataBytesCriterion (max_pubdata_per_batch cfg),
      CircuitsCriterion, TxEncodingSizeCriterion, GasForBatchTipCriterion]"

definition SequencerSealer_new :: "StateKeeperConfig \<Rightarrow> SequencerSealer" where
  "SequencerSealer_new cfg = \<lparr>sealer_config = cfg, sealers = default_sealers cfg\<rparr>"

datatype ConditionalSealer = SequencerSealer SequencerSealer | NoopSealer

text \<open>\<open>None\<close> is a failed assertion; the inner option is the result.\<close>

fun find_unexecutable ::
  "nat \<Rightarrow> StateKeeperConfig \<Rightarrow> SealData \<Rightarrow> ProtocolVersionId \<Rightarrow> SealCriterion list \<Rightarrow> string option option" where
  "find_unexecutable hw cfg d pv [] = Some None"
| "find_unexecutable hw cfg d pv (c # cs) =
     (case should_seal hw c cfg 1 d d pv of
        None \<Rightarrow> None
      | Some (Unexecutable _) \<Rightarrow> Some (Some (prom_criterion_name c))
      | Some _ \<Rightarrow> find_unexecutable hw cfg d pv cs)"

fun find_unexecutable_reason ::
  "nat \<Rightarrow> ConditionalSealer \<Rightarrow> SealData \<Rightarrow> ProtocolVersionId \<Rightarrow> string option option" where
  "find_unexecutable_reason hw (SequencerSealer s) d pv =
     find_unexecutable hw (sealer_config s) d pv (sealers s)"
| "find_unexecutable_reason hw NoopSealer d pv = Some None"

fun final_resolution ::
  "nat \<Rightarrow> StateKeeperConfig \<Rightarrow> nat \<Rightarrow> SealData \<Rightarrow> SealData \<Rightarrow> ProtocolVersionId \<Rightarrow> SealCriterion list \<Rightarrow>
   SealResolution \<Rightarrow> SealResolution option" where
  "final_resolution hw cfg n b t pv [] acc = Some acc"
| "final_resolution hw cfg n b t pv (c # cs) acc =
     (case should_seal hw c cfg n b t pv of
        None \<Rightarrow> None
      | Some r \<Rightarrow> final_resolution hw cfg n b t pv cs (stricter acc r))"

fun should_seal_l1_batch ::
  "nat \<Rightarrow> ConditionalSealer \<Rightarrow> nat \<Rightarrow> SealData \<Rightarrow> SealData \<Rightarrow> ProtocolVersionId \<Rightarrow>
   SealResolution option" where
  "should_seal_l1_batch hw (SequencerSealer s) n b t pv =
     final_resolution hw (sealer_config s) n b t pv (sealers s) NoSeal"
| "should_seal_l1_batch hw NoopSealer n b t pv = Some NoSeal"

section \<open>Strictness\<close>

text \<open>
  The reference: among the resolutions of the criteria the first rejection wins, then excluding the
  transaction, then sealing after it.
\<close>

fun is_unexecutable :: "SealResolution \<Rightarrow> bool" where
  "is_unexecutable (Unexecutable _) = True"
| "is_unexecutable _ = False"

definition strictest :: "SealResolution list \<Rightarrow> SealResolution" where
  "strictest rs =
     (case List.find is_unexecutable rs of
        Some r \<Rightarrow> r
      | None \<Rightarrow> if ExcludeAndSeal \<in> set rs then ExcludeAndSeal
                else if IncludeAndSeal \<in> set rs then IncludeAndSeal else NoSeal)"

lemma stricter_NoSeal [simp]: "stricter NoSeal r = r" "stricter r NoSeal = r"
  by (cases r; simp)+

lemma stricter_assoc: "stricter (stricter a b) c = stricter a (stricter b c)"
  by (cases a; cases b; cases c) simp_all

lemma strictest_Cons: "strictest (r # rs) = stricter r (strictest rs)"
proof (cases "List.find is_unexecutable rs")
  case None
  then show ?thesis by (cases r) (auto simp: strictest_def)
next
  case (Some u)
  then have "is_unexecutable u" by (auto dest: find_SomeD)
  then obtain x where "u = Unexecutable x" by (cases u) auto
  then show ?thesis using Some by (cases r) (simp_all add: strictest_def)
qed

lemma final_resolution_strictest:
  "final_resolution hw cfg n b t pv cs acc =
     map_option (\<lambda>rs. stricter acc (strictest rs)) (those (map (\<lambda>c. should_seal hw c cfg n b t pv) cs))"
proof (induction cs arbitrary: acc)
  case Nil
  then show ?case by (simp add: strictest_def)
next
  case (Cons c cs)
  show ?case
  proof (cases "should_seal hw c cfg n b t pv")
    case (Some r)
    then show ?thesis
      using Cons by (auto simp: strictest_Cons stricter_assoc split: option.splits)
         (auto simp: option.map_comp comp_def strictest_Cons stricter_assoc)
  qed simp
qed


text \<open>
  C36. The resolution of the sequencer is the strictest one of its criteria, and it panics exactly
  when one of them does.
\<close>

theorem should_seal_strictest:
  "should_seal_l1_batch hw (SequencerSealer s) n b t pv =
     map_option strictest (those (map (\<lambda>c. should_seal hw c (sealer_config s) n b t pv) (sealers s)))"
  by (simp add: final_resolution_strictest)

lemma final_resolution_stricter:
  "final_resolution hw cfg n b t pv cs acc =
     map_option (stricter acc) (final_resolution hw cfg n b t pv cs NoSeal)"
  by (simp add: final_resolution_strictest option.map_comp comp_def)

lemma is_unexecutable_stricter: "is_unexecutable (stricter a b) \<longleftrightarrow> is_unexecutable a \<or> is_unexecutable b"
  by (cases a; cases b) simp_all

text \<open>
  The check the API server makes before it accepts a transaction agrees with the decision on a batch
  with this transaction alone.
\<close>

lemma find_unexecutable_agrees:
  "final_resolution hw cfg 1 d d pv cs NoSeal = Some r \<Longrightarrow>
   \<exists>name. find_unexecutable hw cfg d pv cs = Some name \<and> (name = None \<longleftrightarrow> \<not> is_unexecutable r)"
proof (induction cs arbitrary: r)
  case (Cons c cs)
  then obtain q where q: "should_seal hw c cfg 1 d d pv = Some q"
    by (auto split: option.splits)
  then obtain r' where r': "final_resolution hw cfg 1 d d pv cs NoSeal = Some r'" "r = stricter q r'"
    using Cons.prems by (auto simp: final_resolution_stricter [of _ _ _ _ _ _ _ q])
  then show ?case
    using Cons.IH [OF r'(1)] q by (cases q) (auto simp: is_unexecutable_stricter)
qed simp

section \<open>Limits\<close>

definition batch_fits :: "nat \<Rightarrow> StateKeeperConfig \<Rightarrow> SealData \<Rightarrow> SealData \<Rightarrow> ProtocolVersionId \<Rightarrow> bool" where
  "batch_fits hw cfg b t pv \<longleftrightarrow>
     (let vm = vm_version_from pv in
      \<not> any_field_greater_than (max_single_tx_gas cfg) (gas_count b) \<and>
      data_size pv b + execution_metrics_bootloader_batch_tip_overhead vm \<le> unat (max_pubdata_per_batch cfg) \<and>
      circuits_total (circuit_statistic (execution_metrics b)) +
        circuit_statistics_bootloader_batch_tip_overhead vm < max_circuits_per_batch cfg \<and>
      cumulative_size b \<le> unat (get_bootloader_encoding_space hw vm) \<and>
      gas_bootloader_batch_tip_overhead vm \<le> gas_remaining t)"

lemma strictest_not_unexecutable:
  assumes "\<not> is_unexecutable (strictest rs)"
  shows "List.find is_unexecutable rs = None"
proof (cases "List.find is_unexecutable rs")
  case (Some u)
  then show ?thesis using assms by (auto simp: strictest_def dest: find_SomeD)
qed simp

lemma strictest_accepts:
  assumes "\<not> is_unexecutable (strictest rs)" "strictest rs \<noteq> ExcludeAndSeal" "r \<in> set rs"
  shows "r = NoSeal \<or> r = IncludeAndSeal"
proof -
  note none = strictest_not_unexecutable [OF assms(1)]
  have "ExcludeAndSeal \<notin> set rs" using assms(2) by (auto simp: strictest_def none)
  moreover have "\<not> is_unexecutable r" using none assms(3) by (auto simp: find_None_iff)
  ultimately show ?thesis using assms(3) by (cases r) auto
qed

lemma strictest_NoSeal:
  assumes "strictest rs = NoSeal" "r \<in> set rs"
  shows "r = NoSeal"
proof -
  have none: "List.find is_unexecutable rs = None" using strictest_not_unexecutable assms(1) by simp
  have "IncludeAndSeal \<notin> set rs" using assms(1) by (auto simp: strictest_def none split: if_splits)
  then show ?thesis using strictest_accepts [of rs r] assms by auto
qed

lemma default_criteria:
  "should_seal_l1_batch hw (SequencerSealer (SequencerSealer_new cfg)) n b t pv = Some r \<Longrightarrow>
   \<exists>slots circuits.
     slots_should_seal cfg n pv = Some slots \<and> circuits_should_seal cfg b t pv = Some circuits \<and>
     r = strictest [slots, gas_should_seal cfg b t,
       pubdata_should_seal (max_pubdata_per_batch cfg) cfg b t pv, circuits,
       tx_encoding_should_seal hw cfg b t pv, gas_for_batch_tip_should_seal n t pv]"
  by (auto simp: final_resolution_strictest SequencerSealer_new_def default_sealers_def split: option.splits)

lemma accepted_fits:
  assumes "should_seal_l1_batch hw (SequencerSealer (SequencerSealer_new cfg)) n b t pv = Some r"
    and "r = NoSeal \<or> r = IncludeAndSeal"
  shows "batch_fits hw cfg b t pv \<and> (r = NoSeal \<longrightarrow> n < transaction_slots cfg)"
proof -
  obtain slots circuits where c: "slots_should_seal cfg n pv = Some slots"
    "circuits_should_seal cfg b t pv = Some circuits"
    and r: "r = strictest [slots, gas_should_seal cfg b t,
       pubdata_should_seal (max_pubdata_per_batch cfg) cfg b t pv, circuits,
       tx_encoding_should_seal hw cfg b t pv, gas_for_batch_tip_should_seal n t pv]" (is "r = strictest ?rs")
    using default_criteria [OF assms(1)] by blast
  have ok: "x = NoSeal \<or> x = IncludeAndSeal" if "x \<in> set ?rs" for x
    by (rule strictest_accepts [OF _ _ that]) (use assms(2) in \<open>auto simp only: r [symmetric] is_unexecutable.simps\<close>)
  have "\<not> any_field_greater_than (max_single_tx_gas cfg) (gas_count b)"
    using ok [of "gas_should_seal cfg b t"] by (auto simp: gas_should_seal_def Let_def split: if_splits)
  moreover have "data_size pv b + execution_metrics_bootloader_batch_tip_overhead (vm_version_from pv)
      \<le> unat (max_pubdata_per_batch cfg)"
    using ok [of "pubdata_should_seal (max_pubdata_per_batch cfg) cfg b t pv"]
    by (auto simp: pubdata_should_seal_def Let_def split: if_splits)
  moreover have "circuits_total (circuit_statistic (execution_metrics b)) +
        circuit_statistics_bootloader_batch_tip_overhead (vm_version_from pv) < max_circuits_per_batch cfg"
    using ok [of circuits] c(2) by (auto simp: circuits_should_seal_def Let_def split: if_splits)
  moreover have "cumulative_size b \<le> unat (get_bootloader_encoding_space hw (vm_version_from pv))"
    using ok [of "tx_encoding_should_seal hw cfg b t pv"]
    by (auto simp: tx_encoding_should_seal_def Let_def split: if_splits)
  moreover have "gas_bootloader_batch_tip_overhead (vm_version_from pv) \<le> gas_remaining t"
    using ok [of "gas_for_batch_tip_should_seal n t pv"]
    by (auto simp: gas_for_batch_tip_should_seal_def split: if_splits)
  moreover have "r = NoSeal \<longrightarrow> n < transaction_slots cfg"
    using strictest_NoSeal [of ?rs slots] r c(1) by (auto simp: slots_should_seal_def split: if_splits)
  ultimately show ?thesis by (simp add: batch_fits_def Let_def)
qed

text \<open>
  C37. A batch the sequencer continues or seals with its last transaction stays within every limit:
  L1 gas, pubdata and circuits with the reserve for the batch tip, the encoding space of the
  bootloader and the gas left for the tip; and it continues only while a slot is free.
\<close>

theorem accepted_batch_fits:
  assumes "should_seal_l1_batch hw (SequencerSealer (SequencerSealer_new cfg)) n b t pv = Some r"
    and "r = NoSeal \<or> r = IncludeAndSeal"
  shows "batch_fits hw cfg b t pv \<and> (r = NoSeal \<longrightarrow> n < transaction_slots cfg)"
  using assms by (rule accepted_fits)

text \<open>A configuration for the witnesses: every percentage is one, two slots.\<close>

definition demo_config :: StateKeeperConfig where
  "demo_config = \<lparr>transaction_slots = 2, max_single_tx_gas = 100000,
     reject_tx_at_geometry_percentage = 1, reject_tx_at_eth_params_percentage = 1,
     reject_tx_at_gas_percentage = 1, close_block_at_geometry_percentage = 1,
     close_block_at_eth_params_percentage = 1, close_block_at_gas_percentage = 1,
     max_pubdata_per_batch = 100000, max_circuits_per_batch = 30000,
     block_commit_deadline_ms = 2500, l2_block_commit_deadline_ms = 1000,
     l2_block_max_payload_size = 1000000, max_allowed_l2_tx_gas_limit = 4000000000\<rparr>"

definition demo_data :: "BlockGasCount \<Rightarrow> SealData" where
  "demo_data g = \<lparr>execution_metrics = ExecutionMetrics_default, gas_count = g, cumulative_size = 100,
     writes_metrics = \<lparr>initial_storage_writes = 0, repeated_storage_writes = 0, total_updated_values_size = 0\<rparr>,
     gas_remaining = 500000000\<rparr>"

declare get_bootloader_encoding_space.simps [simp del]

lemma circuits_total_default [simp]: "circuits_total CircuitStatistic_default = 0"
  by (simp add: circuits_total_def CircuitStatistic_default_def)

lemmas demo_simps = demo_config_def demo_data_def new_block_gas_count_def BlockGasCount_default_def
  gas_add_def any_field_greater_than_def ExecutionMetrics_default_def data_size_def em_size_def
  wm_size_def metrics_size_def pubdata_tx_size_def is_pre_boojum_def less_eq_ProtocolVersionId_def
  L1_BATCH_COMMIT_BASE_COST_def L1_BATCH_PROVE_BASE_COST_def L1_BATCH_EXECUTE_BASE_COST_def
  latest_space

lemma demo_criteria:
  "slots_should_seal demo_config n Version24 = Some (if n < 2 then NoSeal else IncludeAndSeal)"
  "gas_should_seal demo_config (demo_data new_block_gas_count) (demo_data BlockGasCount_default) = NoSeal"
  "pubdata_should_seal (max_pubdata_per_batch demo_config) demo_config (demo_data g) (demo_data g') Version24 = NoSeal"
  "circuits_should_seal demo_config (demo_data g) (demo_data g') Version24 = Some NoSeal"
  "tx_encoding_should_seal hw demo_config (demo_data g) (demo_data g') Version24 = NoSeal"
  "gas_for_batch_tip_should_seal n (demo_data g') Version24 = NoSeal"
  by (simp_all add: slots_should_seal_def gas_should_seal_def pubdata_should_seal_def
      circuits_should_seal_def tx_encoding_should_seal_def gas_for_batch_tip_should_seal_def
      demo_simps Let_def)

lemma demo_resolution:
  "should_seal_l1_batch hw (SequencerSealer (SequencerSealer_new demo_config)) n
     (demo_data new_block_gas_count) (demo_data BlockGasCount_default) Version24 =
   Some (if n < 2 then NoSeal else IncludeAndSeal)"
  by (simp add: SequencerSealer_new_def default_sealers_def demo_criteria)

theorem accepted_batch_fits_witness:
  "batch_fits 0 demo_config (demo_data new_block_gas_count) (demo_data BlockGasCount_default) Version24"
  using accepted_batch_fits [OF demo_resolution [of 0 1]] by simp

section \<open>The first transaction of a batch\<close>

text \<open>Percentages between zero and one, and limits that are exact as \<open>f64\<close>.\<close>

definition sane_config :: "StateKeeperConfig \<Rightarrow> bool" where
  "sane_config cfg \<longleftrightarrow>
     0 \<le> reject_tx_at_gas_percentage cfg \<and> reject_tx_at_gas_percentage cfg \<le> 1 \<and>
     0 \<le> reject_tx_at_eth_params_percentage cfg \<and> reject_tx_at_eth_params_percentage cfg \<le> 1 \<and>
     0 \<le> reject_tx_at_geometry_percentage cfg \<and> reject_tx_at_geometry_percentage cfg \<le> 1 \<and>
     max_pubdata_per_batch cfg < 2 ^ 53"

text \<open>The data of a batch whose only transaction has the data \<open>t\<close>.\<close>

definition alone_in_batch :: "SealData \<Rightarrow> SealData \<Rightarrow> bool" where
  "alone_in_batch b t \<longleftrightarrow>
     gas_count b = gas_add (gas_count t) new_block_gas_count \<and> execution_metrics b = execution_metrics t \<and>
     cumulative_size b = cumulative_size t \<and> writes_metrics b = writes_metrics t"

lemma of_nat_scaled_le:
  assumes "0 \<le> p" "p \<le> 1"
  shows "(of_nat (scaled 32 (unat m) p) :: u32) \<le> m"
proof -
  have m: "unat m < 2 ^ 32" using unsigned_less [of m, where 'a = nat] by simp
  have "scaled 32 (unat m) p \<le> unat m" using assms m by (intro scaled_le) simp_all
  then show ?thesis using m by (simp add: word_le_nat_alt unat_of_nat take_bit_nat_def)
qed

lemma first_tx_criteria:
  assumes "sane_config cfg" "alone_in_batch b t" "data_size pv t \<le> pubdata_tx_size pv t"
  shows "gas_should_seal cfg b t \<noteq> ExcludeAndSeal"
    and "pubdata_should_seal (max_pubdata_per_batch cfg) cfg b t pv \<noteq> ExcludeAndSeal"
    and "circuits_should_seal cfg b t pv \<noteq> Some ExcludeAndSeal"
    and "tx_encoding_should_seal hw cfg b t pv \<noteq> ExcludeAndSeal"
    and "gas_for_batch_tip_should_seal 1 t pv \<noteq> ExcludeAndSeal"
    and "slots_should_seal cfg n pv \<noteq> Some ExcludeAndSeal"
proof -
  have a: "gas_count b = gas_add (gas_count t) new_block_gas_count" "data_size pv b = data_size pv t"
    "execution_metrics b = execution_metrics t" "cumulative_size b = cumulative_size t"
    using assms(2) by (simp_all add: alone_in_batch_def data_size_def)
  have "(of_nat (scaled 32 (unat (max_single_tx_gas cfg)) (reject_tx_at_gas_percentage cfg)) :: u32)
      \<le> max_single_tx_gas cfg"
    using assms(1) by (intro of_nat_scaled_le) (simp_all add: sane_config_def)
  then show "gas_should_seal cfg b t \<noteq> ExcludeAndSeal"
    by (auto simp: gas_should_seal_def Let_def a any_field_greater_than_def)
  have "unat (max_pubdata_per_batch cfg) < 2 ^ 53"
    using assms(1) by (simp add: sane_config_def word_less_nat_alt)
  then have "scaled 64 (unat (max_pubdata_per_batch cfg)) (reject_tx_at_eth_params_percentage cfg)
      \<le> unat (max_pubdata_per_batch cfg)"
    using assms(1) by (intro scaled_le) (simp_all add: sane_config_def)
  then show "pubdata_should_seal (max_pubdata_per_batch cfg) cfg b t pv \<noteq> ExcludeAndSeal"
    using assms(3) by (auto simp: pubdata_should_seal_def Let_def a)
  have "get_max_batch_base_layer_circuits (vm_version_from pv) \<le> 34100"
    by (cases "vm_version_from pv") simp_all
  then have "scaled 64 (max_circuits_per_batch cfg) (reject_tx_at_geometry_percentage cfg)
      \<le> max_circuits_per_batch cfg"
    if "max_circuits_per_batch cfg \<le> get_max_batch_base_layer_circuits (vm_version_from pv)"
    using assms(1) that by (intro scaled_le) (simp_all add: sane_config_def)
  then show "circuits_should_seal cfg b t pv \<noteq> Some ExcludeAndSeal"
    by (auto simp: circuits_should_seal_def Let_def a)
  define space where "space = unat (get_bootloader_encoding_space hw (vm_version_from pv))"
  have "space < 2 ^ 32" unfolding space_def
    using unsigned_less [of "get_bootloader_encoding_space hw (vm_version_from pv)", where 'a = nat] by simp
  then have "scaled 64 space (reject_tx_at_geometry_percentage cfg) \<le> space"
    using assms(1) by (intro scaled_le) (simp_all add: sane_config_def)
  then show "tx_encoding_should_seal hw cfg b t pv \<noteq> ExcludeAndSeal"
    by (auto simp: tx_encoding_should_seal_def Let_def a simp flip: space_def)
qed (simp_all add: gas_for_batch_tip_should_seal_def slots_should_seal_def)

lemma strictest_ExcludeAndSeal:
  assumes "strictest rs = ExcludeAndSeal"
  shows "ExcludeAndSeal \<in> set rs"
proof -
  have "List.find is_unexecutable rs = None" using strictest_not_unexecutable assms by simp
  then show ?thesis using assms by (simp add: strictest_def split: if_splits)
qed

lemma first_tx_not_excluded:
  assumes "sane_config cfg" "alone_in_batch b t" "data_size pv t \<le> pubdata_tx_size pv t"
  shows "should_seal_l1_batch hw (SequencerSealer (SequencerSealer_new cfg)) 1 b t pv \<noteq> Some ExcludeAndSeal"
proof
  assume "should_seal_l1_batch hw (SequencerSealer (SequencerSealer_new cfg)) 1 b t pv = Some ExcludeAndSeal"
  then obtain slots circuits where c: "slots_should_seal cfg 1 pv = Some slots"
    "circuits_should_seal cfg b t pv = Some circuits"
    and r: "ExcludeAndSeal = strictest [slots, gas_should_seal cfg b t,
       pubdata_should_seal (max_pubdata_per_batch cfg) cfg b t pv, circuits,
       tx_encoding_should_seal hw cfg b t pv, gas_for_batch_tip_should_seal 1 t pv]"
    using default_criteria by blast
  note f = first_tx_criteria [OF assms]
  show False
    using strictest_ExcludeAndSeal [OF r [symmetric]] f(1,2,3,5) f(4) [of hw] f(6) [of 1] c by auto
qed

end
