(* ===== verification/FeeModel.thy ===== *)
theory FeeModel
  imports VmVersions
begin

text \<open>
  The fee input of a batch and the prices the VMs derive from it:
  \<^verbatim>\<open>core/lib/types/src/fee_model.rs\<close>, the fee functions of \<^verbatim>\<open>core/lib/multivm/src/utils.rs\<close> and the
  \<^verbatim>\<open>utils/fee.rs\<close> of the VM versions. The VMs before 1.4.1 share one formula and the later ones
  another; they differ in \<open>MAX_GAS_PER_PUBDATA_BYTE\<close>. A function that can panic (division by zero,
  the checked arithmetic of \<open>U256\<close>, a cast that does not fit, a conversion between fee models)
  returns an option.
\<close>

section \<open>Fee inputs\<close>

record L1PeggedBatchFeeModelInput =
  lp_fair_l2_gas_price :: u64
  lp_l1_gas_price :: u64

record PubdataIndependentBatchFeeModelInput =
  pi_fair_l2_gas_price :: u64
  pi_fair_pubdata_price :: u64
  pi_l1_gas_price :: u64

datatype BatchFeeInput =
    L1Pegged L1PeggedBatchFeeModelInput
  | PubdataIndependent PubdataIndependentBatchFeeModelInput

definition L1_GAS_PER_PUBDATA_BYTE :: u32 where "L1_GAS_PER_PUBDATA_BYTE = 17"

definition sensible_l1_pegged_default :: BatchFeeInput where
  "sensible_l1_pegged_default =
     L1Pegged \<lparr>lp_fair_l2_gas_price = 100000000, lp_l1_gas_price = 1000000000\<rparr>"

definition l1_pegged :: "u64 \<Rightarrow> u64 \<Rightarrow> BatchFeeInput" where
  "l1_pegged l1_gas_price fair_l2_gas_price =
     L1Pegged \<lparr>lp_fair_l2_gas_price = fair_l2_gas_price, lp_l1_gas_price = l1_gas_price\<rparr>"

definition pubdata_independent :: "u64 \<Rightarrow> u64 \<Rightarrow> u64 \<Rightarrow> BatchFeeInput" where
  "pubdata_independent l1_gas_price fair_l2_gas_price fair_pubdata_price =
     PubdataIndependent \<lparr>pi_fair_l2_gas_price = fair_l2_gas_price,
       pi_fair_pubdata_price = fair_pubdata_price, pi_l1_gas_price = l1_gas_price\<rparr>"

definition BatchFeeInput_default :: BatchFeeInput where
  "BatchFeeInput_default = L1Pegged \<lparr>lp_fair_l2_gas_price = 0, lp_l1_gas_price = 0\<rparr>"

fun into_l1_pegged :: "BatchFeeInput \<Rightarrow> L1PeggedBatchFeeModelInput option" where
  "into_l1_pegged (L1Pegged i) = Some i"
| "into_l1_pegged (PubdataIndependent _) = None"

fun fair_pubdata_price :: "BatchFeeInput \<Rightarrow> u64" where
  "fair_pubdata_price (L1Pegged i) = lp_l1_gas_price i * ucast L1_GAS_PER_PUBDATA_BYTE"
| "fair_pubdata_price (PubdataIndependent i) = pi_fair_pubdata_price i"

fun fair_l2_gas_price :: "BatchFeeInput \<Rightarrow> u64" where
  "fair_l2_gas_price (L1Pegged i) = lp_fair_l2_gas_price i"
| "fair_l2_gas_price (PubdataIndependent i) = pi_fair_l2_gas_price i"

fun l1_gas_price :: "BatchFeeInput \<Rightarrow> u64" where
  "l1_gas_price (L1Pegged i) = lp_l1_gas_price i"
| "l1_gas_price (PubdataIndependent i) = pi_l1_gas_price i"

fun into_pubdata_independent :: "BatchFeeInput \<Rightarrow> PubdataIndependentBatchFeeModelInput" where
  "into_pubdata_independent (PubdataIndependent i) = i"
| "into_pubdata_independent (L1Pegged i) =
     \<lparr>pi_fair_l2_gas_price = lp_fair_l2_gas_price i,
      pi_fair_pubdata_price = lp_l1_gas_price i * ucast L1_GAS_PER_PUBDATA_BYTE,
      pi_l1_gas_price = lp_l1_gas_price i\<rparr>"

definition for_protocol_version ::
  "ProtocolVersionId \<Rightarrow> u64 \<Rightarrow> u64 option \<Rightarrow> u64 \<Rightarrow> BatchFeeInput option" where
  "for_protocol_version pv fair_l2 pubdata l1 =
     (if is_post_1_4_1 pv
      then map_option (\<lambda>p. PubdataIndependent \<lparr>pi_fair_l2_gas_price = fair_l2,
             pi_fair_pubdata_price = p, pi_l1_gas_price = l1\<rparr>) pubdata
      else Some (L1Pegged \<lparr>lp_fair_l2_gas_price = fair_l2, lp_l1_gas_price = l1\<rparr>))"

definition stricter_fee :: "BatchFeeInput \<Rightarrow> BatchFeeInput \<Rightarrow> BatchFeeInput" where
  "stricter_fee a b =
     (case (a, b) of
        (L1Pegged x, L1Pegged y) \<Rightarrow>
          l1_pegged (max (lp_l1_gas_price x) (lp_l1_gas_price y))
            (max (lp_fair_l2_gas_price x) (lp_fair_l2_gas_price y))
      | _ \<Rightarrow>
          (let x = into_pubdata_independent a; y = into_pubdata_independent b
           in pubdata_independent (max (pi_l1_gas_price x) (pi_l1_gas_price y))
                (max (pi_fair_l2_gas_price x) (pi_fair_l2_gas_price y))
                (max (pi_fair_pubdata_price x) (pi_fair_pubdata_price y))))"

section \<open>Prices derived by the VMs\<close>

definition ceil_div :: "u64 \<Rightarrow> u64 \<Rightarrow> u64 option" where
  "ceil_div a b = (if a = 0 then Some a else if b = 0 then None else Some ((a - 1) div b + 1))"

definition eth_price_per_pubdata_byte :: "u64 \<Rightarrow> u64" where
  "eth_price_per_pubdata_byte l1_gas = l1_gas * ucast L1_GAS_PER_PUBDATA_BYTE"

definition base_fee_to_gas_per_pubdata :: "u64 \<Rightarrow> u64 \<Rightarrow> u64 option" where
  "base_fee_to_gas_per_pubdata l1_gas base_fee = ceil_div (eth_price_per_pubdata_byte l1_gas) base_fee"

definition derive_l1_pegged :: "u64 \<Rightarrow> L1PeggedBatchFeeModelInput \<Rightarrow> (u64 \<times> u64) option" where
  "derive_l1_pegged max_gas_per_pubdata i =
     Option.bind (ceil_div (eth_price_per_pubdata_byte (lp_l1_gas_price i)) max_gas_per_pubdata) (\<lambda>c.
     let base_fee = max (lp_fair_l2_gas_price i) c
     in map_option (Pair base_fee) (base_fee_to_gas_per_pubdata (lp_l1_gas_price i) base_fee))"

definition derive_pubdata_independent ::
  "u64 \<Rightarrow> PubdataIndependentBatchFeeModelInput \<Rightarrow> (u64 \<times> u64) option" where
  "derive_pubdata_independent max_gas_per_pubdata i =
     Option.bind (ceil_div (pi_fair_pubdata_price i) max_gas_per_pubdata) (\<lambda>c.
     let base_fee = max (pi_fair_l2_gas_price i) c
     in map_option (Pair base_fee) (ceil_div (pi_fair_pubdata_price i) base_fee))"

fun uses_l1_pegged :: "VmVersion \<Rightarrow> bool" where
  "uses_l1_pegged Vm1_4_1 = False"
| "uses_l1_pegged Vm1_4_2 = False"
| "uses_l1_pegged Vm1_5_0SmallBootloaderMemory = False"
| "uses_l1_pegged Vm1_5_0IncreasedBootloaderMemory = False"
| "uses_l1_pegged _ = True"

definition derive_base_fee_and_gas_per_pubdata ::
  "BatchFeeInput \<Rightarrow> VmVersion \<Rightarrow> (u64 \<times> u64) option" where
  "derive_base_fee_and_gas_per_pubdata fi v =
     (if uses_l1_pegged v
      then Option.bind (into_l1_pegged fi) (derive_l1_pegged (get_max_gas_per_pubdata_byte v))
      else derive_pubdata_independent (get_max_gas_per_pubdata_byte v) (into_pubdata_independent fi))"

text \<open>\<open>get_batch_base_fee\<close> reads two fields of \<open>L1BatchEnv\<close>.\<close>

definition get_batch_base_fee :: "u64 option \<Rightarrow> BatchFeeInput \<Rightarrow> VmVersion \<Rightarrow> u64 option" where
  "get_batch_base_fee enforced_base_fee fi v =
     (case enforced_base_fee of
        Some base_fee \<Rightarrow> Some base_fee
      | None \<Rightarrow> map_option fst (derive_base_fee_and_gas_per_pubdata fi v))"

definition as_u64 :: "u256 \<Rightarrow> u64 option" where
  "as_u64 x = (if x \<le> 0xFFFFFFFFFFFFFFFF then Some (ucast x) else None)"

definition checked_pred :: "u256 \<Rightarrow> u256 option" where
  "checked_pred x = (if x = 0 then None else Some (x - 1))"

definition adjust_pubdata_price_for_tx ::
  "BatchFeeInput \<Rightarrow> u256 \<Rightarrow> u256 option \<Rightarrow> VmVersion \<Rightarrow> BatchFeeInput option" where
  "adjust_pubdata_price_for_tx fi tx_gas_per_pubdata_limit max_base_fee_opt v =
     (let max_base_fee = (case max_base_fee_opt of None \<Rightarrow> - 1 | Some m \<Rightarrow> m);
          desired = min tx_gas_per_pubdata_limit (ucast (get_max_gas_per_pubdata_byte v))
      in Option.bind (derive_base_fee_and_gas_per_pubdata fi v) (\<lambda>(base_fee, gas_per_pubdata).
         if ucast gas_per_pubdata \<le> desired \<and> ucast base_fee \<le> max_base_fee then Some fi
         else
           let current = ucast (fair_l2_gas_price fi);
               fair = (if max_base_fee < current then max_base_fee else current)
           in Option.bind (checked_pred desired) (\<lambda>d.
              case fi of
                L1Pegged i \<Rightarrow>
                  Option.bind (as_u64 (fair * d div 17)) (\<lambda>l1.
                  Option.bind (as_u64 fair) (\<lambda>f.
                  Some (L1Pegged \<lparr>lp_fair_l2_gas_price = f, lp_l1_gas_price = l1\<rparr>)))
              | PubdataIndependent i \<Rightarrow>
                  Option.bind (as_u64 (fair * d)) (\<lambda>p.
                  Option.bind (as_u64 fair) (\<lambda>f.
                  Some (PubdataIndependent (i\<lparr>pi_fair_l2_gas_price := f, pi_fair_pubdata_price := p\<rparr>)))))))"

section \<open>Lemmas\<close>

lemma max_gas_per_pubdata_pos: "get_max_gas_per_pubdata_byte v > 0"
  by (cases v) (simp_all add: MAX_L2_TX_GAS_LIMIT_def word_less_nat_alt unat_div)

text \<open>Both formulas are the same function of the pubdata price and the L2 gas price.\<close>

definition prices :: "u64 \<Rightarrow> u64 \<Rightarrow> u64 \<Rightarrow> (u64 \<times> u64) option" where
  "prices max_gas_per_pubdata pubdata fair =
     Option.bind (ceil_div pubdata max_gas_per_pubdata) (\<lambda>c.
     map_option (Pair (max fair c)) (ceil_div pubdata (max fair c)))"

lemma derive_eq_prices:
  "derive_base_fee_and_gas_per_pubdata fi v =
     (if uses_l1_pegged v \<and> into_l1_pegged fi = None then None
      else prices (get_max_gas_per_pubdata_byte v) (fair_pubdata_price fi) (fair_l2_gas_price fi))"
  by (cases fi)
     (auto simp: derive_base_fee_and_gas_per_pubdata_def derive_l1_pegged_def prices_def Let_def
       derive_pubdata_independent_def base_fee_to_gas_per_pubdata_def eth_price_per_pubdata_byte_def)

lemma ceil_div_SomeI: "a = 0 \<or> b \<noteq> 0 \<Longrightarrow> \<exists>c. ceil_div a b = Some c"
  by (auto simp: ceil_div_def)

lemma unat_ceil_div:
  assumes "ceil_div a b = Some c" "unat a \<le> n * unat b"
  shows "unat c \<le> n"
proof (cases "a = 0")
  case False
  then have b: "unat b > 0" and c: "c = (a - 1) div b + 1"
    using assms(1) by (auto simp: ceil_div_def unat_gt_0 split: if_splits)
  have "unat (a - 1) = unat a - 1" using False by (simp add: unat_minus_one)
  moreover have "unat a > 0" using False by (simp add: unat_gt_0)
  ultimately have "unat (a - 1) < n * unat b" using assms(2) by linarith
  then have "unat ((a - 1) div b) < n" using b by (simp add: unat_div less_mult_imp_div_less)
  moreover have "unat ((a - 1) div b + 1) \<le> unat ((a - 1) div b) + 1" by (simp add: unat_word_ariths)
  ultimately show ?thesis unfolding c by linarith
qed (use assms in \<open>simp add: ceil_div_def\<close>)

lemma prices_bounds:
  assumes "unat pubdata \<le> unat fair * d" "d < unat max_gas"
  shows "\<exists>g. prices max_gas pubdata fair = Some (fair, g) \<and> unat g \<le> d"
proof -
  have pos: "max_gas \<noteq> 0" using assms(2) by (simp flip: unat_gt_0)
  then obtain c where c: "ceil_div pubdata max_gas = Some c"
    using ceil_div_SomeI [of pubdata max_gas] by blast
  have "unat pubdata \<le> unat fair * unat max_gas"
    using assms by (meson le_trans less_imp_le mult_le_mono2)
  then have "c \<le> fair" using unat_ceil_div [OF c] by (simp add: word_le_nat_alt)
  then have m: "max fair c = fair" by simp
  have "pubdata = 0 \<or> fair \<noteq> 0" using assms(1) by (auto simp: unat_eq_0)
  then obtain g where g: "ceil_div pubdata fair = Some g"
    using ceil_div_SomeI [of pubdata fair] by blast
  have "unat g \<le> d" using unat_ceil_div [OF g] assms(1) by (simp add: mult.commute)
  then show ?thesis by (simp add: prices_def c m g)
qed


lemma as_u64_SomeD: "as_u64 x = Some y \<Longrightarrow> unat y = unat x"
  by (auto simp: as_u64_def word_le_nat_alt unsigned_ucast_eq unsigned_take_bit_eq take_bit_nat_def
      split: if_splits)

lemma checked_pred_SomeD: "checked_pred x = Some d \<Longrightarrow> unat d < unat x"
  by (auto simp: checked_pred_def unat_minus_one unat_gt_0 split: if_splits)

lemma unat_ucast_u64 [simp]: "unat (ucast (x :: u64) :: u256) = unat x"
proof -
  have "unat x < 2 ^ 64" using unsigned_less [of x, where 'a = nat] by simp
  then show ?thesis by (simp add: unsigned_ucast_eq take_bit_nat_def)
qed

lemma unat_min: "unat (min a b) = min (unat a) (unat b)"
  by (simp add: min_def word_le_nat_alt)

lemma unat_times_le: "unat (a * b) \<le> unat a * unat (b :: 'l::len word)"
  by (simp add: unat_word_ariths)

lemma pegged_price_le:
  assumes "unat l1 = unat (fair * d div 17 :: u256)"
  shows "unat (l1 * ucast L1_GAS_PER_PUBDATA_BYTE :: u64) \<le> unat fair * unat d"
proof -
  have "unat (l1 * ucast L1_GAS_PER_PUBDATA_BYTE) \<le> unat (fair * d div 17) * 17"
    using unat_times_le [of l1 "ucast L1_GAS_PER_PUBDATA_BYTE"]
    by (simp add: assms L1_GAS_PER_PUBDATA_BYTE_def)
  also have "\<dots> \<le> unat (fair * d)" by (simp add: unat_div)
  also have "\<dots> \<le> unat fair * unat d" by (rule unat_times_le)
  finally show ?thesis .
qed

definition within_limits :: "BatchFeeInput \<Rightarrow> u256 \<Rightarrow> u256 option \<Rightarrow> VmVersion \<Rightarrow> bool" where
  "within_limits fi limit mbf v \<longleftrightarrow>
     (case derive_base_fee_and_gas_per_pubdata fi v of
        None \<Rightarrow> False
      | Some (base_fee, gas_per_pubdata) \<Rightarrow>
          ucast gas_per_pubdata \<le> min limit (ucast (get_max_gas_per_pubdata_byte v)) \<and>
          ucast base_fee \<le> (case mbf of None \<Rightarrow> - 1 | Some m \<Rightarrow> m))"

text \<open>
  An adjusted input keeps the fee model; its L2 gas price \<open>f\<close> is within the maximum and its pubdata
  price at most \<open>f * d\<close>, with \<open>d\<close> below the desired gas per pubdata.
\<close>

lemma adjusted_inputE:
  assumes "adjust_pubdata_price_for_tx fi limit mbf v = Some fi'" "\<not> within_limits fi limit mbf v"
  obtains d where "(into_l1_pegged fi' = None) = (into_l1_pegged fi = None)"
    "derive_base_fee_and_gas_per_pubdata fi v \<noteq> None"
    "unat d < unat (min limit (ucast (get_max_gas_per_pubdata_byte v)))"
    "unat (fair_pubdata_price fi') \<le> unat (fair_l2_gas_price fi') * unat (d :: u256)"
    "unat (fair_l2_gas_price fi') \<le> unat (case mbf of None \<Rightarrow> - 1 | Some m \<Rightarrow> m)"
proof -
  define mb :: u256 where "mb = (case mbf of None \<Rightarrow> - 1 | Some m \<Rightarrow> m)"
  define desired where "desired = min limit (ucast (get_max_gas_per_pubdata_byte v))"
  define fair :: u256 where
    "fair = (if mb < ucast (fair_l2_gas_price fi) then mb else ucast (fair_l2_gas_price fi))"
  have fair: "unat fair \<le> unat mb" by (simp add: fair_def word_less_nat_alt)
  obtain d where nn: "derive_base_fee_and_gas_per_pubdata fi v \<noteq> None"
    and d: "checked_pred desired = Some d"
    and r: "(case fi of
                L1Pegged i \<Rightarrow>
                  Option.bind (as_u64 (fair * d div 17)) (\<lambda>l1.
                  Option.bind (as_u64 fair) (\<lambda>f.
                  Some (L1Pegged \<lparr>lp_fair_l2_gas_price = f, lp_l1_gas_price = l1\<rparr>)))
              | PubdataIndependent i \<Rightarrow>
                  Option.bind (as_u64 (fair * d)) (\<lambda>p.
                  Option.bind (as_u64 fair) (\<lambda>f.
                  Some (PubdataIndependent (i\<lparr>pi_fair_l2_gas_price := f, pi_fair_pubdata_price := p\<rparr>))))) = Some fi'"
    using assms unfolding adjust_pubdata_price_for_tx_def within_limits_def Let_def mb_def [symmetric]
      desired_def [symmetric] fair_def [symmetric]
    by (auto split: Option.bind_splits if_splits prod.splits)
  have lt: "unat d < unat desired" using checked_pred_SomeD [OF d] .
  show thesis
  proof (cases fi)
    case (L1Pegged i)
    then obtain l1 f where l1: "as_u64 (fair * d div 17) = Some l1" and f: "as_u64 fair = Some f"
      and fi': "fi' = L1Pegged \<lparr>lp_fair_l2_gas_price = f, lp_l1_gas_price = l1\<rparr>"
      using r by (auto split: Option.bind_splits)
    show thesis
      by (rule that [of d])
         (use L1Pegged nn lt fair pegged_price_le [OF as_u64_SomeD [OF l1]] as_u64_SomeD [OF f] in
           \<open>simp_all add: fi' desired_def mb_def\<close>)
  next
    case (PubdataIndependent i)
    then obtain p f where p: "as_u64 (fair * d) = Some p" and f: "as_u64 fair = Some f"
      and fi': "fi' = PubdataIndependent (i\<lparr>pi_fair_l2_gas_price := f, pi_fair_pubdata_price := p\<rparr>)"
      using r by (auto split: Option.bind_splits)
    show thesis
      by (rule that [of d])
         (use PubdataIndependent nn lt fair unat_times_le [of fair d] as_u64_SomeD [OF p]
           as_u64_SomeD [OF f] in \<open>simp_all add: fi' desired_def mb_def\<close>)
  qed
qed

text \<open>
  C35. When \<open>adjust_pubdata_price_for_tx\<close> returns (it panics only where the prices do not fit), the VM
  derives from its result a gas per pubdata within the limit of the transaction and of the VM, and a
  base fee within the given maximum.
\<close>

theorem adjust_pubdata_price_bounds:
  assumes "adjust_pubdata_price_for_tx fi limit mbf v = Some fi'"
  shows "\<exists>base_fee gas_per_pubdata.
    derive_base_fee_and_gas_per_pubdata fi' v = Some (base_fee, gas_per_pubdata) \<and>
    ucast gas_per_pubdata \<le> limit \<and> gas_per_pubdata \<le> get_max_gas_per_pubdata_byte v \<and>
    ucast base_fee \<le> (case mbf of None \<Rightarrow> - 1 | Some m \<Rightarrow> m)"
proof (cases "within_limits fi limit mbf v")
  case True
  then have "fi' = fi"
    using assms by (auto simp: within_limits_def adjust_pubdata_price_for_tx_def split: option.splits)
  then show ?thesis
    using True by (auto simp: within_limits_def word_le_nat_alt unat_min split: option.splits)
next
  case False
  obtain d :: u256 where pegged: "(into_l1_pegged fi' = None) = (into_l1_pegged fi = None)"
    and nn: "derive_base_fee_and_gas_per_pubdata fi v \<noteq> None"
    and d: "unat d < unat (min limit (ucast (get_max_gas_per_pubdata_byte v)))"
    and price: "unat (fair_pubdata_price fi') \<le> unat (fair_l2_gas_price fi') * unat d"
    and base: "unat (fair_l2_gas_price fi') \<le> unat (case mbf of None \<Rightarrow> - 1 | Some m \<Rightarrow> m)"
    using assms False by (rule adjusted_inputE)
  have lt: "unat d < unat limit" "unat d < unat (get_max_gas_per_pubdata_byte v)"
    using d by (simp_all add: unat_min)
  obtain g where g: "prices (get_max_gas_per_pubdata_byte v) (fair_pubdata_price fi')
      (fair_l2_gas_price fi') = Some (fair_l2_gas_price fi', g)" "unat g \<le> unat d"
    using prices_bounds [OF price lt(2)] by blast
  have "derive_base_fee_and_gas_per_pubdata fi' v = Some (fair_l2_gas_price fi', g)"
    using g(1) pegged nn by (auto simp: derive_eq_prices split: if_splits)
  moreover have "ucast g \<le> limit" "g \<le> get_max_gas_per_pubdata_byte v"
    using g(2) lt by (simp_all add: word_le_nat_alt)
  moreover have "ucast (fair_l2_gas_price fi') \<le> (case mbf of None \<Rightarrow> - 1 | Some m \<Rightarrow> m)"
    using base by (simp add: word_le_nat_alt)
  ultimately show ?thesis by blast
qed

theorem adjust_pubdata_price_bounds_witness:
  "\<exists>fi'. adjust_pubdata_price_for_tx (pubdata_independent 0 100 1000000) 1000 (Some 40)
      Vm1_5_0IncreasedBootloaderMemory = Some fi' \<and>
    (\<exists>base_fee gas_per_pubdata.
       derive_base_fee_and_gas_per_pubdata fi' Vm1_5_0IncreasedBootloaderMemory = Some (base_fee, gas_per_pubdata) \<and>
       ucast gas_per_pubdata \<le> (1000 :: u256) \<and> ucast base_fee \<le> (40 :: u256))"
proof -
  have a: "adjust_pubdata_price_for_tx (pubdata_independent 0 100 1000000) 1000 (Some 40)
      Vm1_5_0IncreasedBootloaderMemory = Some (pubdata_independent 0 40 39960)"
    by code_simp
  show ?thesis using adjust_pubdata_price_bounds [OF a] a by auto
qed

end
