(* ===== verification/Transactions.thy ===== *)
theory Transactions
  imports Bytes Mempool ProtocolVersions
begin

text \<open>
  Transactions and their encoding for the bootloader: the methods of \<^verbatim>\<open>Transaction\<close> in
  \<^verbatim>\<open>core/lib/types/src/lib.rs\<close>, \<^verbatim>\<open>encoding_len\<close> in \<^verbatim>\<open>core/lib/types/src/fee.rs\<close>, and
  \<^verbatim>\<open>TransactionData\<close> in \<^verbatim>\<open>core/lib/multivm/src/versions/vm_latest/types/internals/transaction_data.rs\<close>.
  The payload of the transactions of the mempool is \<open>TxData\<close>. Its fields are those of \<open>Execute\<close>
  and of the common data of the three kinds of transactions; the last ones are only read for the
  kinds that have them. The hash is the one the transaction carries.

  Crates outside of the repository are fields of \<open>Externals\<close>: \<open>ethabi::encode\<close>, Keccak, the hash of
  a bytecode over SHA-256, the protobuf encoding, the signatures of two events, and \<open>ethabi::decode\<close> for one byte
  string, which may fail.
\<close>

section \<open>Transactions\<close>

datatype TransactionType =
  LegacyTransaction | EIP2930Transaction | EIP1559Transaction | EIP712Transaction |
  PriorityOpTransaction | ProtocolUpgradeTransaction

fun tx_type_u8 :: "TransactionType \<Rightarrow> u8" where
  "tx_type_u8 LegacyTransaction = 0"
| "tx_type_u8 EIP2930Transaction = 1"
| "tx_type_u8 EIP1559Transaction = 2"
| "tx_type_u8 EIP712Transaction = 0x71"
| "tx_type_u8 PriorityOpTransaction = 0xff"
| "tx_type_u8 ProtocolUpgradeTransaction = 0xfe"

definition is_ethereum_type :: "TransactionType \<Rightarrow> bool" where
  "is_ethereum_type t \<longleftrightarrow> t \<in> {LegacyTransaction, EIP2930Transaction, EIP1559Transaction}"

record TxData =
  td_hash :: u256
  td_contract_address :: address
  td_value :: u256
  td_calldata :: bytes
  td_factory_deps :: "bytes list"
  td_transaction_type :: TransactionType
  td_signature :: bytes
  td_paymaster :: address
  td_paymaster_input :: bytes
  td_chain_id :: "u64 option"
  td_sender :: address
  td_gas_limit :: u256
  td_gas_per_pubdata_limit :: u256
  td_max_fee_per_gas :: u256
  td_to_mint :: u256
  td_refund_recipient :: address
  td_layer_2_tip_fee :: u256
  td_upgrade_id :: ProtocolVersionId

type_synonym tx = "TxData Transaction"

fun tx_data :: "tx \<Rightarrow> TxData" where
  "tx_data (TxL1 t) = l1_payload t"
| "tx_data (TxL2 t) = l2_payload t"
| "tx_data (TxProtocolUpgrade d) = d"

definition tx_hash :: "tx \<Rightarrow> u256" where
  "tx_hash tx = td_hash (tx_data tx)"

fun is_l1 :: "tx \<Rightarrow> bool" where
  "is_l1 (TxL1 _) = True"
| "is_l1 _ = False"

fun tx_format :: "tx \<Rightarrow> TransactionType" where
  "tx_format (TxL1 _) = PriorityOpTransaction"
| "tx_format (TxL2 t) = td_transaction_type (l2_payload t)"
| "tx_format (TxProtocolUpgrade _) = ProtocolUpgradeTransaction"

fun tx_gas_limit :: "tx \<Rightarrow> u256" where
  "tx_gas_limit (TxL2 t) = gas_limit (tx_fee t)"
| "tx_gas_limit tx = td_gas_limit (tx_data tx)"

section \<open>The number of slots of an encoded transaction\<close>

text \<open>\<open>ceil_div(a, 32)\<close>, whose divisor is not zero.\<close>

definition ceil_div32 :: "u64 \<Rightarrow> u64" where
  "ceil_div32 a = (if a = 0 then a else (a - 1) div 32 + 1)"

definition fee_encoding_len :: "u64 \<Rightarrow> u64 \<Rightarrow> u64 \<Rightarrow> u64 \<Rightarrow> u64 \<Rightarrow> nat" where
  "fee_encoding_len data_len signature_len factory_deps_len paymaster_input_len reserved_dynamic_len =
     (1 + 19 + 5) +
     unat (ceil_div32 data_len + ceil_div32 signature_len + ceil_div32 paymaster_input_len +
           ceil_div32 reserved_dynamic_len + factory_deps_len)"

definition encoding_len :: "tx \<Rightarrow> nat" where
  "encoding_len tx =
     (let d = tx_data tx;
          (signature_len, paymaster_input_len) =
            (case tx of TxL2 _ \<Rightarrow> (length (td_signature d), length (td_paymaster_input d)) | _ \<Rightarrow> (0, 0))
      in fee_encoding_len (of_nat (length (td_calldata d))) (of_nat signature_len)
           (of_nat (length (td_factory_deps d))) (of_nat paymaster_input_len) 0)"

section \<open>The encoding for the bootloader\<close>

datatype Token =
  TokAddress address | TokUint u256 | TokBytes bytes | TokFixedArray "Token list" |
  TokArray "Token list" | TokTuple "Token list"

record VmEvent =
  event_address :: address
  indexed_topics :: "u256 list"
  event_value :: bytes

record Externals =
  abi_encode_tokens :: "Token list \<Rightarrow> bytes"
  keccak256 :: "bytes \<Rightarrow> u256"
  bytecode_to_code_hash :: "bytes list \<Rightarrow> u256 option"
  payload_size :: "tx \<Rightarrow> nat"
  PUBLISHED_BYTECODE_SIGNATURE :: u256
  L1_MESSAGE_EVENT_SIGNATURE :: u256
  abi_decode_bytes :: "bytes \<Rightarrow> bytes option"

fun chunks32 :: "bytes \<Rightarrow> bytes list" where
  "chunks32 bs = (if bs = [] then [] else take 32 bs # chunks32 (drop 32 bs))"

declare chunks32.simps [simp del]

definition bytes_to_chunks :: "bytes \<Rightarrow> bytes list option" where
  "bytes_to_chunks bs = (if length bs mod 32 = 0 then Some (chunks32 bs) else None)"

definition bytes_to_be_words :: "bytes \<Rightarrow> u256 list option" where
  "bytes_to_be_words bs = (if length bs mod 32 = 0 then Some (map word_of_be (chunks32 bs)) else None)"

definition hash_bytecode :: "Externals \<Rightarrow> bytes \<Rightarrow> u256 option" where
  "hash_bytecode ext code = Option.bind (bytes_to_chunks code) (bytecode_to_code_hash ext)"

record TransactionData =
  d_tx_type :: u8
  d_from :: address
  d_to :: address
  d_gas_limit :: u256
  d_pubdata_price_limit :: u256
  d_max_fee_per_gas :: u256
  d_max_priority_fee_per_gas :: u256
  d_paymaster :: address
  d_nonce :: u256
  d_value :: u256
  d_reserved :: "u256 list"
  d_data :: bytes
  d_signature :: bytes
  d_factory_deps :: "bytes list"
  d_paymaster_input :: bytes
  d_reserved_dynamic :: bytes

definition MAX_GAS_PER_PUBDATA_BYTE :: u64 where "MAX_GAS_PER_PUBDATA_BYTE = 50000"

text \<open>The two kinds of transactions from L1 only differ in their type and nonce.\<close>

definition priority_transaction_data :: "TransactionType \<Rightarrow> u256 \<Rightarrow> TxData \<Rightarrow> TransactionData" where
  "priority_transaction_data ty nonce d =
     \<lparr>d_tx_type = tx_type_u8 ty, d_from = td_sender d, d_to = td_contract_address d,
      d_gas_limit = td_gas_limit d, d_pubdata_price_limit = td_gas_per_pubdata_limit d,
      d_max_fee_per_gas = td_max_fee_per_gas d, d_max_priority_fee_per_gas = 0, d_paymaster = 0,
      d_nonce = nonce, d_value = td_value d,
      d_reserved = [td_to_mint d, ucast (td_refund_recipient d), 0, 0],
      d_data = td_calldata d, d_signature = [], d_factory_deps = td_factory_deps d,
      d_paymaster_input = [], d_reserved_dynamic = []\<rparr>"

fun transaction_data_from :: "tx \<Rightarrow> TransactionData" where
  "transaction_data_from (TxL2 t) =
     (let d = l2_payload t; ty = td_transaction_type d in
      \<lparr>d_tx_type = tx_type_u8 ty, d_from = initiator_account t, d_to = td_contract_address d,
       d_gas_limit = gas_limit (tx_fee t),
       d_pubdata_price_limit =
         (if is_ethereum_type ty then ucast MAX_GAS_PER_PUBDATA_BYTE else gas_per_pubdata_limit (tx_fee t)),
       d_max_fee_per_gas = max_fee_per_gas (tx_fee t),
       d_max_priority_fee_per_gas = max_priority_fee_per_gas (tx_fee t),
       d_paymaster = td_paymaster d, d_nonce = ucast (tx_nonce t), d_value = td_value d,
       d_reserved = [if ty = LegacyTransaction \<and> td_chain_id d \<noteq> None then 1 else 0, 0, 0, 0],
       d_data = td_calldata d, d_signature = td_signature d, d_factory_deps = td_factory_deps d,
       d_paymaster_input = td_paymaster_input d, d_reserved_dynamic = []\<rparr>)"
| "transaction_data_from (TxL1 t) =
     priority_transaction_data PriorityOpTransaction (ucast (serial_id t)) (l1_payload t)"
| "transaction_data_from (TxProtocolUpgrade d) =
     priority_transaction_data ProtocolUpgradeTransaction (ucast (version_u16 (td_upgrade_id d))) d"

definition abi_encode_with_custom_factory_deps :: "Externals \<Rightarrow> u256 list \<Rightarrow> TransactionData \<Rightarrow> bytes" where
  "abi_encode_with_custom_factory_deps ext factory_deps_hashes d =
     abi_encode_tokens ext [TokTuple
       [TokUint (ucast (d_tx_type d)), TokAddress (d_from d), TokAddress (d_to d),
        TokUint (d_gas_limit d), TokUint (d_pubdata_price_limit d), TokUint (d_max_fee_per_gas d),
        TokUint (d_max_priority_fee_per_gas d), TokAddress (d_paymaster d), TokUint (d_nonce d),
        TokUint (d_value d), TokFixedArray (map TokUint (d_reserved d)), TokBytes (d_data d),
        TokBytes (d_signature d), TokArray (map TokUint factory_deps_hashes),
        TokBytes (d_paymaster_input d), TokBytes (d_reserved_dynamic d)]]"

definition abi_encode :: "Externals \<Rightarrow> TransactionData \<Rightarrow> bytes option" where
  "abi_encode ext d =
     map_option (\<lambda>hashes. abi_encode_with_custom_factory_deps ext hashes d)
       (those (map (hash_bytecode ext) (d_factory_deps d)))"

definition into_tokens :: "Externals \<Rightarrow> TransactionData \<Rightarrow> u256 list option" where
  "into_tokens ext d =
     Option.bind (abi_encode ext d) (\<lambda>bs. if length bs mod 32 = 0 then bytes_to_be_words bs else None)"

definition bootloader_encoding_size :: "Externals \<Rightarrow> tx \<Rightarrow> nat option" where
  "bootloader_encoding_size ext tx = map_option length (into_tokens ext (transaction_data_from tx))"

section \<open>The ABI\<close>

text \<open>
  What the contract ABI says about the number of 32-byte words of an encoding: a static value is
  written in place, a dynamic one is an offset in place and a tail. \<open>abi_words\<close> is the number of words
  of the encoding of a sequence, and \<open>abi_reference\<close> an encoder that follows the specification.
\<close>

fun is_dynamic :: "Token \<Rightarrow> bool" where
  "is_dynamic (TokAddress _) = False"
| "is_dynamic (TokUint _) = False"
| "is_dynamic (TokBytes _) = True"
| "is_dynamic (TokArray _) = True"
| "is_dynamic (TokFixedArray ts) = list_ex is_dynamic ts"
| "is_dynamic (TokTuple ts) = list_ex is_dynamic ts"

fun token_words :: "Token \<Rightarrow> nat" and abi_words :: "Token list \<Rightarrow> nat" where
  "token_words (TokAddress _) = 1"
| "token_words (TokUint _) = 1"
| "token_words (TokBytes bs) = 1 + (length bs + 31) div 32"
| "token_words (TokArray ts) = 1 + abi_words ts"
| "token_words (TokFixedArray ts) = abi_words ts"
| "token_words (TokTuple ts) = abi_words ts"
| "abi_words [] = 0"
| "abi_words (t # ts) = (if is_dynamic t then 1 + token_words t else token_words t) + abi_words ts"

definition abi_lengths :: "(Token list \<Rightarrow> bytes) \<Rightarrow> bool" where
  "abi_lengths enc \<longleftrightarrow> (\<forall>ts. length (enc ts) = 32 * abi_words ts)"

definition head_size :: "Token list \<Rightarrow> nat" where
  "head_size ts = 32 * sum_list (map (\<lambda>t. if is_dynamic t then 1 else token_words t) ts)"

fun encode_token :: "Token \<Rightarrow> bytes" and encode_seq :: "nat \<Rightarrow> Token list \<Rightarrow> bytes \<times> bytes" where
  "encode_token (TokAddress a) = word_be 32 a"
| "encode_token (TokUint w) = word_be 32 w"
| "encode_token (TokBytes bs) =
     be_bytes 32 (length bs) @ bs @ replicate ((length bs + 31) div 32 * 32 - length bs) 0"
| "encode_token (TokArray ts) =
     be_bytes 32 (length ts) @ (case encode_seq (head_size ts) ts of (h, t) \<Rightarrow> h @ t)"
| "encode_token (TokFixedArray ts) = (case encode_seq (head_size ts) ts of (h, t) \<Rightarrow> h @ t)"
| "encode_token (TokTuple ts) = (case encode_seq (head_size ts) ts of (h, t) \<Rightarrow> h @ t)"
| "encode_seq off [] = ([], [])"
| "encode_seq off (t # ts) =
     (let e = encode_token t in
      if is_dynamic t
      then (case encode_seq (off + length e) ts of (h, tails) \<Rightarrow> (be_bytes 32 off @ h, e @ tails))
      else (case encode_seq off ts of (h, tails) \<Rightarrow> (e @ h, tails)))"

definition abi_reference :: "Token list \<Rightarrow> bytes" where
  "abi_reference ts = (case encode_seq (head_size ts) ts of (h, t) \<Rightarrow> h @ t)"

section \<open>Lengths\<close>

lemma length_chunks32: "length (chunks32 bs) = (length bs + 31) div 32"
proof (induction bs rule: chunks32.induct)
  case (1 bs)
  show ?case
  proof (cases "bs = []")
    case False
    then have "(length bs + 31) div 32 = Suc ((length bs - 32 + 31) div 32)"
      by (cases "length bs \<le> 32") (auto simp: Suc_le_eq div_add_self1 le_div_geq neq_Nil_conv)
    then show ?thesis using False 1 by (subst chunks32.simps) simp
  qed (simp add: chunks32.simps)
qed

lemma length_bytes_to_be_words: "length bs = 32 * n \<Longrightarrow> map_option length (bytes_to_be_words bs) = Some n"
  by (simp add: bytes_to_be_words_def length_chunks32)

lemma encode_lengths:
  "length (encode_token t) = 32 * token_words t"
  "case encode_seq off ts of (h, tails) \<Rightarrow> length h + length tails = 32 * abi_words ts"
  by (induction t and off ts rule: encode_token_encode_seq.induct)
     (auto simp: Let_def split: prod.splits)

lemma abi_reference_lengths: "abi_lengths abi_reference"
proof -
  have "length (abi_reference ts) = 32 * abi_words ts" for ts
    using encode_lengths(2) [where off = "head_size ts" and ts = ts]
    by (auto simp: abi_reference_def split: prod.splits)
  then show ?thesis by (simp add: abi_lengths_def)
qed

lemma unat_ceil_div32:
  assumes "n < 2 ^ 64"
  shows "unat (ceil_div32 (of_nat n)) = (n + 31) div 32"
proof (cases "n = 0")
  case False
  have u: "unat (of_nat n :: u64) = n" using assms by (simp add: unat_of_nat take_bit_nat_eq_self)
  then have ne: "(of_nat n :: u64) \<noteq> 0" using False by auto
  have m: "unat ((of_nat n :: u64) - 1) = n - 1" using ne u by (simp add: unat_minus_one)
  have d: "unat (((of_nat n :: u64) - 1) div 32) = (n - 1) div 32" by (simp add: unat_div_distrib m)
  have "unat (((of_nat n :: u64) - 1) div 32 + 1) = (n - 1) div 32 + 1"
    using assms d by (simp add: unat_word_ariths)
  then show ?thesis using ne False by (simp add: ceil_div32_def)
qed (simp add: ceil_div32_def)

lemma abi_words_uints [simp]: "abi_words (map TokUint ws) = length ws"
  by (induction ws) auto

lemma list_ex_uints [simp]: "\<not> list_ex is_dynamic (map TokUint ws)"
  by (auto simp: list_ex_iff)

lemma length_reserved: "length (d_reserved (transaction_data_from tx)) = 4"
  by (cases tx) (simp_all add: priority_transaction_data_def Let_def)

text \<open>The sizes of what a transaction carries: nothing that fits in memory exceeds the bound.\<close>

definition tx_bytes :: "tx \<Rightarrow> nat" where
  "tx_bytes tx = (let d = tx_data tx in
     length (td_calldata d) + length (td_factory_deps d) + length (td_signature d) +
     length (td_paymaster_input d))"

lemma ceil_sum_bound:
  fixes a b c d :: nat
  assumes "a + b + c + d < 2 ^ 64"
  shows "(a + 31) div 32 + (b + 31) div 32 + (c + 31) div 32 + d < 2 ^ 64"
proof -
  have "(x + 31) div 32 \<le> x" for x :: nat by linarith
  from this [of a] this [of b] this [of c] show ?thesis using assms by linarith
qed

lemma fee_encoding_len_nat:
  assumes "a + b + c + d < 2 ^ 64"
  shows "fee_encoding_len (of_nat a) (of_nat b) (of_nat d) (of_nat c) 0 =
    25 + (a + 31) div 32 + (b + 31) div 32 + (c + 31) div 32 + d"
proof -
  have s: "(a + 31) div 32 + (b + 31) div 32 + (c + 31) div 32 + d < 2 ^ 64"
    by (rule ceil_sum_bound [OF assms])
  have "a < 2 ^ 64" "b < 2 ^ 64" "c < 2 ^ 64" "d < 2 ^ 64" using assms by linarith+
  then have u: "unat (ceil_div32 (of_nat a)) = (a + 31) div 32" "unat (ceil_div32 (of_nat b)) = (b + 31) div 32"
    "unat (ceil_div32 (of_nat c)) = (c + 31) div 32" "unat (of_nat d :: u64) = d"
    by (simp_all add: unat_ceil_div32 unat_of_nat take_bit_nat_eq_self)
  have z: "ceil_div32 0 = 0" by (simp add: ceil_div32_def)
  have "unat (ceil_div32 (of_nat a) + ceil_div32 (of_nat b) + ceil_div32 (of_nat c) + ceil_div32 0 + (of_nat d :: u64))
    = (a + 31) div 32 + (b + 31) div 32 + (c + 31) div 32 + d"
    unfolding z using s u by (simp add: unat_word_ariths)
  then show ?thesis by (simp add: fee_encoding_len_def)
qed

lemma abi_encode_words:
  assumes "abi_lengths (abi_encode_tokens ext)" "length (d_reserved d) = 4"
  shows "length (abi_encode_with_custom_factory_deps ext hashes d) =
    32 * (25 + (length (d_data d) + 31) div 32 + (length (d_signature d) + 31) div 32 +
      (length (d_paymaster_input d) + 31) div 32 + (length (d_reserved_dynamic d) + 31) div 32 + length hashes)"
  using assms by (simp add: abi_encode_with_custom_factory_deps_def abi_lengths_def)

lemma encoding_len_nat:
  assumes "tx_bytes tx < 2 ^ 64"
  shows "encoding_len tx = (let d = transaction_data_from tx in
    25 + (length (d_data d) + 31) div 32 + (length (d_signature d) + 31) div 32 +
      (length (d_paymaster_input d) + 31) div 32 + length (d_factory_deps d))"
  using assms
    fee_encoding_len_nat [of "length (td_calldata (tx_data tx))" "length (td_signature (tx_data tx))"
      "length (td_paymaster_input (tx_data tx))" "length (td_factory_deps (tx_data tx))"]
    fee_encoding_len_nat [of "length (td_calldata (tx_data tx))" 0 0 "length (td_factory_deps (tx_data tx))"]
  by (cases tx) (simp_all add: encoding_len_def tx_bytes_def Let_def priority_transaction_data_def)

lemma reserved_dynamic_empty [simp]: "d_reserved_dynamic (transaction_data_from tx) = []"
  by (cases tx) (simp_all add: priority_transaction_data_def Let_def)

lemma factory_deps_from [simp]: "d_factory_deps (transaction_data_from tx) = td_factory_deps (tx_data tx)"
  by (cases tx) (simp_all add: priority_transaction_data_def Let_def)

lemma bootloader_encoding_size_eq:
  assumes "abi_lengths (abi_encode_tokens ext)" "tx_bytes tx < 2 ^ 64"
  shows "bootloader_encoding_size ext tx =
    (if list_all (\<lambda>dep. hash_bytecode ext dep \<noteq> None) (td_factory_deps (tx_data tx))
     then Some (encoding_len tx) else None)"
proof (cases "those (map (hash_bytecode ext) (td_factory_deps (tx_data tx)))")
  case None
  then have "\<not> list_all (\<lambda>dep. hash_bytecode ext dep \<noteq> None) (td_factory_deps (tx_data tx))"
    using those_map_eq_Some [of "hash_bytecode ext" "td_factory_deps (tx_data tx)"]
    by (auto simp: list_all_iff)
  with None show ?thesis by (simp add: bootloader_encoding_size_def into_tokens_def abi_encode_def)
next
  case (Some hashes)
  then have all: "list_all (\<lambda>dep. hash_bytecode ext dep \<noteq> None) (td_factory_deps (tx_data tx))"
    and n: "length hashes = length (td_factory_deps (tx_data tx))"
    by (auto simp: those_map_eq_Some list_all_iff)
  let ?bs = "abi_encode_with_custom_factory_deps ext hashes (transaction_data_from tx)"
  have len: "length ?bs = 32 * encoding_len tx"
    using abi_encode_words [OF assms(1) length_reserved, of hashes tx] encoding_len_nat [OF assms(2)] n
    by (simp add: Let_def)
  then have "map_option length (into_tokens ext (transaction_data_from tx)) = map_option length (bytes_to_be_words ?bs)"
    using Some by (simp add: into_tokens_def abi_encode_def)
  then show ?thesis using length_bytes_to_be_words [OF len] all by (simp add: bootloader_encoding_size_def)
qed

section \<open>Properties\<close>

text \<open>
  C38. The estimate of the state keeper is exact: if the encoder has the lengths of the ABI, the encoding of
  a transaction for the bootloader takes \<open>encoding_len\<close> words, for the three kinds of transactions and
  every size of calldata, signature, paymaster input and factory dependencies that fits in memory. The
  encoding only panics when a factory dependency is not a valid bytecode.
\<close>

theorem encoding_len_exact:
  assumes "abi_lengths (abi_encode_tokens ext)" "tx_bytes tx < 2 ^ 64"
  shows "bootloader_encoding_size ext tx =
    (if list_all (\<lambda>dep. hash_bytecode ext dep \<noteq> None) (td_factory_deps (tx_data tx))
     then Some (encoding_len tx) else None)"
  using assms by (rule bootloader_encoding_size_eq)

definition demo_tx_data :: TxData where
  "demo_tx_data = \<lparr>td_hash = 7, td_contract_address = 0x8006, td_value = 0, td_calldata = replicate 65 1,
     td_factory_deps = [replicate 32 0, replicate 96 1], td_transaction_type = EIP712Transaction,
     td_signature = replicate 75 2, td_paymaster = 0, td_paymaster_input = replicate 85 3,
     td_chain_id = None, td_sender = 1, td_gas_limit = 80000000, td_gas_per_pubdata_limit = 800,
     td_max_fee_per_gas = 1, td_to_mint = 0, td_refund_recipient = 1, td_layer_2_tip_fee = 0,
     td_upgrade_id = Version24\<rparr>"

definition demo_tx :: "u32 \<Rightarrow> tx" where
  "demo_tx n = TxL2 \<lparr>initiator_account = 5, tx_nonce = n,
     tx_fee = \<lparr>gas_limit = 80000000, max_fee_per_gas = 1000, max_priority_fee_per_gas = 0,
       gas_per_pubdata_limit = 800\<rparr>, received_timestamp_ms = 0, l2_payload = demo_tx_data\<rparr>"

definition demo_ext :: Externals where
  "demo_ext = \<lparr>abi_encode_tokens = abi_reference, keccak256 = word_of_be,
     bytecode_to_code_hash = (\<lambda>cs. Some (of_nat (length cs))), payload_size = (\<lambda>_. 100),
     PUBLISHED_BYTECODE_SIGNATURE = 1, L1_MESSAGE_EVENT_SIGNATURE = 2, abi_decode_bytes = Some\<rparr>"

theorem encoding_len_exact_witness:
  "bootloader_encoding_size demo_ext (demo_tx 0) = Some 36"
proof -
  have abi: "abi_lengths (abi_encode_tokens demo_ext)" by (simp add: demo_ext_def abi_reference_lengths)
  have size: "tx_bytes (demo_tx 0) < 2 ^ 64" by (simp add: tx_bytes_def demo_tx_def demo_tx_data_def)
  have deps: "list_all (\<lambda>dep. hash_bytecode demo_ext dep \<noteq> None) (td_factory_deps (tx_data (demo_tx 0)))"
    by (simp add: demo_tx_def demo_tx_data_def hash_bytecode_def bytes_to_chunks_def demo_ext_def)
  have "encoding_len (demo_tx 0) = 36"
    by (simp add: encoding_len_def demo_tx_def demo_tx_data_def fee_encoding_len_def ceil_div32_def)
  then show ?thesis unfolding encoding_len_exact [OF abi size] using deps by (simp only: if_True)
qed

end
