(* ===== verification/Updates.thy ===== *)
theory Updates
  imports SealCriteria FeeModel Transactions
begin

text \<open>
  The state of a batch under construction: \<^verbatim>\<open>core/node/state_keeper/src/updates\<close>, with the block hash
  of \<^verbatim>\<open>core/lib/types/src/block.rs\<close> and the results of the VM
  (\<^verbatim>\<open>core/lib/multivm/src/interface/types/outputs\<close>). Call traces are carried along unread. The
  storage view cache and the fields of \<open>FinishedL1Batch\<close> other than the result of the batch tip are
  left out. A panic is \<open>None\<close>.
\<close>

section \<open>Results of the VM\<close>

record L2ToL1Log =
  shard_id :: u8
  is_service :: bool
  tx_number_in_block :: u16
  sender :: address
  log_l2_key :: u256
  log_l2_value :: u256

record VmExecutionLogs =
  storage_logs :: "StorageLogWithPreviousValue list"
  events :: "VmEvent list"
  user_l2_to_l1_logs :: "L2ToL1Log list"
  system_l2_to_l1_logs :: "L2ToL1Log list"

record VmExecutionStatistics =
  vs_contracts_used :: nat
  vs_cycles_used :: u32
  vs_gas_used :: u64
  vs_gas_remaining :: u32
  vs_computational_gas_used :: u32
  vs_total_log_queries :: nat
  vs_pubdata_published :: u32
  vs_circuit_statistic :: CircuitStatistic

datatype ExecutionResult = ResultSuccess bytes | ResultRevert string | ResultHalt Halt

fun is_failed :: "ExecutionResult \<Rightarrow> bool" where
  "is_failed (ResultSuccess _) = False"
| "is_failed _ = True"

record VmExecutionResultAndLogs =
  result :: ExecutionResult
  logs :: VmExecutionLogs
  statistics :: VmExecutionStatistics
  gas_refunded :: u64
  operator_suggested_refund :: u64

definition KNOWN_CODES_STORAGE_ADDRESS :: address where "KNOWN_CODES_STORAGE_ADDRESS = 0x8004"

definition marked_as_known :: "Externals \<Rightarrow> VmEvent \<Rightarrow> bool" where
  "marked_as_known ext e \<longleftrightarrow>
     event_address e = KNOWN_CODES_STORAGE_ADDRESS \<and> length (indexed_topics e) = 3 \<and>
     indexed_topics e ! 0 = PUBLISHED_BYTECODE_SIGNATURE ext"

definition extract_bytecodes_marked_as_known :: "Externals \<Rightarrow> VmEvent list \<Rightarrow> u256 list" where
  "extract_bytecodes_marked_as_known ext es =
     map (\<lambda>e. indexed_topics e ! 1) (filter (marked_as_known ext) es)"

definition extract_published_bytecodes :: "Externals \<Rightarrow> VmEvent list \<Rightarrow> u256 list" where
  "extract_published_bytecodes ext es =
     map (\<lambda>e. indexed_topics e ! 1)
       (filter (\<lambda>e. marked_as_known ext e \<and> indexed_topics e ! 2 \<noteq> 0) es)"

definition L1_MESSENGER_ADDRESS :: address where "L1_MESSENGER_ADDRESS = 0x8008"

text \<open>An event of the L1 messenger that does not decode is a panic.\<close>

definition extract_long_l2_to_l1_messages :: "Externals \<Rightarrow> VmEvent list \<Rightarrow> bytes list option" where
  "extract_long_l2_to_l1_messages ext es =
     those (map (\<lambda>e. abi_decode_bytes ext (event_value e))
       (filter (\<lambda>e. event_address e = L1_MESSENGER_ADDRESS \<and> length (indexed_topics e) = 3 \<and>
                     indexed_topics e ! 0 = L1_MESSAGE_EVENT_SIGNATURE ext) es))"

definition bytecode_len_in_words :: "u256 \<Rightarrow> nat" where
  "bytecode_len_in_words h =
     (let bs = word_be 32 h in unat (word_of_be [bs ! 2, bs ! 3] :: u16))"

definition bytecode_len_in_bytes :: "u256 \<Rightarrow> nat" where
  "bytecode_len_in_bytes h = bytecode_len_in_words h * 32"

definition PUBLISH_BYTECODE_OVERHEAD :: u32 where "PUBLISH_BYTECODE_OVERHEAD = 100"

definition get_execution_metrics :: "Externals \<Rightarrow> tx option \<Rightarrow> VmExecutionResultAndLogs \<Rightarrow> ExecutionMetrics option" where
  "get_execution_metrics ext tx r =
     (let s = statistics r; l = logs r in
      map_option (\<lambda>messages.
      \<lparr>gas_used = unat (vs_gas_used s),
       published_bytecode_bytes =
         sum_list (map (\<lambda>h. bytecode_len_in_bytes h + unat PUBLISH_BYTECODE_OVERHEAD)
           (extract_published_bytecodes ext (events l))),
       l2_l1_long_messages =
         sum_list (map (\<lambda>m. (length m + 31) div 32 * 32 + 64) messages),
       l2_to_l1_logs = length (user_l2_to_l1_logs l) + length (system_l2_to_l1_logs l),
       contracts_used = vs_contracts_used s,
       contracts_deployed =
         (case tx of None \<Rightarrow> 0 | Some t \<Rightarrow> of_nat (length (td_factory_deps (tx_data t)))),
       vm_events = length (events l), em_storage_logs = length (storage_logs l),
       total_log_queries = vs_total_log_queries s, cycles_used = vs_cycles_used s,
       computational_gas_used = vs_computational_gas_used s,
       pubdata_published = vs_pubdata_published s, circuit_statistic = vs_circuit_statistic s\<rparr>)
      (extract_long_l2_to_l1_messages ext (events l)))"

record ExecutionMetricsForCriteria =
  l1_gas :: BlockGasCount
  criteria_metrics :: ExecutionMetrics

definition ExecutionMetricsForCriteria_new ::
  "Externals \<Rightarrow> tx option \<Rightarrow> VmExecutionResultAndLogs \<Rightarrow> ExecutionMetricsForCriteria option" where
  "ExecutionMetricsForCriteria_new ext tx r =
     map_option (\<lambda>em.
      \<lparr>l1_gas = (case tx of Some t \<Rightarrow> gas_count_from_tx_and_metrics t em | None \<Rightarrow> gas_count_from_metrics em),
       criteria_metrics = em\<rparr>)
      (get_execution_metrics ext tx r)"

section \<open>Block hashes\<close>

record L2BlockHasher =
  h_number :: u32
  h_timestamp :: u64
  h_prev_l2_block_hash :: u256
  h_txs_rolling_hash :: u256

definition concat_and_hash :: "Externals \<Rightarrow> u256 \<Rightarrow> u256 \<Rightarrow> u256" where
  "concat_and_hash ext a b = keccak256 ext (word_be 32 a @ word_be 32 b)"

definition legacy_hash :: "Externals \<Rightarrow> u32 \<Rightarrow> u256" where
  "legacy_hash ext n = keccak256 ext (word_be 4 n)"

definition L2BlockHasher_new :: "u32 \<Rightarrow> u64 \<Rightarrow> u256 \<Rightarrow> L2BlockHasher" where
  "L2BlockHasher_new n ts prev =
     \<lparr>h_number = n, h_timestamp = ts, h_prev_l2_block_hash = prev, h_txs_rolling_hash = 0\<rparr>"

definition push_tx_hash :: "Externals \<Rightarrow> u256 \<Rightarrow> L2BlockHasher \<Rightarrow> L2BlockHasher" where
  "push_tx_hash ext h d = d\<lparr>h_txs_rolling_hash := concat_and_hash ext (h_txs_rolling_hash d) h\<rparr>"

definition finalize :: "Externals \<Rightarrow> ProtocolVersionId \<Rightarrow> L2BlockHasher \<Rightarrow> u256" where
  "finalize ext pv d =
     (if pv \<ge> Version13
      then keccak256 ext (word_be 32 (ucast (h_number d) :: u256) @ word_be 32 (ucast (h_timestamp d) :: u256) @
             word_be 32 (h_prev_l2_block_hash d) @ word_be 32 (h_txs_rolling_hash d))
      else legacy_hash ext (h_number d))"

section \<open>Updates of an L2 block\<close>

typedecl Call

record TransactionExecutionResult =
  er_transaction :: tx
  er_hash :: u256
  er_execution_info :: ExecutionMetrics
  er_execution_status :: TxExecutionStatus
  er_refunded_gas :: u64
  er_operator_suggested_refund :: u64
  er_compressed_bytecodes :: "(bytes \<times> bytes) list"
  er_call_traces :: "Call list"
  er_revert_reason :: "string option"

record L2BlockEnv =
  env_number :: u32
  env_timestamp :: u64
  env_prev_block_hash :: u256
  env_max_virtual_blocks_to_create :: u32

record L2BlockUpdates =
  executed_transactions :: "TransactionExecutionResult list"
  block_events :: "VmEvent list"
  block_storage_logs :: "StorageLogWithPreviousValue list"
  block_user_logs :: "L2ToL1Log list"
  block_system_logs :: "L2ToL1Log list"
  new_factory_deps :: "(u256 \<times> bytes) list"
  block_gas :: BlockGasCount
  block_metrics :: ExecutionMetrics
  txs_encoding_size :: nat
  payload_encoding_size :: nat
  block_timestamp :: u64
  block_number :: u32
  prev_block_hash :: u256
  virtual_blocks :: u32
  block_version :: ProtocolVersionId

definition L2BlockUpdates_new :: "u64 \<Rightarrow> u32 \<Rightarrow> u256 \<Rightarrow> u32 \<Rightarrow> ProtocolVersionId \<Rightarrow> L2BlockUpdates" where
  "L2BlockUpdates_new ts n prev vbs pv =
     \<lparr>executed_transactions = [], block_events = [], block_storage_logs = [], block_user_logs = [],
      block_system_logs = [], new_factory_deps = [], block_gas = BlockGasCount_default,
      block_metrics = ExecutionMetrics_default, txs_encoding_size = 0, payload_encoding_size = 0,
      block_timestamp = ts, block_number = n, prev_block_hash = prev, virtual_blocks = vbs,
      block_version = pv\<rparr>"

definition extend_from_fictive_transaction ::
  "VmExecutionResultAndLogs \<Rightarrow> BlockGasCount \<Rightarrow> ExecutionMetrics \<Rightarrow> L2BlockUpdates \<Rightarrow> L2BlockUpdates" where
  "extend_from_fictive_transaction r g em u = u\<lparr>
     block_events := block_events u @ events (logs r),
     block_storage_logs := block_storage_logs u @ storage_logs (logs r),
     block_user_logs := block_user_logs u @ user_l2_to_l1_logs (logs r),
     block_system_logs := block_system_logs u @ system_l2_to_l1_logs (logs r),
     block_gas := gas_add (block_gas u) g,
     block_metrics := em_add (block_metrics u) em\<rparr>"

fun revert_reason :: "ExecutionResult \<Rightarrow> string option option" where
  "revert_reason (ResultSuccess _) = Some None"
| "revert_reason (ResultRevert output) = Some (Some output)"
| "revert_reason (ResultHalt _) = None"

text \<open>
  \<open>collect\<close> into a \<open>HashMap\<close> keeps the last entry of a key; the bytecodes marked as known must be
  among the factory dependencies of the transaction.
\<close>

definition known_bytecodes :: "Externals \<Rightarrow> tx \<Rightarrow> u256 list \<Rightarrow> (u256 \<times> bytes) list option" where
  "known_bytecodes ext tx hashes =
     Option.bind (those (map (\<lambda>b. map_option (\<lambda>h. (h, b)) (hash_bytecode ext b)) (td_factory_deps (tx_data tx))))
       (\<lambda>deps. those (map (\<lambda>h. map_option (Pair h) (map_of (rev deps) h)) hashes))"

definition block_extend_from_executed_transaction ::
  "Externals \<Rightarrow> tx \<Rightarrow> VmExecutionResultAndLogs \<Rightarrow> BlockGasCount \<Rightarrow> ExecutionMetrics \<Rightarrow>
   (bytes \<times> bytes) list \<Rightarrow> Call list \<Rightarrow> L2BlockUpdates \<Rightarrow> L2BlockUpdates option" where
  "block_extend_from_executed_transaction ext tx r g em compressed traces u =
     Option.bind (revert_reason (result r)) (\<lambda>reason.
     Option.bind (known_bytecodes ext tx (extract_bytecodes_marked_as_known ext (events (logs r)))) (\<lambda>known.
     Option.bind (bootloader_encoding_size ext tx) (\<lambda>tx_size.
     Some (u\<lparr>
       executed_transactions := executed_transactions u @
         [\<lparr>er_transaction = tx, er_hash = tx_hash tx, er_execution_info = em,
           er_execution_status = from_has_failed (is_failed (result r)),
           er_refunded_gas = gas_refunded r, er_operator_suggested_refund = operator_suggested_refund r,
           er_compressed_bytecodes = compressed, er_call_traces = traces, er_revert_reason = reason\<rparr>],
       block_events := block_events u @ events (logs r),
       block_storage_logs := block_storage_logs u @ storage_logs (logs r),
       block_user_logs := block_user_logs u @ user_l2_to_l1_logs (logs r),
       block_system_logs := block_system_logs u @ system_l2_to_l1_logs (logs r),
       new_factory_deps := fold (\<lambda>(h, b). AList.update h b) known (new_factory_deps u),
       block_gas := gas_add (block_gas u) g,
       block_metrics := em_add (block_metrics u) em,
       txs_encoding_size := txs_encoding_size u + tx_size,
       payload_encoding_size := payload_encoding_size u + payload_size ext tx\<rparr>))))"

definition get_l2_block_hash :: "Externals \<Rightarrow> L2BlockUpdates \<Rightarrow> u256" where
  "get_l2_block_hash ext u =
     finalize ext (block_version u)
       (fold (\<lambda>t. push_tx_hash ext (er_hash t)) (executed_transactions u)
          (L2BlockHasher_new (block_number u) (block_timestamp u) (prev_block_hash u)))"

definition get_env :: "L2BlockUpdates \<Rightarrow> L2BlockEnv" where
  "get_env u = \<lparr>env_number = block_number u, env_timestamp = block_timestamp u,
     env_prev_block_hash = prev_block_hash u, env_max_virtual_blocks_to_create = virtual_blocks u\<rparr>"

section \<open>Updates of an L1 batch\<close>

record PriorityOpOnchainData =
  layer_2_tip_fee :: u256
  onchain_data_hash :: u256

record L1BatchUpdates =
  batch_number :: u32
  batch_transactions :: "TransactionExecutionResult list"
  priority_ops_onchain_data :: "PriorityOpOnchainData list"
  batch_metrics :: ExecutionMetrics
  batch_gas :: BlockGasCount
  batch_encoding_size :: nat
  batch_finished :: "VmExecutionResultAndLogs option"

definition L1BatchUpdates_new :: "u32 \<Rightarrow> L1BatchUpdates" where
  "L1BatchUpdates_new n = \<lparr>batch_number = n, batch_transactions = [], priority_ops_onchain_data = [],
     batch_metrics = ExecutionMetrics_default, batch_gas = new_block_gas_count,
     batch_encoding_size = 0, batch_finished = None\<rparr>"

definition onchain_data :: "tx \<Rightarrow> PriorityOpOnchainData" where
  "onchain_data tx = \<lparr>layer_2_tip_fee = td_layer_2_tip_fee (tx_data tx), onchain_data_hash = tx_hash tx\<rparr>"

definition extend_from_sealed_l2_block :: "L2BlockUpdates \<Rightarrow> L1BatchUpdates \<Rightarrow> L1BatchUpdates" where
  "extend_from_sealed_l2_block u b = b\<lparr>
     batch_transactions := batch_transactions b @ executed_transactions u,
     priority_ops_onchain_data := priority_ops_onchain_data b @
       map (onchain_data \<circ> er_transaction) (filter (is_l1 \<circ> er_transaction) (executed_transactions u)),
     batch_metrics := em_add (batch_metrics b) (block_metrics u),
     batch_gas := gas_add (batch_gas b) (block_gas u),
     batch_encoding_size := batch_encoding_size b + txs_encoding_size u\<rparr>"

section \<open>The updates manager\<close>

record L1BatchEnv =
  previous_batch_hash :: "u256 option"
  env_batch_number :: u32
  env_batch_timestamp :: u64
  env_fee_input :: BatchFeeInput
  env_fee_account :: address
  enforced_base_fee :: "u64 option"
  first_l2_block :: L2BlockEnv

record SystemEnv =
  env_version :: ProtocolVersionId
  env_base_system_contracts :: "u256 \<times> u256"
  env_validation_gas_limit :: u32
  env_chain_id :: u64

record L2BlockParams =
  params_timestamp :: u64
  params_virtual_blocks :: u32

record IoCursor =
  next_l2_block :: u32
  prev_l2_block_hash :: u256
  prev_l2_block_timestamp :: u64
  cursor_l1_batch :: u32

record UpdatesManager =
  batch_timestamp :: u64
  fee_account_address :: address
  batch_fee_input :: BatchFeeInput
  base_fee_per_gas :: u64
  base_system_contract_hashes :: "u256 \<times> u256"
  protocol_version :: ProtocolVersionId
  l1_batch :: L1BatchUpdates
  l2_block :: L2BlockUpdates
  storage_writes_deduplicator :: StorageWritesDeduplicator

definition UpdatesManager_new :: "L1BatchEnv \<Rightarrow> SystemEnv \<Rightarrow> UpdatesManager option" where
  "UpdatesManager_new be se =
     map_option (\<lambda>base_fee.
       \<lparr>batch_timestamp = env_batch_timestamp be, fee_account_address = env_fee_account be,
        batch_fee_input = env_fee_input be, base_fee_per_gas = base_fee,
        base_system_contract_hashes = env_base_system_contracts se, protocol_version = env_version se,
        l1_batch = L1BatchUpdates_new (env_batch_number be),
        l2_block = L2BlockUpdates_new (env_timestamp (first_l2_block be))
          (env_number (first_l2_block be)) (env_prev_block_hash (first_l2_block be))
          (env_max_virtual_blocks_to_create (first_l2_block be)) (env_version se),
        storage_writes_deduplicator = StorageWritesDeduplicator_new\<rparr>)
     (get_batch_base_fee (enforced_base_fee be) (env_fee_input be) (vm_version_from (env_version se)))"

definition io_cursor :: "Externals \<Rightarrow> UpdatesManager \<Rightarrow> IoCursor" where
  "io_cursor ext um = \<lparr>next_l2_block = block_number (l2_block um) + 1,
     prev_l2_block_hash = get_l2_block_hash ext (l2_block um),
     prev_l2_block_timestamp = block_timestamp (l2_block um),
     cursor_l1_batch = batch_number (l1_batch um)\<rparr>"

record L2BlockSealCommand =
  sc_l1_batch_number :: u32
  sc_l2_block :: L2BlockUpdates
  sc_first_tx_index :: nat
  sc_fee_account_address :: address
  sc_fee_input :: BatchFeeInput
  sc_base_fee_per_gas :: u64
  sc_base_system_contracts_hashes :: "u256 \<times> u256"
  sc_protocol_version :: "ProtocolVersionId option"
  sc_l2_shared_bridge_addr :: address
  sc_pre_insert_txs :: bool

definition seal_l2_block_command :: "address \<Rightarrow> bool \<Rightarrow> UpdatesManager \<Rightarrow> L2BlockSealCommand" where
  "seal_l2_block_command bridge pre_insert um =
     \<lparr>sc_l1_batch_number = batch_number (l1_batch um), sc_l2_block = l2_block um,
      sc_first_tx_index = length (batch_transactions (l1_batch um)),
      sc_fee_account_address = fee_account_address um, sc_fee_input = batch_fee_input um,
      sc_base_fee_per_gas = base_fee_per_gas um,
      sc_base_system_contracts_hashes = base_system_contract_hashes um,
      sc_protocol_version = Some (protocol_version um), sc_l2_shared_bridge_addr = bridge,
      sc_pre_insert_txs = pre_insert\<rparr>"

definition extend_from_executed_transaction ::
  "Externals \<Rightarrow> tx \<Rightarrow> VmExecutionResultAndLogs \<Rightarrow> (bytes \<times> bytes) list \<Rightarrow> BlockGasCount \<Rightarrow>
   ExecutionMetrics \<Rightarrow> Call list \<Rightarrow> UpdatesManager \<Rightarrow> UpdatesManager option" where
  "extend_from_executed_transaction ext tx r compressed g em traces um =
     Option.bind (dd_apply (storage_logs (logs r)) (storage_writes_deduplicator um)) (\<lambda>dd.
     Option.bind (block_extend_from_executed_transaction ext tx r g em compressed traces (l2_block um)) (\<lambda>u.
     Some (um\<lparr>l2_block := u, storage_writes_deduplicator := dd\<rparr>)))"

definition finish_batch :: "Externals \<Rightarrow> VmExecutionResultAndLogs \<Rightarrow> UpdatesManager \<Rightarrow> UpdatesManager option" where
  "finish_batch ext tip um =
     (if batch_finished (l1_batch um) \<noteq> None then None
      else Option.bind (ExecutionMetricsForCriteria_new ext None tip) (\<lambda>m.
        Option.bind (dd_apply (storage_logs (logs tip)) (storage_writes_deduplicator um)) (\<lambda>dd.
        Some (um\<lparr>
          l1_batch := (l1_batch um)\<lparr>batch_finished := Some tip\<rparr>,
          l2_block := extend_from_fictive_transaction tip (l1_gas m) (criteria_metrics m) (l2_block um),
          storage_writes_deduplicator := dd\<rparr>))))"

definition push_l2_block :: "Externals \<Rightarrow> L2BlockParams \<Rightarrow> UpdatesManager \<Rightarrow> UpdatesManager" where
  "push_l2_block ext p um = um\<lparr>
     l1_batch := extend_from_sealed_l2_block (l2_block um) (l1_batch um),
     l2_block := L2BlockUpdates_new (params_timestamp p) (block_number (l2_block um) + 1)
       (get_l2_block_hash ext (l2_block um)) (params_virtual_blocks p) (protocol_version um)\<rparr>"

definition pending_executed_transactions_len :: "UpdatesManager \<Rightarrow> nat" where
  "pending_executed_transactions_len um =
     length (batch_transactions (l1_batch um)) + length (executed_transactions (l2_block um))"

definition pending_l1_gas_count :: "UpdatesManager \<Rightarrow> BlockGasCount" where
  "pending_l1_gas_count um = gas_add (batch_gas (l1_batch um)) (block_gas (l2_block um))"

definition pending_execution_metrics :: "UpdatesManager \<Rightarrow> ExecutionMetrics" where
  "pending_execution_metrics um = em_add (batch_metrics (l1_batch um)) (block_metrics (l2_block um))"

definition pending_txs_encoding_size :: "UpdatesManager \<Rightarrow> nat" where
  "pending_txs_encoding_size um =
     batch_encoding_size (l1_batch um) + txs_encoding_size (l2_block um)"

section \<open>Invariant of the updates manager\<close>

definition tx_result_ok :: "Externals \<Rightarrow> TransactionExecutionResult \<Rightarrow> bool" where
  "tx_result_ok ext t \<longleftrightarrow>
     er_hash t = tx_hash (er_transaction t) \<and>
     (er_execution_status t = Failure \<longleftrightarrow> er_revert_reason t \<noteq> None) \<and>
     bootloader_encoding_size ext (er_transaction t) \<noteq> None"

definition gas_sum :: "BlockGasCount list \<Rightarrow> BlockGasCount" where
  "gas_sum gs = foldr gas_add gs BlockGasCount_default"

definition tx_gas :: "TransactionExecutionResult \<Rightarrow> BlockGasCount" where
  "tx_gas t = gas_count_from_tx_and_metrics (er_transaction t) (er_execution_info t)"

definition tx_size :: "Externals \<Rightarrow> TransactionExecutionResult \<Rightarrow> nat" where
  "tx_size ext t = the (bootloader_encoding_size ext (er_transaction t))"

definition pending_transactions :: "UpdatesManager \<Rightarrow> TransactionExecutionResult list" where
  "pending_transactions um = batch_transactions (l1_batch um) @ executed_transactions (l2_block um)"

text \<open>What the fictive transaction at the end of the batch adds.\<close>

definition tip_metrics :: "Externals \<Rightarrow> UpdatesManager \<Rightarrow> ExecutionMetricsForCriteria" where
  "tip_metrics ext um =
     (case batch_finished (l1_batch um) of
        None \<Rightarrow> \<lparr>l1_gas = BlockGasCount_default, criteria_metrics = ExecutionMetrics_default\<rparr>
      | Some tip \<Rightarrow> the (ExecutionMetricsForCriteria_new ext None tip))"

definition block_wf :: "Externals \<Rightarrow> L2BlockUpdates \<Rightarrow> bool" where
  "block_wf ext u \<longleftrightarrow>
     list_all (tx_result_ok ext) (executed_transactions u) \<and>
     txs_encoding_size u = sum_list (map (tx_size ext) (executed_transactions u)) \<and>
     payload_encoding_size u = sum_list (map (payload_size ext \<circ> er_transaction) (executed_transactions u)) \<and>
     distinct (map fst (new_factory_deps u))"

definition updates_wf :: "Externals \<Rightarrow> UpdatesManager \<Rightarrow> bool" where
  "updates_wf ext um \<longleftrightarrow>
     block_wf ext (l2_block um) \<and> list_all (tx_result_ok ext) (batch_transactions (l1_batch um)) \<and>
     block_version (l2_block um) = protocol_version um \<and>
     priority_ops_onchain_data (l1_batch um) =
       map (onchain_data \<circ> er_transaction) (filter (is_l1 \<circ> er_transaction) (batch_transactions (l1_batch um))) \<and>
     pending_txs_encoding_size um = sum_list (map (tx_size ext) (pending_transactions um)) \<and>
     pending_l1_gas_count um =
       gas_add (gas_sum (new_block_gas_count # map tx_gas (pending_transactions um))) (l1_gas (tip_metrics ext um)) \<and>
     em_size (pending_execution_metrics um) =
       sum_list (map (em_size \<circ> er_execution_info) (pending_transactions um)) +
       em_size (criteria_metrics (tip_metrics ext um))"

lemma gas_sum_simps [simp]:
  "gas_sum [] = BlockGasCount_default" "gas_sum (g # gs) = gas_add g (gas_sum gs)"
  by (simp_all add: gas_sum_def)

lemma gas_sum_append [simp]: "gas_sum (xs @ ys) = gas_add (gas_sum xs) (gas_sum ys)"
  by (induction xs) (simp_all add: gas_add_assoc)

lemma em_size_default [simp]: "em_size ExecutionMetrics_default = 0"
  by (simp add: em_size_def ExecutionMetrics_default_def)

lemma pending_len: "pending_executed_transactions_len um = length (pending_transactions um)"
  by (simp add: pending_executed_transactions_len_def pending_transactions_def)

lemma UpdatesManager_new_wf: "UpdatesManager_new be se = Some um \<Longrightarrow> updates_wf ext um"
  by (auto simp: UpdatesManager_new_def updates_wf_def block_wf_def L2BlockUpdates_new_def
      L1BatchUpdates_new_def pending_txs_encoding_size_def pending_l1_gas_count_def
      pending_execution_metrics_def pending_transactions_def tip_metrics_def)

lemma push_l2_block_pending [simp]:
  "pending_transactions (push_l2_block ext p um) = pending_transactions um"
  "pending_txs_encoding_size (push_l2_block ext p um) = pending_txs_encoding_size um"
  "pending_l1_gas_count (push_l2_block ext p um) = pending_l1_gas_count um"
  "em_size (pending_execution_metrics (push_l2_block ext p um)) = em_size (pending_execution_metrics um)"
  "protocol_version (push_l2_block ext p um) = protocol_version um"
  "batch_timestamp (push_l2_block ext p um) = batch_timestamp um"
  "batch_number (l1_batch (push_l2_block ext p um)) = batch_number (l1_batch um)"
  "batch_finished (l1_batch (push_l2_block ext p um)) = batch_finished (l1_batch um)"
  "storage_writes_deduplicator (push_l2_block ext p um) = storage_writes_deduplicator um"
  by (simp_all add: push_l2_block_def pending_transactions_def extend_from_sealed_l2_block_def
      L2BlockUpdates_new_def pending_txs_encoding_size_def pending_l1_gas_count_def gas_add_assoc
      pending_execution_metrics_def)

lemma push_l2_block_wf: "updates_wf ext um \<Longrightarrow> updates_wf ext (push_l2_block ext p um)"
  by (auto simp: updates_wf_def tip_metrics_def)
     (auto simp: push_l2_block_def block_wf_def L2BlockUpdates_new_def extend_from_sealed_l2_block_def)

lemma distinct_fold_update:
  "distinct (map fst al) \<Longrightarrow> distinct (map fst (fold (\<lambda>(h, b). AList.update h b) xs al))"
  by (induction xs arbitrary: al) (auto simp: distinct_update)

lemma revert_reason_failure:
  "revert_reason r = Some reason \<Longrightarrow> from_has_failed (is_failed r) = Failure \<longleftrightarrow> reason \<noteq> None"
  by (cases r) (auto simp: from_has_failed_def)

text \<open>What a block and the manager gain from an executed transaction.\<close>

lemma block_extend_Some:
  assumes "block_extend_from_executed_transaction ext tx r g em compressed traces u = Some u'"
  obtains t where "executed_transactions u' = executed_transactions u @ [t]" "er_transaction t = tx"
    "er_execution_info t = em" "tx_result_ok ext t"
    "txs_encoding_size u' = txs_encoding_size u + tx_size ext t"
    "payload_encoding_size u' = payload_encoding_size u + payload_size ext tx"
    "block_gas u' = gas_add (block_gas u) g" "block_metrics u' = em_add (block_metrics u) em"
    "distinct (map fst (new_factory_deps u)) \<longrightarrow> distinct (map fst (new_factory_deps u'))"
    "get_env u' = get_env u" "block_version u' = block_version u"
  using assms that
  by (auto simp: block_extend_from_executed_transaction_def bind_eq_Some_conv tx_result_ok_def
      tx_size_def get_env_def distinct_fold_update revert_reason_failure)

lemma extend_Some:
  assumes "extend_from_executed_transaction ext tx r compressed g em traces um = Some um'"
  obtains dd u where "dd_apply (storage_logs (logs r)) (storage_writes_deduplicator um) = Some dd"
    "block_extend_from_executed_transaction ext tx r g em compressed traces (l2_block um) = Some u"
    "um' = um\<lparr>l2_block := u, storage_writes_deduplicator := dd\<rparr>"
  using assms by (auto simp: extend_from_executed_transaction_def bind_eq_Some_conv)

lemma extend_pending:
  assumes "extend_from_executed_transaction ext tx r compressed g em traces um = Some um'"
  obtains t where "pending_transactions um' = pending_transactions um @ [t]" "er_transaction t = tx"
    "er_execution_info t = em" "tx_result_ok ext t"
    "pending_txs_encoding_size um' = pending_txs_encoding_size um + tx_size ext t"
    "pending_l1_gas_count um' = gas_add (pending_l1_gas_count um) g"
    "em_size (pending_execution_metrics um') = em_size (pending_execution_metrics um) + em_size em"
    "l1_batch um' = l1_batch um" "protocol_version um' = protocol_version um"
    "block_wf ext (l2_block um) \<Longrightarrow> block_wf ext (l2_block um')"
    "get_env (l2_block um') = get_env (l2_block um)" "block_version (l2_block um') = block_version (l2_block um)"
proof -
  obtain dd u where b: "block_extend_from_executed_transaction ext tx r g em compressed traces (l2_block um) = Some u"
    and um': "um' = um\<lparr>l2_block := u, storage_writes_deduplicator := dd\<rparr>"
    using extend_Some [OF assms] by metis
  obtain t where t: "executed_transactions u = executed_transactions (l2_block um) @ [t]"
    "er_transaction t = tx" "er_execution_info t = em" "tx_result_ok ext t"
    "txs_encoding_size u = txs_encoding_size (l2_block um) + tx_size ext t"
    "payload_encoding_size u = payload_encoding_size (l2_block um) + payload_size ext tx"
    "block_gas u = gas_add (block_gas (l2_block um)) g" "block_metrics u = em_add (block_metrics (l2_block um)) em"
    "distinct (map fst (new_factory_deps (l2_block um))) \<longrightarrow> distinct (map fst (new_factory_deps u))"
    "get_env u = get_env (l2_block um)" "block_version u = block_version (l2_block um)"
    by (rule block_extend_Some [OF b])
  show ?thesis
    by (rule that [of t])
       (use t in \<open>simp_all add: um' pending_transactions_def pending_txs_encoding_size_def gas_add_assoc
          pending_l1_gas_count_def pending_execution_metrics_def block_wf_def\<close>)
qed

lemma extend_wf:
  assumes "extend_from_executed_transaction ext tx r compressed (gas_count_from_tx_and_metrics tx em) em traces um = Some um'"
    and "updates_wf ext um"
  shows "updates_wf ext um'"
proof -
  obtain t where t: "pending_transactions um' = pending_transactions um @ [t]" "er_transaction t = tx"
    "er_execution_info t = em"
    "pending_txs_encoding_size um' = pending_txs_encoding_size um + tx_size ext t"
    "pending_l1_gas_count um' = gas_add (pending_l1_gas_count um) (gas_count_from_tx_and_metrics tx em)"
    "em_size (pending_execution_metrics um') = em_size (pending_execution_metrics um) + em_size em"
    "l1_batch um' = l1_batch um" "protocol_version um' = protocol_version um"
    "block_wf ext (l2_block um')" "block_version (l2_block um') = block_version (l2_block um)"
    using extend_pending [OF assms(1)] assms(2) unfolding updates_wf_def by metis
  have g: "tx_gas t = gas_count_from_tx_and_metrics tx em" by (simp add: tx_gas_def t(2,3))
  show ?thesis using assms(2) t
    by (simp add: updates_wf_def tip_metrics_def g gas_add_ac)
qed

lemma finish_batch_wf:
  assumes "finish_batch ext tip um = Some um'" "updates_wf ext um"
  shows "updates_wf ext um'"
  using assms
  by (auto simp: finish_batch_def Let_def updates_wf_def tip_metrics_def pending_transactions_def
      extend_from_fictive_transaction_def block_wf_def pending_txs_encoding_size_def
      pending_l1_gas_count_def pending_execution_metrics_def bind_eq_Some_conv gas_add_assoc
      simp flip: gas_add_assoc split: if_splits)

section \<open>Reachable states\<close>

text \<open>
  The operations of the manager in any order. A transaction is added with the metrics the executor computes.
\<close>

datatype um_event =
    ExecutedTx tx VmExecutionResultAndLogs "(bytes \<times> bytes) list" "Call list"
  | NextL2Block L2BlockParams
  | BatchTip VmExecutionResultAndLogs

fun um_step :: "Externals \<Rightarrow> um_event \<Rightarrow> UpdatesManager \<Rightarrow> UpdatesManager option" where
  "um_step ext (ExecutedTx tx r compressed traces) um =
     Option.bind (ExecutionMetricsForCriteria_new ext (Some tx) r) (\<lambda>m.
       extend_from_executed_transaction ext tx r compressed (l1_gas m) (criteria_metrics m) traces um)"
| "um_step ext (NextL2Block p) um = Some (push_l2_block ext p um)"
| "um_step ext (BatchTip tip) um = finish_batch ext tip um"

interpretation updates: machine "um_step ext" "\<lambda>um. \<exists>be se. UpdatesManager_new be se = Some um" "updates_wf ext"
proof (unfold_locales, goal_cases)
  case (1 um)
  then show ?case using UpdatesManager_new_wf by blast
next
  case (2 um e um')
  then show ?case
  proof (cases e)
    case (ExecutedTx tx r compressed traces)
    then show ?thesis using 2 extend_wf
      by (auto simp: ExecutionMetricsForCriteria_new_def bind_eq_Some_conv)
  qed (auto intro: push_l2_block_wf finish_batch_wf)
qed

text \<open>
  C39. The totals of a batch are those of its transactions: in every state the updates manager reaches,
  each recorded transaction has its own hash, a revert reason exactly if it failed and a valid encoding; the
  priority operations are the L1 transactions of the sealed blocks in order; and the pending encoding size,
  L1 gas (modulo \<open>2 ^ 32\<close>) and size of the metrics are the sums over the transactions and the batch tip.
\<close>

theorem updates_reachable_wf:
  assumes "UpdatesManager_new be se = Some um" "run_events (um_step ext) es um = Some um'"
  shows "updates_wf ext um'"
  using updates.run_inv assms by blast

text \<open>A batch with one block and one transaction.\<close>

definition demo_batch_env :: L1BatchEnv where
  "demo_batch_env = \<lparr>previous_batch_hash = None, env_batch_number = 1, env_batch_timestamp = 100,
     env_fee_input = sensible_l1_pegged_default, env_fee_account = 1, enforced_base_fee = Some 1,
     first_l2_block = \<lparr>env_number = 1, env_timestamp = 100, env_prev_block_hash = 0,
       env_max_virtual_blocks_to_create = 1\<rparr>\<rparr>"

definition demo_system_env :: SystemEnv where
  "demo_system_env = \<lparr>env_version = Version24, env_base_system_contracts = (0, 0),
     env_validation_gas_limit = 0, env_chain_id = 270\<rparr>"

definition demo_result :: "StorageLogWithPreviousValue list \<Rightarrow> VmExecutionResultAndLogs" where
  "demo_result ls = \<lparr>result = ResultSuccess [],
     logs = \<lparr>storage_logs = ls, events = [], user_l2_to_l1_logs = [], system_l2_to_l1_logs = []\<rparr>,
     statistics = \<lparr>vs_contracts_used = 0, vs_cycles_used = 0, vs_gas_used = 0, vs_gas_remaining = 500000000,
       vs_computational_gas_used = 0, vs_total_log_queries = 0, vs_pubdata_published = 0,
       vs_circuit_statistic = CircuitStatistic_default\<rparr>,
     gas_refunded = 0, operator_suggested_refund = 0\<rparr>"

lemma demo_ext_abi: "abi_lengths (abi_encode_tokens demo_ext)"
  by (simp add: demo_ext_def abi_reference_lengths)

lemma demo_deps_hash: "hash_bytecode demo_ext (replicate (32 * n) b) = Some (of_nat (length (chunks32 (replicate (32 * n) b))))"
  by (simp add: hash_bytecode_def bytes_to_chunks_def demo_ext_def)

lemma demo_encoding_size: "bootloader_encoding_size demo_ext (demo_tx n) = Some 36"
proof -
  have size: "tx_bytes (demo_tx n) < 2 ^ 64" by (simp add: tx_bytes_def demo_tx_def demo_tx_data_def)
  have deps: "list_all (\<lambda>dep. hash_bytecode demo_ext dep \<noteq> None) (td_factory_deps (tx_data (demo_tx n)))"
    using demo_deps_hash [of 1] demo_deps_hash [of 3] by (simp add: demo_tx_def demo_tx_data_def)
  have "encoding_len (demo_tx n) = 36"
    by (simp add: encoding_len_def demo_tx_def demo_tx_data_def fee_encoding_len_def ceil_div32_def)
  then show ?thesis
    unfolding bootloader_encoding_size_eq [OF demo_ext_abi size] using deps by (simp only: if_True)
qed

lemma demo_known: "\<exists>known. known_bytecodes demo_ext (demo_tx n) [] = Some known"
  using demo_deps_hash [of 1] demo_deps_hash [of 3]
  by (simp add: known_bytecodes_def demo_tx_def demo_tx_data_def)

lemma demo_extend:
  assumes "dd_apply ls (storage_writes_deduplicator um) = Some dd"
  shows "\<exists>um'. extend_from_executed_transaction demo_ext (demo_tx n) (demo_result ls) compressed g em traces um = Some um'"
  using assms demo_known [of n] demo_encoding_size [of n]
  by (auto simp: extend_from_executed_transaction_def block_extend_from_executed_transaction_def
      demo_result_def extract_bytecodes_marked_as_known_def)

lemma demo_metrics: "\<exists>m. ExecutionMetricsForCriteria_new ext tx (demo_result ls) = Some m"
  by (simp add: ExecutionMetricsForCriteria_new_def get_execution_metrics_def demo_result_def
      extract_long_l2_to_l1_messages_def Let_def)

theorem updates_reachable_wf_witness:
  "\<exists>um um'. UpdatesManager_new demo_batch_env demo_system_env = Some um \<and>
     run_events (um_step demo_ext)
       [ExecutedTx (demo_tx 0) (demo_result demo_logs) [] [], NextL2Block \<lparr>params_timestamp = 101, params_virtual_blocks = 1\<rparr>]
       um = Some um' \<and> updates_wf demo_ext um'"
proof -
  obtain um where um: "UpdatesManager_new demo_batch_env demo_system_env = Some um"
    and new: "storage_writes_deduplicator um = StorageWritesDeduplicator_new"
    by (simp add: UpdatesManager_new_def demo_batch_env_def get_batch_base_fee_def L1BatchUpdates_new_def)
  obtain dd where "dd_apply demo_logs (storage_writes_deduplicator um) = Some dd"
    using process_storage_logs_spec [OF dd_new_inv demo_kinds] by (auto simp: dd_apply_def new)
  then obtain um1 where "um_step demo_ext (ExecutedTx (demo_tx 0) (demo_result demo_logs) [] []) um = Some um1"
    using demo_extend [of demo_logs um dd 0 "[]" _ _ "[]"] demo_metrics [of demo_ext "Some (demo_tx 0)" demo_logs]
    by fastforce
  then have "run_events (um_step demo_ext)
       [ExecutedTx (demo_tx 0) (demo_result demo_logs) [] [], NextL2Block \<lparr>params_timestamp = 101, params_virtual_blocks = 1\<rparr>]
       um = Some (push_l2_block demo_ext \<lparr>params_timestamp = 101, params_virtual_blocks = 1\<rparr> um1)"
    by (simp only: run_events.simps option.case um_step.simps(2))
  then show ?thesis using um updates_reachable_wf [OF um] by blast
qed

end
