(* ===== verification/Actions.thy ===== *)
theory Actions
  imports Prelude
begin

text \<open>
  Effects of the state keeper are actions: functions from a state to an outcome and a new state. The
  outcome is a value, the \<open>Error\<close> of \<^verbatim>\<open>core/node/state_keeper/src/keeper.rs\<close>, or a panic; the texts that
  \<open>context\<close> adds to an error are left out. \<open>bind_action\<close> is the operator \<open>?\<close> followed by the rest of the
  function. A \<open>triple\<close> relates the state before an action, the state and value after it, and the state
  in which it fails.
\<close>

section \<open>Actions\<close>

datatype Error = Canceled | Fatal string

datatype 'a outcome = Ok 'a | Err Error | Panic

type_synonym ('a, 's) action = "'s \<Rightarrow> 'a outcome \<times> 's"

definition return :: "'a \<Rightarrow> ('a, 's) action" where
  "return x s = (Ok x, s)"

definition bind_action :: "('a, 's) action \<Rightarrow> ('a \<Rightarrow> ('b, 's) action) \<Rightarrow> ('b, 's) action" where
  "bind_action m f s =
     (case m s of (Ok x, s') \<Rightarrow> f x s' | (Err e, s') \<Rightarrow> (Err e, s') | (Panic, s') \<Rightarrow> (Panic, s'))"

definition of_result :: "string + 'a \<Rightarrow> 'a outcome" where
  "of_result r = (case r of Inl e \<Rightarrow> Err (Fatal e) | Inr x \<Rightarrow> Ok x)"

definition of_option :: "'a option \<Rightarrow> 'a outcome" where
  "of_option r = (case r of None \<Rightarrow> Panic | Some x \<Rightarrow> Ok x)"

text \<open>An outcome that does not change the state.\<close>

definition lift :: "'a outcome \<Rightarrow> ('a, 's) action" where
  "lift r s = (r, s)"

lemma bind_action_Ok:
  "bind_action m f s = (Ok y, s') \<longleftrightarrow> (\<exists>x s1. m s = (Ok x, s1) \<and> f x s1 = (Ok y, s'))"
  by (auto simp: bind_action_def split: prod.splits outcome.splits)

text \<open>\<open>assert!\<close>.\<close>

definition assert_that :: "('s \<Rightarrow> bool) \<Rightarrow> (unit, 's) action" where
  "assert_that P s = (if P s then Ok () else Panic, s)"

section \<open>Reasoning\<close>

definition triple :: "('s \<Rightarrow> bool) \<Rightarrow> ('a, 's) action \<Rightarrow> ('a \<Rightarrow> 's \<Rightarrow> bool) \<Rightarrow> ('s \<Rightarrow> bool) \<Rightarrow> bool" where
  "triple P m Q E \<longleftrightarrow> (\<forall>s. P s \<longrightarrow> (case m s of (Ok x, s') \<Rightarrow> Q x s' | (_, s') \<Rightarrow> E s'))"

lemma tripleI:
  assumes "\<And>s x s'. P s \<Longrightarrow> m s = (Ok x, s') \<Longrightarrow> Q x s'"
    and "\<And>s r s'. P s \<Longrightarrow> m s = (r, s') \<Longrightarrow> \<forall>x. r \<noteq> Ok x \<Longrightarrow> E s'"
  shows "triple P m Q E"
  unfolding triple_def using assms by (fastforce split: prod.splits outcome.splits)

lemma triple_Ok: "triple P m Q E \<Longrightarrow> P s \<Longrightarrow> m s = (Ok x, s') \<Longrightarrow> Q x s'"
  unfolding triple_def by fastforce

lemma triple_fail: "triple P m Q E \<Longrightarrow> P s \<Longrightarrow> m s = (r, s') \<Longrightarrow> \<forall>x. r \<noteq> Ok x \<Longrightarrow> E s'"
  unfolding triple_def by (cases r) fastforce+

lemma triple_bind:
  assumes "triple P m R E" "\<And>x. triple (R x) (f x) Q E"
  shows "triple P (bind_action m f) Q E"
  using assms unfolding triple_def bind_action_def by (fastforce split: prod.splits outcome.splits)

lemma triple_conseq:
  assumes "triple P m Q E" "\<And>s. P' s \<Longrightarrow> P s" "\<And>x s. Q x s \<Longrightarrow> Q' x s" "\<And>s. E s \<Longrightarrow> E' s"
  shows "triple P' m Q' E'"
  using assms unfolding triple_def by (fastforce split: prod.splits outcome.splits)

lemma triple_return: "(\<And>s. P s \<Longrightarrow> Q x s) \<Longrightarrow> triple P (return x) Q E"
  by (auto simp: triple_def return_def)

lemma triple_lift: "(\<And>s x. P s \<Longrightarrow> r = Ok x \<Longrightarrow> Q x s) \<Longrightarrow> (\<And>s. P s \<Longrightarrow> E s) \<Longrightarrow> triple P (lift r) Q E"
  by (auto simp: triple_def lift_def split: outcome.splits)

text \<open>An action whose definition reads the state first.\<close>

lemma triple_state:
  assumes "\<And>s. f s = m s s" "\<And>s0. P s0 \<Longrightarrow> triple P (m s0) Q E"
  shows "triple P f Q E"
  using assms unfolding triple_def by metis

lemma triple_assert: "(\<And>s. P s \<Longrightarrow> E s) \<Longrightarrow> triple P (assert_that A) (\<lambda>_ s. P s \<and> A s) E"
  by (auto simp: triple_def assert_that_def)

end
