(* ===== verification/BatchExecutor.thy ===== *)
theory BatchExecutor
  imports Updates Actions
begin

text \<open>
  The batch executor: \<^verbatim>\<open>core/node/state_keeper/src/batch_executor/mod.rs\<close> (the handle the state
  keeper owns) and \<^verbatim>\<open>main_executor.rs\<close> (the thread that runs the VM). The operations of the VM
  itself are the fields of \<open>VmOps\<close>; snapshots are kept on a stack as in
  \<^verbatim>\<open>core/lib/multivm/src/versions/vm_latest/vm.rs\<close>. A panic of the executor thread stops it and
  becomes an error of the handle.
\<close>

section \<open>The VM\<close>

text \<open>
  Executing a transaction gives whether the compressed bytecodes were published, the result and the
  call trace; the flag asks for compression.
\<close>

record ('m, 'snap) VmOps =
  vm_new :: "L1BatchEnv \<Rightarrow> SystemEnv \<Rightarrow> 'm"
  vm_snapshot :: "'m \<Rightarrow> 'snap"
  vm_rollback :: "'snap \<Rightarrow> 'm \<Rightarrow> 'm"
  inspect_transaction_with_bytecode_compression ::
    "tx \<Rightarrow> bool \<Rightarrow> 'm \<Rightarrow> bool \<times> VmExecutionResultAndLogs \<times> Call list \<times> 'm"
  get_last_tx_compressed_bytecodes :: "'m \<Rightarrow> (bytes \<times> bytes) list"
  vm_gas_remaining :: "'m \<Rightarrow> u32"
  start_new_l2_block :: "L2BlockEnv \<Rightarrow> 'm \<Rightarrow> 'm"
  vm_finish_batch :: "'m \<Rightarrow> VmExecutionResultAndLogs \<times> 'm"

record ('m, 'snap) VmInstance =
  vm_state :: 'm
  snapshots :: "'snap list"

definition make_snapshot :: "('m, 'snap) VmOps \<Rightarrow> ('m, 'snap) VmInstance \<Rightarrow> ('m, 'snap) VmInstance" where
  "make_snapshot ops vm = vm\<lparr>snapshots := vm_snapshot ops (vm_state vm) # snapshots vm\<rparr>"

fun rollback_to_the_latest_snapshot ::
  "('m, 'snap) VmOps \<Rightarrow> ('m, 'snap) VmInstance \<Rightarrow> ('m, 'snap) VmInstance option" where
  "rollback_to_the_latest_snapshot ops vm =
     (case snapshots vm of
        [] \<Rightarrow> None
      | s # ss \<Rightarrow> Some (vm\<lparr>vm_state := vm_rollback ops s (vm_state vm), snapshots := ss\<rparr>))"

definition pop_snapshot_no_rollback :: "('m, 'snap) VmInstance \<Rightarrow> ('m, 'snap) VmInstance option" where
  "pop_snapshot_no_rollback vm =
     (case snapshots vm of [] \<Rightarrow> None | _ # ss \<Rightarrow> Some (vm\<lparr>snapshots := ss\<rparr>))"

section \<open>The executor thread\<close>

datatype TxExecutionResult =
    TxSuccess VmExecutionResultAndLogs ExecutionMetricsForCriteria "(bytes \<times> bytes) list" "Call list" u32
  | RejectedByVm Halt
  | BootloaderOutOfGasForTx

fun err :: "TxExecutionResult \<Rightarrow> Halt option" where
  "err (TxSuccess _ _ _ _ _) = None"
| "err (RejectedByVm reason) = Some reason"
| "err BootloaderOutOfGasForTx = Some HaltBootloaderOutOfGas"

record MainBatchExecutor =
  save_call_traces :: bool
  optional_bytecode_compression :: bool

definition inspect ::
  "('m, 'snap) VmOps \<Rightarrow> MainBatchExecutor \<Rightarrow> tx \<Rightarrow> bool \<Rightarrow> ('m, 'snap) VmInstance \<Rightarrow>
   bool \<times> VmExecutionResultAndLogs \<times> Call list \<times> ('m, 'snap) VmInstance" where
  "inspect ops ex tx compress vm =
     (case inspect_transaction_with_bytecode_compression ops tx compress (vm_state vm) of
        (published, r, trace, m) \<Rightarrow>
          (published, r, if save_call_traces ex then trace else [], vm\<lparr>vm_state := m\<rparr>))"

definition execute_tx_in_vm_with_optional_compression ::
  "('m, 'snap) VmOps \<Rightarrow> MainBatchExecutor \<Rightarrow> tx \<Rightarrow> ('m, 'snap) VmInstance \<Rightarrow>
   ((VmExecutionResultAndLogs \<times> (bytes \<times> bytes) list \<times> Call list) \<times> ('m, 'snap) VmInstance) option" where
  "execute_tx_in_vm_with_optional_compression ops ex tx vm =
     (case inspect ops ex tx True (make_snapshot ops vm) of
        (True, r, trace, vm1) \<Rightarrow>
          map_option (Pair (r, get_last_tx_compressed_bytecodes ops (vm_state vm1), trace))
            (pop_snapshot_no_rollback vm1)
      | (False, _, _, vm1) \<Rightarrow>
          Option.bind (rollback_to_the_latest_snapshot ops vm1) (\<lambda>vm2.
            (case inspect ops ex tx False vm2 of
               (True, r, trace, vm3) \<Rightarrow>
                 Some ((r, get_last_tx_compressed_bytecodes ops (vm_state vm3), trace), vm3)
             | (False, _, _, _) \<Rightarrow> None)))"

definition execute_tx_in_vm ::
  "('m, 'snap) VmOps \<Rightarrow> MainBatchExecutor \<Rightarrow> tx \<Rightarrow> ('m, 'snap) VmInstance \<Rightarrow>
   (VmExecutionResultAndLogs \<times> (bytes \<times> bytes) list \<times> Call list) \<times> ('m, 'snap) VmInstance" where
  "execute_tx_in_vm ops ex tx vm =
     (case inspect ops ex tx True vm of
        (True, r, trace, vm1) \<Rightarrow> ((r, get_last_tx_compressed_bytecodes ops (vm_state vm1), trace), vm1)
      | (False, r, _, vm1) \<Rightarrow>
          ((r\<lparr>result := ResultHalt FailedToPublishCompressedBytecodes\<rparr>, [], []), vm1))"

definition executed_result ::
  "Externals \<Rightarrow> tx \<Rightarrow> u32 \<Rightarrow> VmExecutionResultAndLogs \<times> (bytes \<times> bytes) list \<times> Call list \<Rightarrow> TxExecutionResult option" where
  "executed_result ext tx gas_left res =
     (case res of (r, compressed, trace) \<Rightarrow>
        (case result r of
           ResultHalt reason \<Rightarrow>
             Some (if reason = HaltBootloaderOutOfGas then BootloaderOutOfGasForTx else RejectedByVm reason)
         | _ \<Rightarrow> map_option (\<lambda>m. TxSuccess r m compressed trace gas_left) (ExecutionMetricsForCriteria_new ext (Some tx) r)))"

definition receiver_execute_tx ::
  "Externals \<Rightarrow> ('m, 'snap) VmOps \<Rightarrow> MainBatchExecutor \<Rightarrow> tx \<Rightarrow> ('m, 'snap) VmInstance \<Rightarrow>
   (TxExecutionResult \<times> ('m, 'snap) VmInstance) option" where
  "receiver_execute_tx ext ops ex tx vm =
     Option.bind
       (if optional_bytecode_compression ex
        then execute_tx_in_vm_with_optional_compression ops ex tx (make_snapshot ops vm)
        else Some (execute_tx_in_vm ops ex tx (make_snapshot ops vm)))
       (\<lambda>(res, vm1). map_option (\<lambda>r. (r, vm1)) (executed_result ext tx (vm_gas_remaining ops (vm_state vm1)) res))"

definition receiver_start_next_l2_block ::
  "('m, 'snap) VmOps \<Rightarrow> L2BlockEnv \<Rightarrow> ('m, 'snap) VmInstance \<Rightarrow> ('m, 'snap) VmInstance" where
  "receiver_start_next_l2_block ops env vm = vm\<lparr>vm_state := start_new_l2_block ops env (vm_state vm)\<rparr>"

definition receiver_finish_batch ::
  "('m, 'snap) VmOps \<Rightarrow> ('m, 'snap) VmInstance \<Rightarrow> (VmExecutionResultAndLogs \<times> ('m, 'snap) VmInstance) option" where
  "receiver_finish_batch ops vm =
     (case vm_finish_batch ops (vm_state vm) of
        (r, m) \<Rightarrow> if is_failed (result r) then None else Some (r, vm\<lparr>vm_state := m\<rparr>))"

section \<open>The handle\<close>

text \<open>
  The thread is running, or it has stopped; a command sent to a stopped thread returns the
  error it stopped with. \<open>send_command\<close> is the exchange of a command and its response.
\<close>

datatype 'vm BatchExecutorHandle = Running 'vm | Stopped string

fun send_command :: "('vm \<Rightarrow> ('a \<times> 'vm) option) \<Rightarrow> ('a, 'vm BatchExecutorHandle) action" where
  "send_command f (Running vm) =
     (case f vm of
        None \<Rightarrow> (Err (Fatal ''batch executor panicked''), Stopped ''batch executor panicked'')
      | Some (x, vm') \<Rightarrow> (Ok x, Running vm'))"
| "send_command f (Stopped e) = (Err (Fatal e), Stopped e)"

text \<open>The interface the state keeper uses; \<open>'h\<close> is the state of a handle.\<close>

record 'h BatchExecutor =
  init_batch :: "nat \<Rightarrow> L1BatchEnv \<Rightarrow> SystemEnv \<Rightarrow> 'h option"
  execute_tx :: "tx \<Rightarrow> (TxExecutionResult, 'h) action"
  rollback_last_tx :: "(unit, 'h) action"
  start_next_l2_block :: "L2BlockEnv \<Rightarrow> (unit, 'h) action"
  executor_finish_batch :: "(VmExecutionResultAndLogs, 'h) action"

text \<open>
  \<open>access\<close> is the answer of the storage factory for the n-th batch: an error, an interruption by the
  stop signal, or access. Reading the gas limit of a transaction as \<open>u64\<close> panics when it does not fit.
\<close>

definition main_batch_executor ::
  "Externals \<Rightarrow> ('m, 'snap) VmOps \<Rightarrow> (nat \<Rightarrow> string + bool) \<Rightarrow> MainBatchExecutor \<Rightarrow>
   ('m, 'snap) VmInstance BatchExecutorHandle BatchExecutor" where
  "main_batch_executor ext ops access ex =
     \<lparr>init_batch = (\<lambda>n be se. Some (case access n of
          Inl e \<Rightarrow> Stopped e
        | Inr False \<Rightarrow> Stopped ''batch executor unexpectedly stopped''
        | Inr True \<Rightarrow> Running \<lparr>vm_state = vm_new ops be se, snapshots = []\<rparr>)),
      execute_tx = (\<lambda>tx h.
        if tx_gas_limit tx > 0xFFFFFFFFFFFFFFFF then (Panic, h)
        else send_command (receiver_execute_tx ext ops ex tx) h),
      rollback_last_tx = send_command (\<lambda>vm. map_option (Pair ()) (rollback_to_the_latest_snapshot ops vm)),
      start_next_l2_block = (\<lambda>env. send_command (\<lambda>vm. Some ((), receiver_start_next_l2_block ops env vm))),
      executor_finish_batch = (\<lambda>h.
        (case send_command (receiver_finish_batch ops) h of
           (Ok r, _) \<Rightarrow> (Ok r, Stopped ''batch executor unexpectedly stopped'')
         | other \<Rightarrow> other))\<rparr>"

section \<open>What the state keeper relies on\<close>

text \<open>
  The contract of a batch executor: rolling back undoes the last transaction, the metrics it reports
  are those of the result, and a successful transaction did not halt.
\<close>

locale executor =
  fixes ext :: Externals and ops :: "'h BatchExecutor"
  assumes rollback_undoes:
      "execute_tx ops tx h = (Ok res, h') \<Longrightarrow> rollback_last_tx ops h' = (Ok (), h)"
    and reported_metrics:
      "execute_tx ops tx h = (Ok (TxSuccess r m compressed trace gas_left), h') \<Longrightarrow>
       ExecutionMetricsForCriteria_new ext (Some tx) r = Some m"
    and success_not_halted:
      "execute_tx ops tx h = (Ok (TxSuccess r m compressed trace gas_left), h') \<Longrightarrow>
       revert_reason (result r) \<noteq> None"

text \<open>
  The documented behaviour of a VM with history: rolling back to a snapshot after running a transaction
  gives the state of the snapshot.
\<close>

definition history_enabled :: "('m, 'snap) VmOps \<Rightarrow> bool" where
  "history_enabled ops \<longleftrightarrow>
     (\<forall>tx compress m. case inspect_transaction_with_bytecode_compression ops tx compress m of
        (_, _, _, m') \<Rightarrow> vm_rollback ops (vm_snapshot ops m) m' = m)"

lemma inspect_history:
  assumes "history_enabled ops" "inspect ops ex tx compress vm = (p, r, trace, vm')"
  shows "snapshots vm' = snapshots vm" "vm_rollback ops (vm_snapshot ops (vm_state vm)) (vm_state vm') = vm_state vm"
  using assms by (auto simp: inspect_def history_enabled_def split: prod.splits)

lemma receiver_execute_snapshot:
  assumes h: "history_enabled ops" and run: "receiver_execute_tx ext ops ex tx vm = Some (r, vm')"
  shows "rollback_to_the_latest_snapshot ops vm' = Some vm"
proof (cases "optional_bytecode_compression ex")
  case False
  then show ?thesis using run h
    by (auto simp: receiver_execute_tx_def execute_tx_in_vm_def make_snapshot_def inspect_def
        history_enabled_def bind_eq_Some_conv split: prod.splits bool.splits)
next
  case True
  then show ?thesis using run h
    by (auto simp: receiver_execute_tx_def execute_tx_in_vm_with_optional_compression_def
        make_snapshot_def inspect_def history_enabled_def pop_snapshot_no_rollback_def bind_eq_Some_conv
        split: prod.splits bool.splits option.splits)
qed

lemma executed_result_success:
  assumes "executed_result ext tx gas_left res = Some (TxSuccess r m compressed trace left)"
  shows "ExecutionMetricsForCriteria_new ext (Some tx) r = Some m \<and> revert_reason (result r) \<noteq> None"
  using assms by (auto simp: executed_result_def split: prod.splits ExecutionResult.splits if_splits)

lemma main_execute_Ok:
  assumes "execute_tx (main_batch_executor ext ops access ex) tx h = (Ok res, h')"
  obtains vm vm' where "h = Running vm" "h' = Running vm'" "receiver_execute_tx ext ops ex tx vm = Some (res, vm')"
  using assms
  by (cases h) (auto simp: main_batch_executor_def split: if_splits option.splits prod.splits)

locale history_vm =
  fixes ops :: "('m, 'snap) VmOps"
  assumes history: "history_enabled ops"
begin

lemma main_executor: "executor ext (main_batch_executor ext ops access ex)"
proof (unfold_locales, goal_cases)
  case (1 tx h res h')
  then show ?case
    using receiver_execute_snapshot [OF history]
    by (elim main_execute_Ok) (simp add: main_batch_executor_def)
next
  case (2 tx h r m compressed trace gas_left h')
  then show ?case
    by (elim main_execute_Ok) (auto simp: receiver_execute_tx_def bind_eq_Some_conv dest!: executed_result_success)
next
  case (3 tx h r m compressed trace gas_left h')
  then show ?case
    by (elim main_execute_Ok) (auto simp: receiver_execute_tx_def bind_eq_Some_conv dest!: executed_result_success)
qed

end

sublocale history_vm \<subseteq> main: executor ext "main_batch_executor ext ops access ex"
  by (rule main_executor)

text \<open>A VM has history as soon as its snapshots are copies of its state.\<close>

definition with_history :: "('m, 'snap) VmOps \<Rightarrow> ('m, 'm) VmOps" where
  "with_history ops =
     \<lparr>vm_new = vm_new ops, vm_snapshot = (\<lambda>m. m), vm_rollback = (\<lambda>s m. s),
      inspect_transaction_with_bytecode_compression = inspect_transaction_with_bytecode_compression ops,
      get_last_tx_compressed_bytecodes = get_last_tx_compressed_bytecodes ops,
      vm_gas_remaining = vm_gas_remaining ops, start_new_l2_block = start_new_l2_block ops,
      vm_finish_batch = vm_finish_batch ops\<rparr>"

interpretation copies: history_vm "with_history ops"
  by unfold_locales (simp add: history_enabled_def with_history_def split: prod.splits)

end
