(* ===== verification/KeeperIO.thy ===== *)
theory KeeperIO
  imports BatchExecutor
begin

text \<open>
  The I/O of the state keeper: the trait \<open>StateKeeperIO\<close> of
  \<^verbatim>\<open>core/node/state_keeper/src/io/mod.rs\<close>, its implementation on the mempool
  (\<^verbatim>\<open>io/mempool.rs\<close>), the I/O seal criteria (\<^verbatim>\<open>seal_criteria/mod.rs\<close>) and the parameters of a new batch
  (\<^verbatim>\<open>core/lib/vm_utils/src/storage.rs\<close>).

  What the database, the clock, the fee provider and the tasks that share the mempool do is a \<open>World\<close>. Each
  interaction has a number, and the answers of the world may depend on it: the clock may go backwards, and
  the mempool may change between two accesses. A timeout is the number of rounds a polling loop makes
  before it fires, so that every loop ends.
\<close>

section \<open>Parameters of batches and blocks\<close>

record L1BatchParams =
  bp_protocol_version :: ProtocolVersionId
  bp_validation_computational_gas_limit :: u32
  bp_operator_address :: address
  bp_fee_input :: BatchFeeInput
  bp_first_l2_block :: L2BlockParams

record L2BlockExecutionData =
  xd_number :: u32
  xd_timestamp :: u64
  xd_prev_block_hash :: u256
  xd_virtual_blocks :: u32
  xd_txs :: "tx list"

record PendingBatchData =
  pb_l1_batch_env :: L1BatchEnv
  pb_system_env :: SystemEnv
  pb_pending_l2_blocks :: "L2BlockExecutionData list"

definition l1_batch_params ::
  "u32 \<Rightarrow> address \<Rightarrow> u64 \<Rightarrow> u256 \<Rightarrow> BatchFeeInput \<Rightarrow> u32 \<Rightarrow> u256 \<Rightarrow> u256 \<times> u256 \<Rightarrow> u32 \<Rightarrow>
   ProtocolVersionId \<Rightarrow> u32 \<Rightarrow> u64 \<Rightarrow> SystemEnv \<times> L1BatchEnv" where
  "l1_batch_params number fee_account timestamp prev_batch_hash fee_input first_block prev_hash
     contracts gas_lim version vbs chain =
     (\<lparr>env_version = version, env_base_system_contracts = contracts,
       env_validation_gas_limit = gas_lim, env_chain_id = chain\<rparr>,
      \<lparr>previous_batch_hash = Some prev_batch_hash, env_batch_number = number,
       env_batch_timestamp = timestamp, env_fee_input = fee_input, env_fee_account = fee_account,
       enforced_base_fee = None,
       first_l2_block = \<lparr>env_number = first_block, env_timestamp = timestamp,
         env_prev_block_hash = prev_hash, env_max_virtual_blocks_to_create = vbs\<rparr>\<rparr>)"

definition into_env ::
  "u64 \<Rightarrow> u256 \<times> u256 \<Rightarrow> IoCursor \<Rightarrow> u256 \<Rightarrow> L1BatchParams \<Rightarrow> SystemEnv \<times> L1BatchEnv" where
  "into_env chain contracts cursor prev_batch_hash p =
     l1_batch_params (cursor_l1_batch cursor) (bp_operator_address p)
       (params_timestamp (bp_first_l2_block p)) prev_batch_hash (bp_fee_input p) (next_l2_block cursor)
       (prev_l2_block_hash cursor) contracts (bp_validation_computational_gas_limit p)
       (bp_protocol_version p) (params_virtual_blocks (bp_first_l2_block p)) chain"

section \<open>The trait\<close>

record 'io StateKeeperIO =
  chain_id :: u64
  should_seal_l1_batch_unconditionally :: "UpdatesManager \<Rightarrow> (bool, 'io) action"
  should_seal_l2_block :: "UpdatesManager \<Rightarrow> (bool, 'io) action"
  initialize :: "(IoCursor \<times> PendingBatchData option, 'io) action"
  wait_for_new_batch_params :: "IoCursor \<Rightarrow> (L1BatchParams option, 'io) action"
  wait_for_new_l2_block_params :: "IoCursor \<Rightarrow> (L2BlockParams option, 'io) action"
  wait_for_next_tx :: "(tx option, 'io) action"
  io_rollback :: "tx \<Rightarrow> (unit, 'io) action"
  io_reject :: "tx \<Rightarrow> UnexecutableReason \<Rightarrow> (unit, 'io) action"
  load_base_system_contracts :: "ProtocolVersionId \<Rightarrow> (u256 \<times> u256, 'io) action"
  load_batch_version_id :: "u32 \<Rightarrow> (ProtocolVersionId, 'io) action"
  io_load_upgrade_tx :: "ProtocolVersionId \<Rightarrow> (TxData option, 'io) action"
  load_batch_state_hash :: "u32 \<Rightarrow> (u256 option, 'io) action"

text \<open>
  \<open>load_batch_state_hash\<close> is raced against the stop signal: \<open>None\<close> says the signal came first.
\<close>

section \<open>The world\<close>

type_synonym u128 = "128 word"

record World =
  w_now :: "nat \<Rightarrow> u128"
  w_now_after_sleep :: "nat \<Rightarrow> u64 \<Rightarrow> u128"
  w_sleep_rounds :: "nat \<Rightarrow> nat"
  w_poll_rounds :: "nat \<Rightarrow> nat"
  w_sync :: "nat \<Rightarrow> TxData MempoolStore \<Rightarrow> TxData MempoolStore"
  w_protocol_version :: "nat \<Rightarrow> u64 \<Rightarrow> string + ProtocolVersionId"
  w_fee_input :: "nat \<Rightarrow> string + BatchFeeInput"
  w_mark_rejected :: "nat \<Rightarrow> u256 \<Rightarrow> string + unit"
  w_last_sealed_batch :: "string + u32 option"
  w_last_l2_block :: "string + (u32 \<times> u256 \<times> u64) option"
  w_snapshot :: "string + (u32 \<times> u32 \<times> u256 \<times> u64) option"
  w_clear_pending :: "u32 \<Rightarrow> string + unit"
  w_pending_env :: "u32 \<Rightarrow> string + (SystemEnv \<times> L1BatchEnv) option"
  w_blocks_to_reexecute :: "string + L2BlockExecutionData list"
  w_base_system_contracts :: "ProtocolVersionId \<Rightarrow> string + (u256 \<times> u256) option"
  w_batch_version :: "u32 \<Rightarrow> string + ProtocolVersionId option"
  w_upgrade_tx :: "nat \<Rightarrow> ProtocolVersionId \<Rightarrow> string + TxData option"
  w_batch_state_hash :: "nat \<Rightarrow> u32 \<Rightarrow> string + u256 option"

section \<open>I/O seal criteria\<close>

record TimeoutSealer =
  ts_block_commit_deadline_ms :: u64
  ts_l2_block_commit_deadline_ms :: u64

definition TimeoutSealer_new :: "StateKeeperConfig \<Rightarrow> TimeoutSealer" where
  "TimeoutSealer_new cfg = \<lparr>ts_block_commit_deadline_ms = block_commit_deadline_ms cfg,
     ts_l2_block_commit_deadline_ms = l2_block_commit_deadline_ms cfg\<rparr>"

definition millis_since :: "u128 \<Rightarrow> u64 \<Rightarrow> u64" where
  "millis_since now since = ucast (now - ucast since * 1000)"

definition timeout_should_seal_l1_batch :: "TimeoutSealer \<Rightarrow> u128 \<Rightarrow> UpdatesManager \<Rightarrow> bool" where
  "timeout_should_seal_l1_batch s now um \<longleftrightarrow>
     pending_executed_transactions_len um \<noteq> 0 \<and>
     millis_since now (batch_timestamp um) > ts_block_commit_deadline_ms s"

definition timeout_should_seal_l2_block :: "TimeoutSealer \<Rightarrow> u128 \<Rightarrow> UpdatesManager \<Rightarrow> bool" where
  "timeout_should_seal_l2_block s now um \<longleftrightarrow>
     executed_transactions (l2_block um) \<noteq> [] \<and>
     millis_since now (block_timestamp (l2_block um)) > ts_l2_block_commit_deadline_ms s"

definition payload_should_seal_l2_block :: "nat \<Rightarrow> UpdatesManager \<Rightarrow> bool" where
  "payload_should_seal_l2_block max_payload_size um \<longleftrightarrow>
     payload_encoding_size (l2_block um) \<ge> max_payload_size"

section \<open>The I/O on the mempool\<close>

record MempoolIO =
  io_ticks :: nat
  io_mempool :: "TxData MempoolStore"
  io_filter :: L2TxFilter
  io_filter_fee_input :: BatchFeeInput
  io_timeout_sealer :: TimeoutSealer
  io_max_payload_size :: nat
  io_fee_account :: address
  io_validation_gas_limit :: u32
  io_max_allowed_tx_gas_limit :: u256
  io_delay_interval :: u64
  io_chain_id :: u64
  io_rejected :: "(u256 \<times> UnexecutableReason) list"

definition MempoolIO_new ::
  "StateKeeperConfig \<Rightarrow> u32 \<Rightarrow> TxData MempoolStore \<Rightarrow> address \<Rightarrow> u64 \<Rightarrow> u64 \<Rightarrow> MempoolIO" where
  "MempoolIO_new cfg gas_lim m fee_account delay chain =
     \<lparr>io_ticks = 0, io_mempool = m, io_filter = \<lparr>fee_per_gas = 0, gas_per_pubdata = 0\<rparr>,
      io_filter_fee_input = BatchFeeInput_default, io_timeout_sealer = TimeoutSealer_new cfg,
      io_max_payload_size = l2_block_max_payload_size cfg, io_fee_account = fee_account,
      io_validation_gas_limit = gas_lim,
      io_max_allowed_tx_gas_limit = ucast (max_allowed_l2_tx_gas_limit cfg),
      io_delay_interval = delay, io_chain_id = chain, io_rejected = []\<rparr>"

text \<open>One interaction with the world.\<close>

definition ask :: "(nat \<Rightarrow> 'a) \<Rightarrow> ('a, MempoolIO) action" where
  "ask f io = (Ok (f (io_ticks io)), io\<lparr>io_ticks := io_ticks io + 1\<rparr>)"

definition ask_db :: "(nat \<Rightarrow> string + 'a) \<Rightarrow> ('a, MempoolIO) action" where
  "ask_db f = bind_action (ask f) (\<lambda>r. lift (of_result r))"

text \<open>The other tasks run before the mempool is locked.\<close>

definition sync_mempool :: "World \<Rightarrow> (unit, MempoolIO) action" where
  "sync_mempool w io = (Ok (), io\<lparr>io_mempool := w_sync w (io_ticks io) (io_mempool io), io_ticks := io_ticks io + 1\<rparr>)"

definition mp_should_seal_l1_batch :: "World \<Rightarrow> UpdatesManager \<Rightarrow> (bool, MempoolIO) action" where
  "mp_should_seal_l1_batch w um io =
     bind_action (ask (w_now w)) (\<lambda>now. return (timeout_should_seal_l1_batch (io_timeout_sealer io) now um)) io"

definition mp_should_seal_l2_block :: "World \<Rightarrow> UpdatesManager \<Rightarrow> (bool, MempoolIO) action" where
  "mp_should_seal_l2_block w um io =
     bind_action (ask (w_now w)) (\<lambda>now. return
       (if timeout_should_seal_l2_block (io_timeout_sealer io) now um then True
        else payload_should_seal_l2_block (io_max_payload_size io) um)) io"

section \<open>Waiting\<close>

definition poll_iters :: "u64 \<Rightarrow> u64 \<Rightarrow> nat option" where
  "poll_iters delay_interval_millis max_wait_millis =
     (if delay_interval_millis > 0
      then Some (unat (max ((max_wait_millis + delay_interval_millis - 1) div delay_interval_millis) 1))
      else None)"

definition POLL_WAIT_DURATION :: u64 where "POLL_WAIT_DURATION = 1000"

definition seconds :: "u128 \<Rightarrow> u64" where
  "seconds millis = ucast (millis div 1000)"

definition sleep_millis :: "u64 \<Rightarrow> u128 \<Rightarrow> u64 \<Rightarrow> u64" where
  "sleep_millis timestamp millis current = (1001 - ucast (millis mod 1000)) + (timestamp - current) * 1000"

text \<open>
  The loop of \<open>sleep_past\<close> has no bound of its own; \<open>n\<close> is fuel, the number of sleeps it is given. \<open>None\<close> says that
  it is still asleep after them.
\<close>

fun sleep_loop :: "World \<Rightarrow> nat \<Rightarrow> u64 \<Rightarrow> u128 \<Rightarrow> u64 \<Rightarrow> (u64 option, MempoolIO) action" where
  "sleep_loop w 0 timestamp millis current = return None"
| "sleep_loop w (Suc n) timestamp millis current =
     bind_action (ask (\<lambda>t. w_now_after_sleep w t (sleep_millis timestamp millis current))) (\<lambda>millis'.
       if seconds millis' > timestamp then return (Some (seconds millis'))
       else sleep_loop w n timestamp millis' (seconds millis'))"

definition sleep_past :: "World \<Rightarrow> nat \<Rightarrow> u64 \<Rightarrow> (u64 option, MempoolIO) action" where
  "sleep_past w n timestamp =
     bind_action (ask (w_now w)) (\<lambda>millis.
       if timestamp < seconds millis then return (Some (seconds millis))
       else sleep_loop w n timestamp millis (seconds millis))"

text \<open>
  The callers run \<open>sleep_past\<close> under \<open>tokio::time::timeout\<close>, which drops it at a sleep when the time is over: after a number
  of sleeps that the world decides.
\<close>

definition timeout :: "World \<Rightarrow> (nat \<Rightarrow> ('a option, MempoolIO) action) \<Rightarrow> ('a option, MempoolIO) action" where
  "timeout w future = bind_action (ask (w_sleep_rounds w)) future"

definition l2_tx_filter :: "World \<Rightarrow> VmVersion \<Rightarrow> (BatchFeeInput \<times> L2TxFilter, MempoolIO) action" where
  "l2_tx_filter w v =
     bind_action (ask_db (w_fee_input w)) (\<lambda>fee_input.
     bind_action (lift (of_option (derive_base_fee_and_gas_per_pubdata fee_input v))) (\<lambda>(base_fee, per_pubdata).
     return (fee_input, \<lparr>fee_per_gas = base_fee, gas_per_pubdata = ucast per_pubdata\<rparr>)))"

definition set_filter :: "BatchFeeInput \<times> L2TxFilter \<Rightarrow> (unit, MempoolIO) action" where
  "set_filter f io = (Ok (), io\<lparr>io_filter := snd f, io_filter_fee_input := fst f\<rparr>)"

definition mempool_has_next :: "World \<Rightarrow> (bool, MempoolIO) action" where
  "mempool_has_next w = bind_action (sync_mempool w) (\<lambda>_ io. (Ok (has_next (io_filter io) (io_mempool io)), io))"

fun batch_params_loop :: "World \<Rightarrow> IoCursor \<Rightarrow> nat \<Rightarrow> (L1BatchParams option, MempoolIO) action" where
  "batch_params_loop w cursor 0 = return None"
| "batch_params_loop w cursor (Suc n) =
     bind_action (timeout w (\<lambda>n. sleep_past w n (prev_l2_block_timestamp cursor))) (\<lambda>slept.
       case slept of
         None \<Rightarrow> return None
       | Some timestamp \<Rightarrow>
           bind_action (ask_db (\<lambda>t. w_protocol_version w t timestamp)) (\<lambda>version.
           bind_action (l2_tx_filter w (vm_version_from version)) (\<lambda>f.
           bind_action (set_filter f) (\<lambda>_.
           bind_action (mempool_has_next w) (\<lambda>has.
             if has
             then (\<lambda>io. (Ok (Some
               \<lparr>bp_protocol_version = version,
                bp_validation_computational_gas_limit = io_validation_gas_limit io,
                bp_operator_address = io_fee_account io, bp_fee_input = io_filter_fee_input io,
                bp_first_l2_block = \<lparr>params_timestamp = timestamp, params_virtual_blocks = 1\<rparr>\<rparr>), io))
             else batch_params_loop w cursor n)))))"

definition mp_wait_for_new_batch_params :: "World \<Rightarrow> IoCursor \<Rightarrow> (L1BatchParams option, MempoolIO) action" where
  "mp_wait_for_new_batch_params w cursor io =
     bind_action (lift (of_option (poll_iters (io_delay_interval io) POLL_WAIT_DURATION)))
       (batch_params_loop w cursor) io"

definition mp_wait_for_new_l2_block_params :: "World \<Rightarrow> IoCursor \<Rightarrow> (L2BlockParams option, MempoolIO) action" where
  "mp_wait_for_new_l2_block_params w cursor =
     bind_action (timeout w (\<lambda>n. sleep_past w n (prev_l2_block_timestamp cursor))) (\<lambda>slept.
       return (map_option (\<lambda>ts. \<lparr>params_timestamp = ts, params_virtual_blocks = 1\<rparr>) slept))"

section \<open>Transactions\<close>

definition mempool_rollback :: "tx \<Rightarrow> (unit, MempoolIO) action" where
  "mempool_rollback tx io =
     (case rollback tx (io_mempool io) of None \<Rightarrow> (Panic, io) | Some m \<Rightarrow> (Ok (), io\<lparr>io_mempool := m\<rparr>))"

definition mempool_insert :: "tx list \<Rightarrow> (address \<Rightarrow> u32 option) \<Rightarrow> (unit, MempoolIO) action" where
  "mempool_insert txs nonces io =
     (case mp_insert txs nonces (io_mempool io) of None \<Rightarrow> (Panic, io) | Some m \<Rightarrow> (Ok (), io\<lparr>io_mempool := m\<rparr>))"

definition mp_rollback :: "World \<Rightarrow> tx \<Rightarrow> (unit, MempoolIO) action" where
  "mp_rollback w tx =
     bind_action (sync_mempool w) (\<lambda>_.
     bind_action (mempool_rollback tx) (\<lambda>_.
     bind_action (sync_mempool w) (\<lambda>_.
     mempool_insert [tx] Map.empty)))"

definition mp_reject :: "World \<Rightarrow> tx \<Rightarrow> UnexecutableReason \<Rightarrow> (unit, MempoolIO) action" where
  "mp_reject w tx reason =
     (if is_l1 tx then lift (Err (Fatal ''L1 transactions should not be rejected''))
      else
        bind_action (sync_mempool w) (\<lambda>_.
        bind_action (mempool_rollback tx) (\<lambda>_.
        bind_action (ask_db (\<lambda>t. w_mark_rejected w t (tx_hash tx))) (\<lambda>_ io.
          (Ok (), io\<lparr>io_rejected := io_rejected io @ [(tx_hash tx, reason)]\<rparr>)))))"

definition mempool_next :: "World \<Rightarrow> (tx option, MempoolIO) action" where
  "mempool_next w =
     bind_action (sync_mempool w) (\<lambda>_ io.
       (case next_transaction (io_filter io) (io_mempool io) of
          None \<Rightarrow> (Panic, io)
        | Some (tx, m) \<Rightarrow> (Ok tx, io\<lparr>io_mempool := m\<rparr>)))"

text \<open>The first argument is the number of rounds before the time is over.\<close>

fun next_tx_loop :: "World \<Rightarrow> nat \<Rightarrow> (tx option, MempoolIO) action" where
  "next_tx_loop w 0 = return None"
| "next_tx_loop w (Suc n) =
     bind_action (mempool_next w) (\<lambda>maybe_tx io.
       (case maybe_tx of
          None \<Rightarrow> next_tx_loop w n io
        | Some tx \<Rightarrow>
            if tx_gas_limit tx > io_max_allowed_tx_gas_limit io
            then bind_action (mp_reject w tx (ReasonHalt TooBigGasLimit)) (\<lambda>_. next_tx_loop w n) io
            else (Ok (Some tx), io)))"

definition mp_wait_for_next_tx :: "World \<Rightarrow> (tx option, MempoolIO) action" where
  "mp_wait_for_next_tx w = bind_action (ask (w_poll_rounds w)) (next_tx_loop w)"

section \<open>Start\<close>

definition IoCursor_new :: "World \<Rightarrow> string + IoCursor" where
  "IoCursor_new w =
     bind_result (w_last_sealed_batch w) (\<lambda>batch.
     bind_result (w_last_l2_block w) (\<lambda>block.
       case (batch, block) of
         (Some b, Some (n, h, ts)) \<Rightarrow>
           Inr \<lparr>next_l2_block = n + 1, prev_l2_block_hash = h, prev_l2_block_timestamp = ts, cursor_l1_batch = b + 1\<rparr>
       | _ \<Rightarrow>
           bind_result (w_snapshot w) (\<lambda>snapshot.
             case snapshot of
               None \<Rightarrow> Inl ''Postgres contains neither blocks nor snapshot recovery info''
             | Some (sb, sn, sh, sts) \<Rightarrow>
                 (let l1_batch = (case batch of Some b \<Rightarrow> b | None \<Rightarrow> sb) + 1;
                      (n, h, ts) = (case block of Some x \<Rightarrow> x | None \<Rightarrow> (sn, sh, sts))
                  in Inr \<lparr>next_l2_block = n + 1, prev_l2_block_hash = h, prev_l2_block_timestamp = ts,
                          cursor_l1_batch = l1_batch\<rparr>))))"

definition load_pending_batch :: "World \<Rightarrow> SystemEnv \<Rightarrow> L1BatchEnv \<Rightarrow> string + PendingBatchData" where
  "load_pending_batch w se be =
     bind_result (w_blocks_to_reexecute w) (\<lambda>blocks.
       case blocks of
         [] \<Rightarrow> Inl ''no pending L2 blocks; was environment loaded for a correct L1 batch number?''
       | b # _ \<Rightarrow>
           if xd_number b = env_number (first_l2_block be)
           then Inr \<lparr>pb_l1_batch_env = be, pb_system_env = se, pb_pending_l2_blocks = blocks\<rparr>
           else Inl ''Invalid L1BatchEnv supplied'')"

definition mp_initialize :: "World \<Rightarrow> (IoCursor \<times> PendingBatchData option, MempoolIO) action" where
  "mp_initialize w =
     bind_action (lift (of_result (IoCursor_new w))) (\<lambda>cursor.
     bind_action (lift (of_result (w_clear_pending w (next_l2_block cursor - 1)))) (\<lambda>_.
     bind_action (lift (of_result (w_pending_env w (cursor_l1_batch cursor)))) (\<lambda>env.
       case env of
         None \<Rightarrow> return (cursor, None)
       | Some (se, be) \<Rightarrow>
           bind_action (lift (of_result (load_pending_batch w se be))) (\<lambda>pending.
           bind_action (lift (of_option (derive_base_fee_and_gas_per_pubdata
               (env_fee_input (pb_l1_batch_env pending)) (vm_version_from (env_version (pb_system_env pending))))))
             (\<lambda>(base_fee, per_pubdata).
           bind_action (set_filter (env_fee_input (pb_l1_batch_env pending),
               \<lparr>fee_per_gas = base_fee, gas_per_pubdata = ucast per_pubdata\<rparr>)) (\<lambda>_.
           return (cursor, Some pending)))))))"

definition present :: "string \<Rightarrow> string + 'a option \<Rightarrow> string + 'a" where
  "present e r = bind_result r (\<lambda>x. case x of None \<Rightarrow> Inl e | Some y \<Rightarrow> Inr y)"

definition mempool_io :: "World \<Rightarrow> u64 \<Rightarrow> MempoolIO StateKeeperIO" where
  "mempool_io w chain =
     \<lparr>chain_id = chain,
      should_seal_l1_batch_unconditionally = mp_should_seal_l1_batch w,
      should_seal_l2_block = mp_should_seal_l2_block w,
      initialize = mp_initialize w,
      wait_for_new_batch_params = mp_wait_for_new_batch_params w,
      wait_for_new_l2_block_params = mp_wait_for_new_l2_block_params w,
      wait_for_next_tx = mp_wait_for_next_tx w,
      io_rollback = mp_rollback w,
      io_reject = mp_reject w,
      load_base_system_contracts = (\<lambda>v. lift (of_result
        (present ''no base system contracts persisted for protocol version'' (w_base_system_contracts w v)))),
      load_batch_version_id = (\<lambda>n. lift (of_result (present ''L1 batch misses protocol version'' (w_batch_version w n)))),
      io_load_upgrade_tx = (\<lambda>v. ask_db (\<lambda>t. w_upgrade_tx w t v)),
      load_batch_state_hash = (\<lambda>n. ask_db (\<lambda>t. w_batch_state_hash w t n))\<rparr>"

section \<open>Timestamps\<close>

lemmas action_simps = bind_action_def return_def lift_def ask_def

lemma sleep_loop_later:
  "sleep_loop w n timestamp millis current io = (Ok (Some t), io') \<Longrightarrow> timestamp < t"
  by (induction w n timestamp millis current arbitrary: io rule: sleep_loop.induct)
     (auto simp: action_simps split: if_splits)

lemma sleep_past_later: "timeout w (\<lambda>n. sleep_past w n timestamp) io = (Ok (Some t), io') \<Longrightarrow> timestamp < t"
  by (auto simp: timeout_def sleep_past_def action_simps dest: sleep_loop_later split: if_splits)

lemma batch_params_loop_later:
  "batch_params_loop w cursor n io = (Ok (Some p), io') \<Longrightarrow>
   prev_l2_block_timestamp cursor < params_timestamp (bp_first_l2_block p)"
proof (induction w cursor n arbitrary: io rule: batch_params_loop.induct)
  case (2 w cursor n)
  obtain ts io1 where s: "timeout w (\<lambda>n. sleep_past w n (prev_l2_block_timestamp cursor)) io = (Ok (Some ts), io1)"
    using 2(2) by (auto simp: bind_action_Ok return_def split: option.splits)
  show ?case
    using 2 sleep_past_later [OF s] s
    by (auto simp: bind_action_Ok split: if_splits prod.splits)
qed (simp add: return_def)

text \<open>
  What the state keeper relies on: the bootloader forbids two blocks or batches with the same timestamp, so the
  parameters of a new block or batch are later than the previous block.
\<close>

locale keeper_io =
  fixes ops :: "'io StateKeeperIO"
  assumes block_later:
      "wait_for_new_l2_block_params ops cursor io = (Ok (Some p), io') \<Longrightarrow>
       prev_l2_block_timestamp cursor < params_timestamp p"
    and batch_later:
      "wait_for_new_batch_params ops cursor io = (Ok (Some bp), io') \<Longrightarrow>
       prev_l2_block_timestamp cursor < params_timestamp (bp_first_l2_block bp)"

interpretation mempool_sequencer: keeper_io "mempool_io w chain"
proof (unfold_locales, goal_cases)
  case (1 cursor io p io')
  then show ?case
    by (auto simp: mempool_io_def mp_wait_for_new_l2_block_params_def bind_action_Ok return_def dest: sleep_past_later)
next
  case (2 cursor io bp io')
  then show ?case
    by (auto simp: mempool_io_def mp_wait_for_new_batch_params_def bind_action_Ok dest: batch_params_loop_later)
qed

section \<open>Termination of the wait\<close>

text \<open>
  A clock that does not go backwards, sleeps at least as long as it is asked to, as documented for
  \<open>tokio::time::sleep\<close>, and counts seconds in 64 bits.
\<close>

definition steady_clock :: "World \<Rightarrow> bool" where
  "steady_clock w \<longleftrightarrow>
     (\<forall>t t' d. t < t' \<longrightarrow> unat (w_now w t) + unat d \<le> unat (w_now_after_sleep w t' d)) \<and>
     (\<forall>t. unat (w_now w t) < 1000 * 2 ^ 53) \<and> (\<forall>t d. unat (w_now_after_sleep w t d) < 1000 * 2 ^ 64)"

lemma unat_seconds: "unat m < 1000 * 2 ^ 64 \<Longrightarrow> unat (seconds m) = unat m div 1000"
  by (simp add: seconds_def unsigned_ucast_eq unat_div_distrib take_bit_nat_def)

lemma sleep_millis_nat:
  assumes "unat ts < 2 ^ 53" "unat m < 1000 * 2 ^ 53" "seconds m \<le> ts"
  shows "unat (sleep_millis ts m (seconds m)) = 1001 - unat m mod 1000 + (unat ts - unat m div 1000) * 1000"
proof -
  have s: "unat (seconds m) = unat m div 1000" using assms(2) by (simp add: unat_seconds)
  have le: "unat m div 1000 \<le> unat ts" using assms(3) s by (simp add: word_le_nat_alt)
  have a: "unat (1001 - ucast (m mod 1000) :: u64) = 1001 - unat m mod 1000"
  proof -
    have u: "unat (ucast (m mod 1000) :: u64) = unat m mod 1000"
      by (simp add: unsigned_ucast_eq unat_mod_distrib take_bit_nat_eq_self less_trans [OF mod_less_divisor])
    then have "(ucast (m mod 1000) :: u64) \<le> 1001" by (simp add: word_le_nat_alt)
    then show ?thesis using u by (simp add: unat_sub)
  qed
  have b: "unat ((ts - seconds m) * 1000) = (unat ts - unat m div 1000) * 1000"
  proof -
    have mult: "unat (x * 1000) = unat x * 1000" if "unat x < 2 ^ 53" for x :: u64
      using that by (simp add: unat_word_ariths)
    have d: "unat (ts - seconds m) = unat ts - unat m div 1000" by (simp add: unat_sub [OF assms(3)] s)
    then show ?thesis using assms(1) mult [of "ts - seconds m"] by simp
  qed
  show ?thesis unfolding sleep_millis_def using a b assms(1)
    by (simp add: unat_word_ariths)
qed

lemma slept_enough:
  fixes ts m m' :: nat
  assumes "m div 1000 \<le> ts" "m + (1001 - m mod 1000 + (ts - m div 1000) * 1000) \<le> m'"
  shows "ts < m' div 1000"
proof -
  have split: "1000 * (m div 1000) + m mod 1000 = m" "m mod 1000 < 1000" by simp_all
  obtain e where e: "ts = m div 1000 + e" using assms(1) by (auto simp: le_iff_add)
  have "1000 * (m div 1000) + 1001 + e * 1000 \<le> m'" using assms(2) split unfolding e by linarith
  then have "(ts + 1) * 1000 \<le> m'" unfolding e by simp
  then have "ts + 1 \<le> m' div 1000" by (simp add: less_eq_div_iff_mult_less_eq)
  then show ?thesis by simp
qed

text \<open>
  C40. Waiting ends: on such a clock, the unbounded loop of \<open>sleep_past\<close> ends after at most one sleep, with a time later than the given
  one, whatever the difference between them: with any positive fuel the result is the same time, reached after at
  most two readings of the clock. The computation of the sleep does not underflow.
\<close>

theorem sleep_past_returns:
  assumes "steady_clock w" "unat timestamp < 2 ^ 53"
  shows "\<exists>t io'. timestamp < t \<and> io_ticks io' \<le> io_ticks io + 2 \<and>
    (\<forall>n>0. sleep_past w n timestamp io = (Ok (Some t), io'))"
proof (cases "timestamp < seconds (w_now w (io_ticks io))")
  case True
  then show ?thesis
    by (intro exI [of _ "seconds (w_now w (io_ticks io))"] exI [of _ "io\<lparr>io_ticks := io_ticks io + 1\<rparr>"])
       (simp add: sleep_past_def action_simps)
next
  case False
  define m where "m = w_now w (io_ticks io)"
  define d where "d = sleep_millis timestamp m (seconds m)"
  define m' where "m' = w_now_after_sleep w (Suc (io_ticks io)) d"
  have m: "unat m < 1000 * 2 ^ 53" and m': "unat m' < 1000 * 2 ^ 64" and le: "unat m + unat d \<le> unat m'"
    using assms(1) unfolding steady_clock_def m_def m'_def by auto
  have "unat d = 1001 - unat m mod 1000 + (unat timestamp - unat m div 1000) * 1000"
    unfolding d_def using False m assms(2) by (intro sleep_millis_nat) (auto simp: m_def)
  moreover have "unat m div 1000 \<le> unat timestamp"
    using False m by (simp add: m_def [symmetric] word_less_nat_alt unat_seconds not_less)
  ultimately have "unat timestamp < unat m' div 1000" using le by (intro slept_enough [of "unat m"]) (simp_all only:)
  then have later: "timestamp < seconds m'" using m' by (simp add: word_less_nat_alt unat_seconds)
  have "sleep_past w n timestamp io = (Ok (Some (seconds m')), io\<lparr>io_ticks := io_ticks io + 2\<rparr>)" if "0 < n" for n
    using that False later
    by (cases n) (simp_all add: sleep_past_def action_simps m_def [symmetric] d_def [symmetric] m'_def [symmetric])
  then show ?thesis using later by (intro exI [of _ "seconds m'"] exI [of _ "io\<lparr>io_ticks := io_ticks io + 2\<rparr>"]) simp
qed

definition demo_world :: World where
  "demo_world = \<lparr>w_now = (\<lambda>t. 100000), w_now_after_sleep = (\<lambda>t d. 100000 + ucast d),
     w_sleep_rounds = (\<lambda>_. 1), w_poll_rounds = (\<lambda>_. 1), w_sync = (\<lambda>_ m. m),
     w_protocol_version = (\<lambda>_ _. Inr Version24), w_fee_input = (\<lambda>_. Inr sensible_l1_pegged_default),
     w_mark_rejected = (\<lambda>_ _. Inr ()), w_last_sealed_batch = Inr (Some 0),
     w_last_l2_block = Inr (Some (0, 0, 99)), w_snapshot = Inr None, w_clear_pending = (\<lambda>_. Inr ()),
     w_pending_env = (\<lambda>_. Inr None), w_blocks_to_reexecute = Inr [],
     w_base_system_contracts = (\<lambda>_. Inr (Some (0, 0))), w_batch_version = (\<lambda>_. Inr (Some Version24)),
     w_upgrade_tx = (\<lambda>_ _. Inr None), w_batch_state_hash = (\<lambda>_ _. Inr (Some 0))\<rparr>"

lemma unat_u64_u128: "unat (ucast (d :: u64) :: u128) = unat d"
  using unsigned_less [of d, where 'a = nat]
  by (simp add: unsigned_ucast_eq take_bit_nat_eq_self)

lemma demo_world_steady: "steady_clock demo_world"
proof -
  have "unat (100000 + ucast d :: u128) = 100000 + unat d" for d :: u64
    using unsigned_less [of d, where 'a = nat] by (simp add: unat_word_ariths unat_u64_u128)
  moreover have "100000 + unat d < 1000 * 2 ^ 64" for d :: u64
    using unsigned_less [of d, where 'a = nat] by simp
  ultimately show ?thesis by (simp add: steady_clock_def demo_world_def)
qed

definition demo_io :: MempoolIO where
  "demo_io = MempoolIO_new demo_config 0 (MempoolStore_new 0 100) 1 100 270"

theorem sleep_past_returns_witness:
  "\<exists>t io'. sleep_past demo_world 1 107 demo_io = (Ok (Some t), io') \<and> 107 < t"
  using sleep_past_returns [OF demo_world_steady, of 107 demo_io] by auto

end
