(* ===== verification/StateKeeper.thy ===== *)
theory StateKeeper
  imports KeeperIO
begin

text \<open>
  The state keeper: \<^verbatim>\<open>core/node/state_keeper/src/keeper.rs\<close>, which takes transactions from the I/O,
  runs them in the batch executor and turns them into L2 blocks and L1 batches, and the output
  handlers it feeds (\<^verbatim>\<open>io/output_handler.rs\<close>).

  The state holds the I/O, the handle of the executor, the updates manager and the history of the
  outputs. The stop signal is the number of times \<open>is_canceled\<close> will still answer no; a loop that
  polls it recurses on that number. A handler is a function from the history, which ends with the output
  it is given, to its result.
\<close>

section \<open>State\<close>

datatype Output = Initialized IoCursor | L2BlockSealed UpdatesManager | L1BatchSealed UpdatesManager

type_synonym handler = "Output list \<Rightarrow> string + unit"

record ('io, 'vm) Parts =
  p_ext :: Externals
  p_hw :: nat
  p_io :: "'io StateKeeperIO"
  p_executor :: "'vm BatchExecutor"
  p_handlers :: "handler list"
  p_sealer :: ConditionalSealer

record ('io, 'vm) ZkSyncStateKeeper =
  k_io :: 'io
  batch_executor :: 'vm
  updates_manager :: UpdatesManager
  k_outputs :: "Output list"
  k_stop :: nat

definition on_io :: "('a, 'io) action \<Rightarrow> ('a, ('io, 'vm) ZkSyncStateKeeper) action" where
  "on_io m k = (case m (k_io k) of (r, io) \<Rightarrow> (r, k\<lparr>k_io := io\<rparr>))"

definition on_executor :: "('a, 'vm) action \<Rightarrow> ('a, ('io, 'vm) ZkSyncStateKeeper) action" where
  "on_executor m k = (case m (batch_executor k) of (r, vm) \<Rightarrow> (r, k\<lparr>batch_executor := vm\<rparr>))"

definition set_updates :: "UpdatesManager option \<Rightarrow> (unit, ('io, 'vm) ZkSyncStateKeeper) action" where
  "set_updates um k =
     (case um of None \<Rightarrow> (Panic, k) | Some um' \<Rightarrow> (Ok (), k\<lparr>updates_manager := um'\<rparr>))"

definition is_canceled :: "('io, 'vm) ZkSyncStateKeeper \<Rightarrow> bool" where
  "is_canceled k \<longleftrightarrow> k_stop k = 0"

definition polled :: "('io, 'vm) ZkSyncStateKeeper \<Rightarrow> ('io, 'vm) ZkSyncStateKeeper" where
  "polled k = k\<lparr>k_stop := k_stop k - 1\<rparr>"

section \<open>Outputs\<close>

fun run_handlers :: "handler list \<Rightarrow> Output list \<Rightarrow> string + unit" where
  "run_handlers [] outputs = Inr ()"
| "run_handlers (h # hs) outputs = bind_result (h outputs) (\<lambda>_. run_handlers hs outputs)"

definition handle_output ::
  "('io, 'vm) Parts \<Rightarrow> Output \<Rightarrow> (unit, ('io, 'vm) ZkSyncStateKeeper) action" where
  "handle_output p out k =
     (let outputs = k_outputs k @ [out]
      in (of_result (run_handlers (p_handlers p) outputs), k\<lparr>k_outputs := outputs\<rparr>))"

definition seal_l2_block :: "('io, 'vm) Parts \<Rightarrow> (unit, ('io, 'vm) ZkSyncStateKeeper) action" where
  "seal_l2_block p k = handle_output p (L2BlockSealed (updates_manager k)) k"

section \<open>Waiting for parameters\<close>

fun wait_batch_loop ::
  "('io, 'vm) Parts \<Rightarrow> IoCursor \<Rightarrow> nat \<Rightarrow> (L1BatchParams, ('io, 'vm) ZkSyncStateKeeper) action" where
  "wait_batch_loop p cursor 0 k = (Err Canceled, k)"
| "wait_batch_loop p cursor (Suc n) k =
     (if is_canceled k then (Err Canceled, k)
      else bind_action (on_io (wait_for_new_batch_params (p_io p) cursor)) (\<lambda>r.
        case r of Some params \<Rightarrow> return params | None \<Rightarrow> wait_batch_loop p cursor n) (polled k))"

definition keeper_wait_for_new_batch_params ::
  "('io, 'vm) Parts \<Rightarrow> IoCursor \<Rightarrow> (L1BatchParams, ('io, 'vm) ZkSyncStateKeeper) action" where
  "keeper_wait_for_new_batch_params p cursor k = wait_batch_loop p cursor (k_stop k) k"

definition wait_for_new_batch_env ::
  "('io, 'vm) Parts \<Rightarrow> IoCursor \<Rightarrow> (SystemEnv \<times> L1BatchEnv, ('io, 'vm) ZkSyncStateKeeper) action" where
  "wait_for_new_batch_env p cursor =
     bind_action (keeper_wait_for_new_batch_params p cursor) (\<lambda>params.
     bind_action (on_io (load_base_system_contracts (p_io p) (bp_protocol_version params))) (\<lambda>contracts.
     bind_action (on_io (load_batch_state_hash (p_io p) (cursor_l1_batch cursor - 1))) (\<lambda>hash.
       case hash of
         None \<Rightarrow> lift (Err Canceled)
       | Some prev \<Rightarrow>
           return (into_env (chain_id (p_io p)) contracts cursor prev params))))"

fun wait_block_loop ::
  "('io, 'vm) Parts \<Rightarrow> IoCursor \<Rightarrow> nat \<Rightarrow> (L2BlockParams, ('io, 'vm) ZkSyncStateKeeper) action" where
  "wait_block_loop p cursor 0 k = (Err Canceled, k)"
| "wait_block_loop p cursor (Suc n) k =
     (if is_canceled k then (Err Canceled, k)
      else bind_action (on_io (wait_for_new_l2_block_params (p_io p) cursor)) (\<lambda>r.
        case r of Some params \<Rightarrow> return params | None \<Rightarrow> wait_block_loop p cursor n) (polled k))"

definition keeper_wait_for_new_l2_block_params ::
  "('io, 'vm) Parts \<Rightarrow> (L2BlockParams, ('io, 'vm) ZkSyncStateKeeper) action" where
  "keeper_wait_for_new_l2_block_params p k =
     wait_block_loop p (io_cursor (p_ext p) (updates_manager k)) (k_stop k) k"

definition keeper_start_next_l2_block ::
  "('io, 'vm) Parts \<Rightarrow> L2BlockParams \<Rightarrow> (unit, ('io, 'vm) ZkSyncStateKeeper) action" where
  "keeper_start_next_l2_block p params k =
     (let um = push_l2_block (p_ext p) params (updates_manager k)
      in on_executor (start_next_l2_block (p_executor p) (get_env (l2_block um))) (k\<lparr>updates_manager := um\<rparr>))"

definition open_next_l2_block :: "('io, 'vm) Parts \<Rightarrow> (unit, ('io, 'vm) ZkSyncStateKeeper) action" where
  "open_next_l2_block p =
     bind_action (keeper_wait_for_new_l2_block_params p) (keeper_start_next_l2_block p)"

section \<open>One transaction\<close>

definition first_tx_rejected :: "UpdatesManager \<Rightarrow> UnexecutableReason \<Rightarrow> SealResolution" where
  "first_tx_rejected um reason =
     (if pending_executed_transactions_len um = 0 then Unexecutable reason else ExcludeAndSeal)"

text \<open>The data of the transaction and of the batch with it, for the seal criteria.\<close>

definition tx_seal_data ::
  "UpdatesManager \<Rightarrow> tx \<Rightarrow> DeduplicatedWritesMetrics \<Rightarrow> ExecutionMetricsForCriteria \<Rightarrow> u32 \<Rightarrow> SealData" where
  "tx_seal_data um tx tx_writes m gas_left =
     \<lparr>execution_metrics = criteria_metrics m,
      gas_count = gas_add (l1_gas m) (gas_count_from_writes tx_writes (protocol_version um)),
      cumulative_size = encoding_len tx, writes_metrics = tx_writes, gas_remaining = gas_left\<rparr>"

definition block_seal_data ::
  "UpdatesManager \<Rightarrow> tx \<Rightarrow> DeduplicatedWritesMetrics \<Rightarrow> ExecutionMetricsForCriteria \<Rightarrow> u32 \<Rightarrow> SealData" where
  "block_seal_data um tx block_writes m gas_left =
     \<lparr>execution_metrics = em_add (criteria_metrics m) (pending_execution_metrics um),
      gas_count = gas_add (gas_add (l1_gas m) (gas_count_from_writes block_writes (protocol_version um)))
        (pending_l1_gas_count um),
      cumulative_size = encoding_len tx + pending_txs_encoding_size um,
      writes_metrics = block_writes, gas_remaining = gas_left\<rparr>"

fun seal_resolution ::
  "('io, 'vm) Parts \<Rightarrow> tx \<Rightarrow> TxExecutionResult \<Rightarrow> UpdatesManager \<Rightarrow> (SealResolution \<times> UpdatesManager) option" where
  "seal_resolution p tx BootloaderOutOfGasForTx um = Some (first_tx_rejected um BootloaderOutOfGas, um)"
| "seal_resolution p tx (RejectedByVm reason) um =
     Some (if reason = HaltNotEnoughGasProvided then first_tx_rejected um NotEnoughGasProvided
           else Unexecutable (ReasonHalt reason), um)"
| "seal_resolution p tx (TxSuccess r m compressed trace gas_left) um =
     Option.bind (apply_and_rollback (storage_logs (logs r)) (storage_writes_deduplicator um)) (\<lambda>(block_writes, dd).
     Option.bind (apply_on_empty_state (storage_logs (logs r))) (\<lambda>tx_writes.
       map_option (\<lambda>res. (res, um\<lparr>storage_writes_deduplicator := dd\<rparr>))
         (should_seal_l1_batch (p_hw p) (p_sealer p) (pending_executed_transactions_len um + 1)
           (block_seal_data um tx block_writes m gas_left) (tx_seal_data um tx tx_writes m gas_left)
           (protocol_version um))))"

definition process_one_tx ::
  "('io, 'vm) Parts \<Rightarrow> tx \<Rightarrow> (SealResolution \<times> TxExecutionResult, ('io, 'vm) ZkSyncStateKeeper) action" where
  "process_one_tx p tx =
     bind_action (on_executor (execute_tx (p_executor p) tx)) (\<lambda>exec_result k.
       (case seal_resolution p tx exec_result (updates_manager k) of
          None \<Rightarrow> (Panic, k)
        | Some (resolution, um) \<Rightarrow> (Ok (resolution, exec_result), k\<lparr>updates_manager := um\<rparr>)))"

definition extend_updates ::
  "('io, 'vm) Parts \<Rightarrow> tx \<Rightarrow> VmExecutionResultAndLogs \<Rightarrow> (bytes \<times> bytes) list \<Rightarrow> ExecutionMetricsForCriteria \<Rightarrow>
   Call list \<Rightarrow> (unit, ('io, 'vm) ZkSyncStateKeeper) action" where
  "extend_updates p tx r compressed m trace k =
     set_updates (extend_from_executed_transaction (p_ext p) tx r compressed (l1_gas m)
       (criteria_metrics m) trace (updates_manager k)) k"

definition process_upgrade_tx ::
  "('io, 'vm) Parts \<Rightarrow> TxData \<Rightarrow> (unit, ('io, 'vm) ZkSyncStateKeeper) action" where
  "process_upgrade_tx p upgrade =
     bind_action (assert_that (\<lambda>k. pending_executed_transactions_len (updates_manager k) = 0)) (\<lambda>_.
     bind_action (process_one_tx p (TxProtocolUpgrade upgrade)) (\<lambda>(resolution, exec_result).
       (case resolution of
          ExcludeAndSeal \<Rightarrow> lift (Err (Fatal ''first tx in batch cannot result into `ExcludeAndSeal`''))
        | Unexecutable reason \<Rightarrow> lift (Err (Fatal ''Upgrade transaction is unexecutable''))
        | _ \<Rightarrow>
            (case exec_result of
               TxSuccess r m compressed _ _ \<Rightarrow>
                 if is_failed (result r) then lift (Err (Fatal ''Failed upgrade tx''))
                 else extend_updates p (TxProtocolUpgrade upgrade) r compressed m []
             | _ \<Rightarrow> lift (Err (Fatal ''Tx inclusion seal resolution must be a result of a successful tx execution''))))))"

section \<open>One batch\<close>

definition apply_resolution ::
  "('io, 'vm) Parts \<Rightarrow> tx \<Rightarrow> SealResolution \<times> TxExecutionResult \<Rightarrow> (unit, ('io, 'vm) ZkSyncStateKeeper) action" where
  "apply_resolution p tx res =
     (case fst res of
        ExcludeAndSeal \<Rightarrow>
          bind_action (on_executor (rollback_last_tx (p_executor p))) (\<lambda>_. on_io (io_rollback (p_io p) tx))
      | Unexecutable reason \<Rightarrow>
          bind_action (on_executor (rollback_last_tx (p_executor p))) (\<lambda>_. on_io (io_reject (p_io p) tx reason))
      | _ \<Rightarrow>
          (case snd res of
             TxSuccess r m compressed trace _ \<Rightarrow> extend_updates p tx r compressed m trace
           | _ \<Rightarrow> lift Panic))"

text \<open>\<open>roll_l2_block\<close> seals the open block when its criteria say so, and opens the next one.\<close>

definition roll_l2_block :: "('io, 'vm) Parts \<Rightarrow> (unit, ('io, 'vm) ZkSyncStateKeeper) action" where
  "roll_l2_block p k =
     bind_action (on_io (should_seal_l2_block (p_io p) (updates_manager k))) (\<lambda>seal.
       if seal then bind_action (seal_l2_block p) (\<lambda>_. open_next_l2_block p) else return ()) k"

text \<open>One iteration of the loop; the result says whether the batch is complete.\<close>

definition process_iteration :: "('io, 'vm) Parts \<Rightarrow> (bool, ('io, 'vm) ZkSyncStateKeeper) action" where
  "process_iteration p k =
     bind_action (on_io (should_seal_l1_batch_unconditionally (p_io p) (updates_manager k))) (\<lambda>seal.
       if seal then return True
       else
         bind_action (roll_l2_block p) (\<lambda>_.
         bind_action (on_io (wait_for_next_tx (p_io p))) (\<lambda>next_tx.
           case next_tx of
             None \<Rightarrow> return False
           | Some tx \<Rightarrow>
               bind_action (process_one_tx p tx) (\<lambda>res.
               bind_action (apply_resolution p tx res) (\<lambda>_.
               return (resolution_should_seal (fst res))))))) k"

fun process_loop :: "('io, 'vm) Parts \<Rightarrow> nat \<Rightarrow> (unit, ('io, 'vm) ZkSyncStateKeeper) action" where
  "process_loop p 0 k = (Err Canceled, k)"
| "process_loop p (Suc n) k =
     (if is_canceled k then (Err Canceled, k)
      else bind_action (process_iteration p) (\<lambda>done.
        if done then return () else process_loop p n) (polled k))"

definition process_l1_batch ::
  "('io, 'vm) Parts \<Rightarrow> TxData option \<Rightarrow> (unit, ('io, 'vm) ZkSyncStateKeeper) action" where
  "process_l1_batch p upgrade =
     bind_action (case upgrade of Some d \<Rightarrow> process_upgrade_tx p d | None \<Rightarrow> return ())
       (\<lambda>_ k. process_loop p (k_stop k) k)"

section \<open>Restoring a batch\<close>

fun reexecute_txs :: "('io, 'vm) Parts \<Rightarrow> tx list \<Rightarrow> (unit, ('io, 'vm) ZkSyncStateKeeper) action" where
  "reexecute_txs p [] = return ()"
| "reexecute_txs p (tx # txs) =
     bind_action (on_executor (execute_tx (p_executor p) tx)) (\<lambda>res.
       (case res of
          TxSuccess r m compressed trace _ \<Rightarrow>
            bind_action (extend_updates p tx r compressed m trace) (\<lambda>_. reexecute_txs p txs)
        | _ \<Rightarrow> lift (Err (Fatal ''Re-executing stored tx failed. It means that transaction was executed successfully before, but failed after a restart.''))))"

fun reexecute_blocks ::
  "('io, 'vm) Parts \<Rightarrow> bool \<Rightarrow> L2BlockExecutionData list \<Rightarrow> (unit, ('io, 'vm) ZkSyncStateKeeper) action" where
  "reexecute_blocks p is_first [] = return ()"
| "reexecute_blocks p is_first (b # bs) =
     bind_action
       (if is_first then return ()
        else keeper_start_next_l2_block p
          \<lparr>params_timestamp = xd_timestamp b, params_virtual_blocks = xd_virtual_blocks b\<rparr>)
       (\<lambda>_. bind_action (reexecute_txs p (xd_txs b)) (\<lambda>_. reexecute_blocks p False bs))"

definition restore_state ::
  "('io, 'vm) Parts \<Rightarrow> L2BlockExecutionData list \<Rightarrow> (unit, ('io, 'vm) ZkSyncStateKeeper) action" where
  "restore_state p blocks =
     (if blocks = [] then return ()
      else bind_action (reexecute_blocks p True blocks) (\<lambda>_. open_next_l2_block p))"

section \<open>The main loop\<close>

definition load_protocol_upgrade_tx ::
  "('io, 'vm) Parts \<Rightarrow> L2BlockExecutionData list \<Rightarrow> ProtocolVersionId \<Rightarrow> u32 \<Rightarrow>
   (TxData option, ('io, 'vm) ZkSyncStateKeeper) action" where
  "load_protocol_upgrade_tx p pending version number =
     bind_action (on_io (load_batch_version_id (p_io p) (number - 1))) (\<lambda>previous.
     bind_action
       (if version \<noteq> previous \<or> (number = 1 \<and> \<not> is_pre_shared_bridge version)
        then on_io (io_load_upgrade_tx (p_io p) version) else return None) (\<lambda>upgrade.
       if pending \<noteq> [] \<and> upgrade \<noteq> None
       then (case xd_txs (hd pending) of
               [] \<Rightarrow> lift Panic
             | tx # _ \<Rightarrow> if tx_format tx = ProtocolUpgradeTransaction then return None else lift Panic)
       else return upgrade))"

definition init_executor ::
  "('io, 'vm) Parts \<Rightarrow> SystemEnv \<Rightarrow> L1BatchEnv \<Rightarrow> (unit, ('io, 'vm) ZkSyncStateKeeper) action" where
  "init_executor p se be k =
     (case init_batch (p_executor p) (length (k_outputs k)) be se of
        None \<Rightarrow> (Err Canceled, k)
      | Some vm \<Rightarrow> (Ok (), k\<lparr>batch_executor := vm\<rparr>))"

text \<open>The end of a batch: the block that is open is sealed, and a fictive one holds the batch tip.\<close>

definition finish_l1_batch :: "('io, 'vm) Parts \<Rightarrow> (IoCursor, ('io, 'vm) ZkSyncStateKeeper) action" where
  "finish_l1_batch p k =
     bind_action
       (if executed_transactions (l2_block (updates_manager k)) \<noteq> []
        then bind_action (seal_l2_block p) (\<lambda>_. open_next_l2_block p) else return ()) (\<lambda>_.
     bind_action (on_executor (executor_finish_batch (p_executor p))) (\<lambda>tip k1.
     bind_action (set_updates (finish_batch (p_ext p) tip (updates_manager k1))) (\<lambda>_ k2.
       (let cursor = io_cursor (p_ext p) (updates_manager k2)
        in bind_action (handle_output p (L1BatchSealed (updates_manager k2)))
             (\<lambda>_. return (cursor\<lparr>cursor_l1_batch := cursor_l1_batch cursor + 1\<rparr>)) k2)) k1)) k"

definition next_upgrade_tx ::
  "('io, 'vm) Parts \<Rightarrow> ProtocolVersionId \<Rightarrow> ProtocolVersionId \<Rightarrow> (TxData option, ('io, 'vm) ZkSyncStateKeeper) action" where
  "next_upgrade_tx p version sealed_version =
     (if version \<noteq> sealed_version then on_io (io_load_upgrade_tx (p_io p) version) else return None)"

definition start_next_batch ::
  "('io, 'vm) Parts \<Rightarrow> IoCursor \<Rightarrow> ProtocolVersionId \<Rightarrow> (TxData option, ('io, 'vm) ZkSyncStateKeeper) action" where
  "start_next_batch p cursor sealed_version =
     bind_action (wait_for_new_batch_env p cursor) (\<lambda>(se, be).
     bind_action (set_updates (UpdatesManager_new be se)) (\<lambda>_.
     bind_action (init_executor p se be) (\<lambda>_.
     next_upgrade_tx p (env_version se) sealed_version)))"

definition run_batch ::
  "('io, 'vm) Parts \<Rightarrow> TxData option \<Rightarrow> (TxData option, ('io, 'vm) ZkSyncStateKeeper) action" where
  "run_batch p upgrade =
     bind_action (process_l1_batch p upgrade) (\<lambda>_.
     bind_action (finish_l1_batch p) (\<lambda>cursor k.
       start_next_batch p cursor (protocol_version (updates_manager k)) k))"

fun batch_loop :: "('io, 'vm) Parts \<Rightarrow> nat \<Rightarrow> TxData option \<Rightarrow> (unit, ('io, 'vm) ZkSyncStateKeeper) action" where
  "batch_loop p 0 upgrade k = (Err Canceled, k)"
| "batch_loop p (Suc n) upgrade k =
     (if is_canceled k then (Err Canceled, k)
      else bind_action (run_batch p upgrade) (batch_loop p n) (polled k))"

definition first_batch ::
  "('io, 'vm) Parts \<Rightarrow> IoCursor \<Rightarrow> PendingBatchData option \<Rightarrow> (PendingBatchData, ('io, 'vm) ZkSyncStateKeeper) action" where
  "first_batch p cursor pending =
     (case pending of
        Some params \<Rightarrow>
          if pb_pending_l2_blocks params = [] then lift (Err (Fatal ''expected at least one pending L2 block''))
          else return params
      | None \<Rightarrow>
          bind_action (wait_for_new_batch_env p cursor) (\<lambda>(se, be).
            return \<lparr>pb_l1_batch_env = be, pb_system_env = se, pb_pending_l2_blocks = []\<rparr>))"

definition run_inner :: "('io, 'vm) Parts \<Rightarrow> (unit, ('io, 'vm) ZkSyncStateKeeper) action" where
  "run_inner p =
     bind_action (on_io (initialize (p_io p))) (\<lambda>(cursor, pending).
     bind_action (handle_output p (Initialized cursor)) (\<lambda>_.
     bind_action (first_batch p cursor pending) (\<lambda>b.
     bind_action (set_updates (UpdatesManager_new (pb_l1_batch_env b) (pb_system_env b))) (\<lambda>_.
     bind_action (load_protocol_upgrade_tx p (pb_pending_l2_blocks b) (env_version (pb_system_env b))
         (env_batch_number (pb_l1_batch_env b))) (\<lambda>upgrade.
     bind_action (init_executor p (pb_system_env b) (pb_l1_batch_env b)) (\<lambda>_.
     bind_action (restore_state p (pb_pending_l2_blocks b)) (\<lambda>_ k.
     batch_loop p (k_stop k) upgrade k)))))))"

text \<open>\<open>run\<close> reports an error, and returns normally when it is canceled.\<close>

definition run :: "('io, 'vm) Parts \<Rightarrow> (unit, ('io, 'vm) ZkSyncStateKeeper) action" where
  "run p k = (case run_inner p k of
     (Ok _, k') \<Rightarrow> (Panic, k')
   | (Err Canceled, k') \<Rightarrow> (Ok (), k')
   | other \<Rightarrow> other)"

section \<open>The chain of blocks\<close>

text \<open>
  The sealed outputs of a history, with whether they end a batch; the block that comes after an
  output; and the histories in which every output comes after the previous one.
\<close>

fun sealed_output :: "Output \<Rightarrow> (bool \<times> UpdatesManager) option" where
  "sealed_output (Initialized _) = None"
| "sealed_output (L2BlockSealed um) = Some (False, um)"
| "sealed_output (L1BatchSealed um) = Some (True, um)"

definition sealed :: "Output list \<Rightarrow> (bool \<times> UpdatesManager) list" where
  "sealed outputs = List.map_filter sealed_output outputs"

definition comes_after :: "Externals \<Rightarrow> bool \<times> UpdatesManager \<Rightarrow> UpdatesManager \<Rightarrow> bool" where
  "comes_after ext prev um \<longleftrightarrow>
     block_number (l2_block um) = block_number (l2_block (snd prev)) + 1 \<and>
     prev_block_hash (l2_block um) = get_l2_block_hash ext (l2_block (snd prev)) \<and>
     block_timestamp (l2_block (snd prev)) < block_timestamp (l2_block um) \<and>
     batch_number (l1_batch um) = batch_number (l1_batch (snd prev)) + (if fst prev then 1 else 0)"

definition chained :: "Externals \<Rightarrow> (bool \<times> UpdatesManager) list \<Rightarrow> bool" where
  "chained ext xs \<longleftrightarrow> successively (\<lambda>x y. comes_after ext x (snd y)) xs"

definition chain_ok :: "Externals \<Rightarrow> ('io, 'vm) ZkSyncStateKeeper \<Rightarrow> bool" where
  "chain_ok ext k \<longleftrightarrow> chained ext (sealed (k_outputs k))"

definition open_ok :: "Externals \<Rightarrow> ('io, 'vm) ZkSyncStateKeeper \<Rightarrow> bool" where
  "open_ok ext k \<longleftrightarrow> chain_ok ext k \<and>
     (let xs = sealed (k_outputs k) in xs = [] \<or> comes_after ext (last xs) (updates_manager k))"

definition just_sealed :: "Externals \<Rightarrow> ('io, 'vm) ZkSyncStateKeeper \<Rightarrow> bool" where
  "just_sealed ext k \<longleftrightarrow> chain_ok ext k \<and>
     (let xs = sealed (k_outputs k) in xs \<noteq> [] \<and> last xs = (False, updates_manager k))"

text \<open>What a successor depends on.\<close>

definition head_of :: "UpdatesManager \<Rightarrow> L2BlockEnv \<times> u32" where
  "head_of um = (get_env (l2_block um), batch_number (l1_batch um))"

lemma comes_after_head: "head_of um = head_of um' \<Longrightarrow> comes_after ext prev um = comes_after ext prev um'"
  by (simp add: comes_after_def head_of_def get_env_def)

lemma open_ok_frame:
  "open_ok ext k \<Longrightarrow> k_outputs k' = k_outputs k \<Longrightarrow> head_of (updates_manager k') = head_of (updates_manager k) \<Longrightarrow>
   open_ok ext k'"
  unfolding open_ok_def chain_ok_def Let_def using comes_after_head by metis

lemma open_ok_chain: "open_ok ext k \<Longrightarrow> chain_ok ext k"
  by (simp add: open_ok_def)

lemma sealed_simps [simp]:
  "sealed [] = []" "sealed (xs @ ys) = sealed xs @ sealed ys"
  "sealed [Initialized c] = []" "sealed [L2BlockSealed um] = [(False, um)]" "sealed [L1BatchSealed um] = [(True, um)]"
  by (auto simp: sealed_def List.map_filter_def)

lemma chained_snoc:
  "chained ext (xs @ [x]) \<longleftrightarrow> chained ext xs \<and> (xs = [] \<or> comes_after ext (last xs) (snd x))"
  by (cases xs rule: rev_cases) (auto simp: chained_def successively_append_iff)

lemma head_extend:
  "extend_from_executed_transaction ext tx r compressed g em traces um = Some um' \<Longrightarrow> head_of um' = head_of um"
  by (elim extend_pending) (simp add: head_of_def)

lemma head_dedup [simp]: "head_of (um\<lparr>storage_writes_deduplicator := dd\<rparr>) = head_of um"
  by (simp add: head_of_def)

lemma head_finish: "finish_batch ext tip um = Some um' \<Longrightarrow> head_of um' = head_of um"
  by (auto simp: finish_batch_def Let_def head_of_def get_env_def extend_from_fictive_transaction_def
      bind_eq_Some_conv split: if_splits)

lemma seal_resolution_head:
  "seal_resolution p tx res um = Some (resolution, um') \<Longrightarrow> head_of um' = head_of um"
  by (cases "(p, tx, res, um)" rule: seal_resolution.cases) (auto simp: bind_eq_Some_conv)

section \<open>Triples of the steps\<close>

lemma triple_on_io:
  assumes "\<And>k io. P k \<Longrightarrow> P (k\<lparr>k_io := io\<rparr>)" "\<And>k. P k \<Longrightarrow> E k"
  shows "triple P (on_io m) (\<lambda>_. P) E"
  by (rule tripleI) (auto simp: on_io_def assms split: prod.splits)

lemma triple_on_executor:
  assumes "\<And>k vm. P k \<Longrightarrow> P (k\<lparr>batch_executor := vm\<rparr>)" "\<And>k. P k \<Longrightarrow> E k"
  shows "triple P (on_executor m) (\<lambda>_. P) E"
  by (rule tripleI) (auto simp: on_executor_def assms split: prod.splits)

lemma open_ok_io [simp]: "open_ok ext (k\<lparr>k_io := io\<rparr>) = open_ok ext k"
  by (auto elim: open_ok_frame)

lemma open_ok_executor [simp]: "open_ok ext (k\<lparr>batch_executor := vm\<rparr>) = open_ok ext k"
  by (auto elim: open_ok_frame)

lemma open_ok_polled [simp]: "open_ok ext (polled k) = open_ok ext k"
  by (auto simp: polled_def elim: open_ok_frame)

lemma just_sealed_frame [simp]:
  "just_sealed ext (k\<lparr>k_io := io\<rparr>) = just_sealed ext k" "just_sealed ext (polled k) = just_sealed ext k"
  "chain_ok ext (k\<lparr>k_io := io\<rparr>) = chain_ok ext k" "chain_ok ext (k\<lparr>batch_executor := vm\<rparr>) = chain_ok ext k"
  "chain_ok ext (polled k) = chain_ok ext k"
  by (simp_all add: just_sealed_def chain_ok_def polled_def)

lemma just_sealed_chain: "just_sealed ext k \<Longrightarrow> chain_ok ext k"
  by (simp add: just_sealed_def)

lemma open_on_io: "triple (open_ok ext) (on_io m) (\<lambda>_. open_ok ext) (chain_ok ext)"
  by (rule triple_on_io) (auto intro: open_ok_chain)

lemma open_on_executor: "triple (open_ok ext) (on_executor m) (\<lambda>_. open_ok ext) (chain_ok ext)"
  by (rule triple_on_executor) (auto intro: open_ok_chain)

lemma seal_l2_block_triple:
  "triple (open_ok (p_ext p)) (seal_l2_block p) (\<lambda>_. just_sealed (p_ext p)) (chain_ok (p_ext p))"
  unfolding triple_def
  by (simp add: seal_l2_block_def handle_output_def Let_def open_ok_def just_sealed_def chain_ok_def chained_snoc
      split: outcome.splits)

lemma wait_block_loop_frame:
  "wait_block_loop p cursor n k = (r, k') \<Longrightarrow>
   updates_manager k' = updates_manager k \<and> k_outputs k' = k_outputs k \<and> batch_executor k' = batch_executor k"
proof (induction n arbitrary: k)
  case (Suc n)
  then show ?case
    by (auto simp: bind_action_def on_io_def polled_def return_def split: prod.splits outcome.splits option.splits if_splits)
qed simp

lemma open_set_updates:
  assumes "\<And>um. m = Some um \<Longrightarrow> head_of um = head_of um0"
  shows "triple (\<lambda>k. open_ok ext k \<and> updates_manager k = um0) (set_updates m) (\<lambda>_. open_ok ext) (chain_ok ext)"
  using assms by (auto simp: triple_def set_updates_def open_ok_chain elim: open_ok_frame split: option.splits)

lemma extend_updates_triple:
  "triple (open_ok (p_ext p)) (extend_updates p tx r compressed m trace) (\<lambda>_. open_ok (p_ext p)) (chain_ok (p_ext p))"
  by (auto simp: triple_def extend_updates_def set_updates_def open_ok_chain head_extend elim: open_ok_frame
      split: option.splits)

lemma process_one_tx_triple:
  "triple (open_ok (p_ext p)) (process_one_tx p tx) (\<lambda>_. open_ok (p_ext p)) (chain_ok (p_ext p))"
  unfolding process_one_tx_def
  by (rule triple_bind [OF open_on_executor])
     (auto simp: triple_def open_ok_chain seal_resolution_head elim: open_ok_frame split: option.splits prod.splits)

lemma open_lift: "triple (open_ok ext) (lift r) (\<lambda>_. open_ok ext) (chain_ok ext)"
  by (rule triple_lift) (auto intro: open_ok_chain)

lemma open_assert: "triple (open_ok ext) (assert_that A) (\<lambda>_. open_ok ext) (chain_ok ext)"
  by (auto simp: triple_def assert_that_def open_ok_chain)

lemma apply_resolution_triple:
  "triple (open_ok (p_ext p)) (apply_resolution p tx res) (\<lambda>_. open_ok (p_ext p)) (chain_ok (p_ext p))"
  unfolding apply_resolution_def
  by (auto intro!: triple_bind [OF open_on_executor] open_on_io extend_updates_triple open_lift
      split: SealResolution.splits TxExecutionResult.splits)

lemma process_upgrade_tx_triple:
  "triple (open_ok (p_ext p)) (process_upgrade_tx p d) (\<lambda>_. open_ok (p_ext p)) (chain_ok (p_ext p))"
  unfolding process_upgrade_tx_def
  by (rule triple_bind [OF open_assert])
     (auto intro!: triple_bind [OF process_one_tx_triple] open_lift extend_updates_triple
      split: SealResolution.splits TxExecutionResult.splits)

definition batch_sealed :: "Externals \<Rightarrow> IoCursor \<Rightarrow> ('io, 'vm) ZkSyncStateKeeper \<Rightarrow> bool" where
  "batch_sealed ext cursor k \<longleftrightarrow> chain_ok ext k \<and>
     (let xs = sealed (k_outputs k); um = updates_manager k
      in xs \<noteq> [] \<and> last xs = (True, um) \<and>
         cursor = (io_cursor ext um)\<lparr>cursor_l1_batch := batch_number (l1_batch um) + 1\<rparr>)"

definition env_ready :: "Externals \<Rightarrow> SystemEnv \<Rightarrow> L1BatchEnv \<Rightarrow> ('io, 'vm) ZkSyncStateKeeper \<Rightarrow> bool" where
  "env_ready ext se be k \<longleftrightarrow> chain_ok ext k \<and>
     (let xs = sealed (k_outputs k)
      in xs = [] \<or> (\<forall>um. UpdatesManager_new be se = Some um \<longrightarrow> comes_after ext (last xs) um))"

lemma seal_batch_triple:
  "triple (open_ok (p_ext p))
    (\<lambda>k1. bind_action (set_updates (finish_batch (p_ext p) tip (updates_manager k1))) (\<lambda>_ k2.
       (let cursor = io_cursor (p_ext p) (updates_manager k2)
        in bind_action (handle_output p (L1BatchSealed (updates_manager k2)))
             (\<lambda>_. return (cursor\<lparr>cursor_l1_batch := cursor_l1_batch cursor + 1\<rparr>)) k2)) k1)
    (batch_sealed (p_ext p)) (chain_ok (p_ext p))"
proof -
  have "open_ok ext k \<Longrightarrow> finish_batch ext tip (updates_manager k) = Some um \<Longrightarrow>
      open_ok ext (k\<lparr>updates_manager := um\<rparr>)" for ext um and k :: "('io, 'vm) ZkSyncStateKeeper"
    by (rule open_ok_frame) (auto simp: head_finish)
  then have step: "open_ok ext k \<Longrightarrow> finish_batch ext tip (updates_manager k) = Some um \<Longrightarrow>
      chained ext (sealed (k_outputs k) @ [(True, um)])" for ext um and k :: "('io, 'vm) ZkSyncStateKeeper"
    by (fastforce simp: open_ok_def chain_ok_def chained_snoc Let_def)
  show ?thesis
    by (auto simp: triple_def bind_action_def set_updates_def handle_output_def Let_def return_def batch_sealed_def
        chain_ok_def io_cursor_def of_result_def open_ok_chain [unfolded chain_ok_def] step
        split: option.splits outcome.splits sum.splits)
qed

lemma wait_batch_loop_frame:
  "wait_batch_loop p cursor n k = (r, k') \<Longrightarrow> updates_manager k' = updates_manager k \<and> k_outputs k' = k_outputs k"
proof (induction n arbitrary: k)
  case (Suc n)
  then show ?case
    by (auto simp: bind_action_def on_io_def polled_def return_def split: prod.splits outcome.splits option.splits if_splits)
qed simp

lemma wait_env_frame:
  "wait_for_new_batch_env p cursor k = (r, k') \<Longrightarrow> updates_manager k' = updates_manager k \<and> k_outputs k' = k_outputs k"
  by (auto simp: wait_for_new_batch_env_def keeper_wait_for_new_batch_params_def bind_action_def on_io_def
      return_def lift_def dest: wait_batch_loop_frame split: prod.splits outcome.splits option.splits)

lemma set_ready_triple:
  "triple (env_ready ext se be) (set_updates (UpdatesManager_new be se)) (\<lambda>_. open_ok ext) (chain_ok ext)"
  by (auto simp: triple_def set_updates_def env_ready_def open_ok_def chain_ok_def Let_def split: option.splits)

lemma init_executor_triple: "triple (open_ok ext) (init_executor p se be) (\<lambda>_. open_ok ext) (chain_ok ext)"
  by (auto simp: triple_def init_executor_def open_ok_chain split: option.splits)

text \<open>Before the main loop nothing is sealed.\<close>

definition nothing_sealed :: "('io, 'vm) ZkSyncStateKeeper \<Rightarrow> bool" where
  "nothing_sealed k \<longleftrightarrow> sealed (k_outputs k) = []"

lemma nothing_sealed_open: "nothing_sealed k \<Longrightarrow> open_ok ext k" "nothing_sealed k \<Longrightarrow> chain_ok ext k"
  by (simp_all add: nothing_sealed_def open_ok_def chain_ok_def chained_def)

text \<open>Actions that leave the history alone.\<close>

definition quiet :: "('a, ('io, 'vm) ZkSyncStateKeeper) action \<Rightarrow> bool" where
  "quiet m \<longleftrightarrow> (\<forall>k r k'. m k = (r, k') \<longrightarrow> k_outputs k' = k_outputs k)"

lemma quiet_bind: "quiet m \<Longrightarrow> (\<And>x. quiet (f x)) \<Longrightarrow> quiet (bind_action m f)"
  by (auto simp: quiet_def bind_action_def split: prod.splits outcome.splits)

lemma quiet_simps [simp]:
  "quiet (return x)" "quiet (lift r)" "quiet (on_io a)" "quiet (on_executor b)" "quiet (set_updates um)"
  "quiet (extend_updates p tx res compressed m trace)" "quiet (init_executor p se be)"
  "quiet (keeper_start_next_l2_block p params)" "quiet (keeper_wait_for_new_l2_block_params p)"
  "quiet (wait_for_new_batch_env p cursor)"
  by (auto simp: quiet_def return_def lift_def on_io_def on_executor_def set_updates_def extend_updates_def
      init_executor_def keeper_start_next_l2_block_def keeper_wait_for_new_l2_block_params_def Let_def
      dest: wait_block_loop_frame wait_env_frame split: prod.splits option.splits) 

lemma quiet_open_next [simp]: "quiet (open_next_l2_block p)"
  unfolding open_next_l2_block_def by (auto intro: quiet_bind)

lemma quiet_reexecute_txs [simp]: "quiet (reexecute_txs p txs)"
  by (induction p txs rule: reexecute_txs.induct) (auto intro!: quiet_bind split: TxExecutionResult.splits)

lemma quiet_reexecute_blocks [simp]: "quiet (reexecute_blocks p is_first bs)"
  by (induction p is_first bs rule: reexecute_blocks.induct) (auto intro!: quiet_bind)

lemma quiet_restore [simp]: "quiet (restore_state p blocks)"
  by (auto simp: restore_state_def intro: quiet_bind)

lemma quiet_load_upgrade [simp]: "quiet (load_protocol_upgrade_tx p pending version number)"
  unfolding load_protocol_upgrade_tx_def by (auto intro!: quiet_bind split: list.splits)

lemma quiet_first_batch [simp]: "quiet (first_batch p cursor pending)"
  by (auto simp: first_batch_def intro!: quiet_bind split: option.splits prod.splits)

lemma quiet_nothing_sealed: "quiet m \<Longrightarrow> triple nothing_sealed m (\<lambda>_. nothing_sealed) (chain_ok ext)"
  by (rule tripleI) (auto simp: quiet_def nothing_sealed_def intro: nothing_sealed_open [unfolded nothing_sealed_def])

lemma init_output_triple:
  "triple nothing_sealed (handle_output p (Initialized cursor)) (\<lambda>_. nothing_sealed) (chain_ok ext)"
  by (rule tripleI) (auto simp: handle_output_def nothing_sealed_def Let_def intro: nothing_sealed_open [unfolded nothing_sealed_def])

lemma open_next_Ok:
  assumes "open_next_l2_block p k = (Ok x, k')"
  obtains params where "updates_manager k' = push_l2_block (p_ext p) params (updates_manager k)" "k_outputs k' = k_outputs k"
    "start_next_l2_block (p_executor p) (get_env (l2_block (updates_manager k'))) (batch_executor k) = (Ok (), batch_executor k')"
proof -
  obtain params k1 where w: "wait_block_loop p (io_cursor (p_ext p) (updates_manager k)) (k_stop k) k = (Ok params, k1)"
    and s: "keeper_start_next_l2_block p params k1 = (Ok x, k')"
    using assms by (auto simp: open_next_l2_block_def bind_action_Ok keeper_wait_for_new_l2_block_params_def)
  have same: "updates_manager k1 = updates_manager k" "k_outputs k1 = k_outputs k" "batch_executor k1 = batch_executor k"
    using wait_block_loop_frame [OF w] by auto
  show ?thesis
    using s same by (intro that [of params])
      (auto simp: keeper_start_next_l2_block_def Let_def on_executor_def split: prod.splits)
qed

context keeper_io
begin

lemma wait_block_loop_later:
  assumes "p_io p = ops"
  shows "triple (just_sealed ext) (wait_block_loop p cursor n)
    (\<lambda>params k. just_sealed ext k \<and> prev_l2_block_timestamp cursor < params_timestamp params) (chain_ok ext)"
proof (induction n)
  case (Suc n)
  have "triple (just_sealed ext) (bind_action (on_io (wait_for_new_l2_block_params (p_io p) cursor)) (\<lambda>r.
        case r of Some params \<Rightarrow> return params | None \<Rightarrow> wait_block_loop p cursor n))
    (\<lambda>params k. just_sealed ext k \<and> prev_l2_block_timestamp cursor < params_timestamp params) (chain_ok ext)"
  proof (rule triple_bind)
    show "triple (just_sealed ext) (on_io (wait_for_new_l2_block_params (p_io p) cursor))
      (\<lambda>r k. just_sealed ext k \<and> (case r of None \<Rightarrow> True | Some params \<Rightarrow>
         prev_l2_block_timestamp cursor < params_timestamp params)) (chain_ok ext)"
      by (rule tripleI) (auto simp: on_io_def assms just_sealed_chain dest: block_later split: prod.splits option.splits)
  qed (auto intro!: triple_return intro: triple_conseq [OF Suc] split: option.splits)
  then show ?case
    by (auto simp: triple_def just_sealed_chain split: prod.splits outcome.splits)
qed (auto simp: triple_def just_sealed_chain)

lemma open_next_triple:
  assumes "p_io p = ops"
  shows "triple (just_sealed (p_ext p)) (open_next_l2_block p) (\<lambda>_. open_ok (p_ext p)) (chain_ok (p_ext p))"
proof (rule tripleI)
  fix k x k'
  assume k: "just_sealed (p_ext p) k" and run: "open_next_l2_block p k = (Ok x, k')"
  let ?cursor = "io_cursor (p_ext p) (updates_manager k)"
  obtain params k1 where w: "wait_block_loop p ?cursor (k_stop k) k = (Ok params, k1)"
    and s: "keeper_start_next_l2_block p params k1 = (Ok x, k')"
    using run by (auto simp: open_next_l2_block_def bind_action_Ok keeper_wait_for_new_l2_block_params_def)
  have "updates_manager k1 = updates_manager k" "k_outputs k1 = k_outputs k"
    using wait_block_loop_frame [OF w] by auto
  moreover have "just_sealed (p_ext p) k1" "block_timestamp (l2_block (updates_manager k)) < params_timestamp params"
    using triple_Ok [OF wait_block_loop_later [OF assms] k w] by (auto simp: io_cursor_def)
  ultimately show "open_ok (p_ext p) k'"
    using s by (auto simp: keeper_start_next_l2_block_def Let_def on_executor_def open_ok_def just_sealed_def
        chain_ok_def comes_after_def push_l2_block_def extend_from_sealed_l2_block_def L2BlockUpdates_new_def
        split: prod.splits)
next
  fix k r k'
  assume k: "just_sealed (p_ext p) k" and run: "open_next_l2_block p k = (r, k')"
  have "k_outputs k' = k_outputs k"
    using run by (auto simp: open_next_l2_block_def bind_action_def keeper_wait_for_new_l2_block_params_def
        keeper_start_next_l2_block_def Let_def on_executor_def dest: wait_block_loop_frame
        split: prod.splits outcome.splits)
  then show "chain_ok (p_ext p) k'" using k by (simp add: just_sealed_def chain_ok_def)
qed

lemma roll_triple:
  assumes "p_io p = ops"
  shows "triple (open_ok (p_ext p)) (roll_l2_block p) (\<lambda>_. open_ok (p_ext p)) (chain_ok (p_ext p))"
  by (rule triple_state [OF roll_l2_block_def], rule triple_bind [OF open_on_io])
     (auto intro!: triple_return triple_bind [OF seal_l2_block_triple] open_next_triple [OF assms])

lemma iteration_triple:
  assumes "p_io p = ops"
  shows "triple (open_ok (p_ext p)) (process_iteration p) (\<lambda>_. open_ok (p_ext p)) (chain_ok (p_ext p))"
  by (rule triple_state [OF process_iteration_def], rule triple_bind [OF open_on_io])
     (auto intro!: triple_return triple_bind [OF roll_triple [OF assms]] triple_bind [OF open_on_io]
       triple_bind [OF process_one_tx_triple] triple_bind [OF apply_resolution_triple] split: option.splits)

lemma process_loop_triple:
  assumes "p_io p = ops"
  shows "triple (open_ok (p_ext p)) (process_loop p n) (\<lambda>_. open_ok (p_ext p)) (chain_ok (p_ext p))"
proof (induction n)
  case (Suc n)
  have "triple (open_ok (p_ext p)) (bind_action (process_iteration p) (\<lambda>done.
        if done then return () else process_loop p n)) (\<lambda>_. open_ok (p_ext p)) (chain_ok (p_ext p))"
    by (rule triple_bind [OF iteration_triple [OF assms]]) (auto intro: triple_return Suc)
  then show ?case
    by (auto simp: triple_def open_ok_chain split: prod.splits outcome.splits)
qed (auto simp: triple_def open_ok_chain)

lemma process_l1_batch_triple:
  assumes "p_io p = ops"
  shows "triple (open_ok (p_ext p)) (process_l1_batch p upgrade) (\<lambda>_. open_ok (p_ext p)) (chain_ok (p_ext p))"
  unfolding process_l1_batch_def
  by (rule triple_bind [where R = "\<lambda>_. open_ok (p_ext p)"])
     (auto intro: triple_return process_upgrade_tx_triple process_loop_triple [OF assms]
         triple_state [where m = "\<lambda>k. process_loop p (k_stop k)"] split: option.splits)

lemma seal_and_open_triple:
  assumes "p_io p = ops"
  shows "triple (open_ok (p_ext p))
    (if c then bind_action (seal_l2_block p) (\<lambda>_. open_next_l2_block p) else return ())
    (\<lambda>_. open_ok (p_ext p)) (chain_ok (p_ext p))"
  by (auto intro: triple_return triple_bind [OF seal_l2_block_triple] open_next_triple [OF assms])

lemma finish_triple:
  assumes "p_io p = ops"
  shows "triple (open_ok (p_ext p)) (finish_l1_batch p) (batch_sealed (p_ext p)) (chain_ok (p_ext p))"
  by (rule triple_state [OF finish_l1_batch_def], rule triple_bind [OF seal_and_open_triple [OF assms]],
      rule triple_bind [OF open_on_executor], rule triple_state [OF refl], rule seal_batch_triple)

lemma wait_batch_loop_later:
  assumes "p_io p = ops"
  shows "wait_batch_loop p cursor n k = (Ok params, k') \<Longrightarrow>
    prev_l2_block_timestamp cursor < params_timestamp (bp_first_l2_block params)"
proof (induction n arbitrary: k)
  case (Suc n)
  then show ?case
    by (auto simp: bind_action_Ok on_io_def assms return_def dest: batch_later split: if_splits prod.splits option.splits)
qed simp

lemma wait_env_triple:
  assumes "p_io p = ops"
  shows "triple (batch_sealed (p_ext p) cursor) (wait_for_new_batch_env p cursor)
    (\<lambda>env. env_ready (p_ext p) (fst env) (snd env)) (chain_ok (p_ext p))"
proof (rule tripleI)
  fix k env k'
  assume k: "batch_sealed (p_ext p) cursor k" and run: "wait_for_new_batch_env p cursor k = (Ok env, k')"
  obtain params k1 contracts hash where w: "wait_batch_loop p cursor (k_stop k) k = (Ok params, k1)"
    and env: "env = into_env (chain_id (p_io p)) contracts cursor hash params"
    and same: "k_outputs k' = k_outputs k" "updates_manager k' = updates_manager k"
    using run by (auto simp: wait_for_new_batch_env_def bind_action_Ok keeper_wait_for_new_batch_params_def
        on_io_def return_def lift_def split: option.splits prod.splits dest: wait_batch_loop_frame)
  show "env_ready (p_ext p) (fst env) (snd env) k'"
    using k wait_batch_loop_later [OF assms w]
    by (auto simp: Let_def env env_ready_def batch_sealed_def chain_ok_def same into_env_def l1_batch_params_def
        UpdatesManager_new_def comes_after_def io_cursor_def L2BlockUpdates_new_def L1BatchUpdates_new_def)
next
  fix k r k'
  assume k: "batch_sealed (p_ext p) cursor k" and run: "wait_for_new_batch_env p cursor k = (r, k')"
  have "k_outputs k' = k_outputs k"
    using wait_env_frame [OF run] by simp
  then show "chain_ok (p_ext p) k'" using k by (simp add: batch_sealed_def chain_ok_def)
qed

lemma run_batch_triple:
  assumes "p_io p = ops"
  shows "triple (open_ok (p_ext p)) (run_batch p upgrade) (\<lambda>_. open_ok (p_ext p)) (chain_ok (p_ext p))"
proof -
  have start: "triple (batch_sealed (p_ext p) cursor) (start_next_batch p cursor version)
      (\<lambda>_. open_ok (p_ext p)) (chain_ok (p_ext p))" for cursor version
    unfolding start_next_batch_def
    by (rule triple_bind [OF wait_env_triple [OF assms]])
       (auto intro!: triple_bind [OF set_ready_triple] triple_bind [OF init_executor_triple] triple_return open_on_io
         simp: next_upgrade_tx_def split: prod.splits)
  show ?thesis unfolding run_batch_def
    by (rule triple_bind [OF process_l1_batch_triple [OF assms]], rule triple_bind [OF finish_triple [OF assms]],
        rule triple_state [where m = "\<lambda>k. start_next_batch p cursor (protocol_version (updates_manager k))" for cursor])
       (auto intro: start)
qed

lemma batch_loop_triple:
  assumes "p_io p = ops"
  shows "triple (open_ok (p_ext p)) (batch_loop p n upgrade) (\<lambda>_. open_ok (p_ext p)) (chain_ok (p_ext p))"
proof (induction n arbitrary: upgrade)
  case (Suc n)
  have "triple (open_ok (p_ext p)) (bind_action (run_batch p upgrade) (batch_loop p n))
      (\<lambda>_. open_ok (p_ext p)) (chain_ok (p_ext p))"
    by (rule triple_bind [OF run_batch_triple [OF assms] Suc])
  then show ?case by (auto simp: triple_def open_ok_chain split: prod.splits outcome.splits)
qed (auto simp: triple_def open_ok_chain)

lemma run_inner_triple:
  assumes "p_io p = ops"
  shows "triple nothing_sealed (run_inner p) (\<lambda>_. open_ok (p_ext p)) (chain_ok (p_ext p))"
proof -
  have last: "triple nothing_sealed (\<lambda>k. batch_loop p (k_stop k) upgrade k) (\<lambda>_. open_ok (p_ext p)) (chain_ok (p_ext p))" for upgrade
    by (rule triple_conseq [where P = "open_ok (p_ext p)"], rule triple_state [where m = "\<lambda>k. batch_loop p (k_stop k) upgrade"])
       (auto intro: batch_loop_triple [OF assms] nothing_sealed_open)
  show ?thesis
    unfolding run_inner_def
    by (rule triple_bind [OF quiet_nothing_sealed], simp, clarify, rule triple_bind [OF init_output_triple],
        (rule triple_bind [OF quiet_nothing_sealed], simp)+, rule last)
qed

lemma run_chained: "p_io p = ops \<Longrightarrow> nothing_sealed k \<Longrightarrow> run p k = (r, k') \<Longrightarrow> chain_ok (p_ext p) k'"
  using triple_Ok [OF run_inner_triple] triple_fail [OF run_inner_triple]
  by (fastforce simp: run_def open_ok_chain split: prod.splits outcome.splits Error.splits)

end

section \<open>Properties\<close>

text \<open>
  C1. The state keeper on the mempool extends a chain: whatever the clock, the database, the other
  users of the mempool, the executor, the output handlers and the seal criteria do, and also when it stops
  with an error or a panic, the blocks it has handed to its output handlers are consecutive: each has the next
  number, the hash of the block before it and a later timestamp, across the boundaries of batches; a
  block belongs to the batch of the block before it, or to the next one if that block closed its batch.
\<close>

theorem sealed_blocks_form_chain:
  assumes "p_io p = mempool_io w chain" "k_outputs k = []" "run p k = (r, k')"
  shows "chained (p_ext p) (sealed (k_outputs k'))"
proof -
  have "nothing_sealed k" using assms(2) by (simp add: nothing_sealed_def)
  then show ?thesis
    using mempool_sequencer.run_chained [OF assms(1) _ assms(3)] by (simp add: chain_ok_def)
qed

definition demo_vm :: "(nat, nat) VmOps" where
  "demo_vm = \<lparr>vm_new = (\<lambda>_ _. 0), vm_snapshot = (\<lambda>m. m), vm_rollback = (\<lambda>s _. s),
     inspect_transaction_with_bytecode_compression = (\<lambda>tx compress m. (True, demo_result [], [], m + 1)),
     get_last_tx_compressed_bytecodes = (\<lambda>_. []), vm_gas_remaining = (\<lambda>_. 500000000),
     start_new_l2_block = (\<lambda>_ m. m), vm_finish_batch = (\<lambda>m. (demo_result [], m))\<rparr>"

definition demo_executor :: "(nat, nat) VmInstance BatchExecutorHandle BatchExecutor" where
  "demo_executor = main_batch_executor demo_ext demo_vm (\<lambda>_. Inr True)
     \<lparr>save_call_traces = False, optional_bytecode_compression = False\<rparr>"

definition demo_parts :: "(MempoolIO, (nat, nat) VmInstance BatchExecutorHandle) Parts" where
  "demo_parts = \<lparr>p_ext = demo_ext, p_hw = 0, p_io = mempool_io demo_world 270, p_executor = demo_executor,
     p_handlers = [], p_sealer = SequencerSealer (SequencerSealer_new demo_config)\<rparr>"

definition demo_keeper :: "nat \<Rightarrow> (MempoolIO, (nat, nat) VmInstance BatchExecutorHandle) ZkSyncStateKeeper" where
  "demo_keeper stop = \<lparr>k_io = demo_io, batch_executor = Stopped [], updates_manager =
     the (UpdatesManager_new demo_batch_env demo_system_env), k_outputs = [], k_stop = stop\<rparr>"

theorem sealed_blocks_form_chain_witness:
  "chained demo_ext (sealed (k_outputs (snd (run demo_parts (demo_keeper 1000)))))"
  using sealed_blocks_form_chain [of demo_parts demo_world 270 "demo_keeper 1000" "fst (run demo_parts (demo_keeper 1000))"]
  by (simp add: demo_parts_def demo_keeper_def)

end
