(* ===== verification/KeeperLimits.thy ===== *)
theory KeeperLimits
  imports StateKeeper
begin

text \<open>
  The limits of a batch at the level of the state keeper: the seal criteria decide on data that is computed before
  a transaction is added, and the theorem here is about the updates manager after it was added, for every
  block and batch the keeper produces. It connects the seal criteria, the deduplicator, the encoding of
  transactions and the loop of the keeper.
\<close>

definition updates_fit :: "nat \<Rightarrow> StateKeeperConfig \<Rightarrow> UpdatesManager \<Rightarrow> bool" where
  "updates_fit hw cfg um \<longleftrightarrow>
     (let pv = protocol_version um; vm = vm_version_from pv; wm = dd_metrics (storage_writes_deduplicator um) in
      \<not> any_field_greater_than (max_single_tx_gas cfg) (gas_add (pending_l1_gas_count um) (gas_count_from_writes wm pv)) \<and>
      em_size (pending_execution_metrics um) + wm_size pv wm + execution_metrics_bootloader_batch_tip_overhead vm
        \<le> unat (max_pubdata_per_batch cfg) \<and>
      (list_all (\<lambda>t. tx_bytes (er_transaction t) < 2 ^ 64) (pending_transactions um) \<longrightarrow>
       pending_txs_encoding_size um \<le> unat (get_bootloader_encoding_space hw vm)))"

definition empty_or_fits :: "nat \<Rightarrow> StateKeeperConfig \<Rightarrow> UpdatesManager \<Rightarrow> bool" where
  "empty_or_fits hw cfg um \<longleftrightarrow> pending_transactions um = [] \<or> updates_fit hw cfg um"

fun output_fits :: "nat \<Rightarrow> StateKeeperConfig \<Rightarrow> Output \<Rightarrow> bool" where
  "output_fits hw cfg (L2BlockSealed um) = empty_or_fits hw cfg um"
| "output_fits hw cfg _ = True"

text \<open>
  The kind of a write (initial or repeated) is a fact about its key while a batch is open: whether the key had an
  index in the tree before the batch.
\<close>

definition kinds_tracked :: "(storage_key \<Rightarrow> bool) \<Rightarrow> 'vm BatchExecutor \<Rightarrow> bool" where
  "kinds_tracked ini ops \<longleftrightarrow>
     (\<forall>tx h r m compressed trace gas_left h'.
        execute_tx ops tx h = (Ok (TxSuccess r m compressed trace gas_left), h') \<longrightarrow>
        kinds_ok ini (storage_logs (logs r)))"

section \<open>One transaction\<close>

lemma updates_fit_push [simp]: "updates_fit hw cfg (push_l2_block ext params um) = updates_fit hw cfg um"
  by (simp add: updates_fit_def)

lemma updates_fit_cong:
  assumes "pending_transactions um' = pending_transactions um" "pending_l1_gas_count um' = pending_l1_gas_count um"
    "pending_execution_metrics um' = pending_execution_metrics um" "protocol_version um' = protocol_version um"
    "pending_txs_encoding_size um' = pending_txs_encoding_size um"
    "dd_metrics (storage_writes_deduplicator um') = dd_metrics (storage_writes_deduplicator um)"
  shows "updates_fit hw cfg um' = updates_fit hw cfg um"
  unfolding updates_fit_def assms ..

lemma pending_dedup [simp]:
  "pending_transactions (um\<lparr>storage_writes_deduplicator := dd\<rparr>) = pending_transactions um"
  "pending_l1_gas_count (um\<lparr>storage_writes_deduplicator := dd\<rparr>) = pending_l1_gas_count um"
  "pending_execution_metrics (um\<lparr>storage_writes_deduplicator := dd\<rparr>) = pending_execution_metrics um"
  "pending_txs_encoding_size (um\<lparr>storage_writes_deduplicator := dd\<rparr>) = pending_txs_encoding_size um"
  by (simp_all add: pending_transactions_def pending_l1_gas_count_def pending_execution_metrics_def
      pending_txs_encoding_size_def)

text \<open>Measuring leaves the state of the batch as it was.\<close>

lemma resolution_keeps:
  assumes "seal_resolution p tx res um = Some (resolution, um1)" "dd_inv ini (storage_writes_deduplicator um)"
    and "\<And>r m compressed trace gas_left. res = TxSuccess r m compressed trace gas_left \<Longrightarrow> kinds_ok ini (storage_logs (logs r))"
  shows "dd_inv ini (storage_writes_deduplicator um1) \<and> empty_or_fits hw cfg um1 = empty_or_fits hw cfg um"
proof (cases res)
  case (TxSuccess r m compressed trace gas_left)
  then obtain mt dd where a: "apply_and_rollback (storage_logs (logs r)) (storage_writes_deduplicator um) = Some (mt, dd)"
    and um1: "um1 = um\<lparr>storage_writes_deduplicator := dd\<rparr>"
    using assms(1) by (auto simp: bind_eq_Some_conv)
  have "dd_inv ini dd" "dd_metrics dd = dd_metrics (storage_writes_deduplicator um)"
    using measure_then_apply [OF assms(2) assms(3) [OF TxSuccess] a] by auto
  then show ?thesis unfolding um1 empty_or_fits_def
    using updates_fit_cong [of "um\<lparr>storage_writes_deduplicator := dd\<rparr>" um] by simp
qed (use assms in auto)

lemma accepted_tx_fits:
  assumes seal: "seal_resolution p tx (TxSuccess r m compressed trace gas_left) um = Some (resolution, um1)"
    and accepted: "resolution = NoSeal \<or> resolution = IncludeAndSeal"
    and ext: "extend_from_executed_transaction (p_ext p) tx r compressed (l1_gas m) (criteria_metrics m) trace' um1 = Some um2"
    and inv: "dd_inv ini (storage_writes_deduplicator um)" and kinds: "kinds_ok ini (storage_logs (logs r))"
    and sealer: "p_sealer p = SequencerSealer (SequencerSealer_new cfg)" and abi: "abi_lengths (abi_encode_tokens (p_ext p))"
  shows "updates_fit (p_hw p) cfg um2 \<and> dd_inv ini (storage_writes_deduplicator um2)"
proof -
  obtain mt dd tw where a: "apply_and_rollback (storage_logs (logs r)) (storage_writes_deduplicator um) = Some (mt, dd)"
    and um1: "um1 = um\<lparr>storage_writes_deduplicator := dd\<rparr>"
    and s: "should_seal_l1_batch (p_hw p) (p_sealer p) (pending_executed_transactions_len um + 1)
        (block_seal_data um tx mt m gas_left) (tx_seal_data um tx tw m gas_left) (protocol_version um) = Some resolution"
    using seal by (auto simp: bind_eq_Some_conv)
  have fits: "batch_fits (p_hw p) cfg (block_seal_data um tx mt m gas_left) (tx_seal_data um tx tw m gas_left) (protocol_version um)"
    using accepted_fits [OF s [unfolded sealer] accepted] by simp
  obtain s3 where s3: "dd_apply (storage_logs (logs r)) dd = Some s3" "dd_inv ini s3" "dd_metrics s3 = mt"
    using measure_then_apply [OF inv kinds a] by blast
  have dd2: "storage_writes_deduplicator um2 = s3"
    using ext s3(1) by (elim extend_Some) (simp add: um1)
  obtain t where t: "pending_transactions um2 = pending_transactions um1 @ [t]" "er_transaction t = tx"
    "tx_result_ok (p_ext p) t"
    "pending_txs_encoding_size um2 = pending_txs_encoding_size um1 + tx_size (p_ext p) t"
    "pending_l1_gas_count um2 = gas_add (pending_l1_gas_count um1) (l1_gas m)"
    "em_size (pending_execution_metrics um2) = em_size (pending_execution_metrics um1) + em_size (criteria_metrics m)"
    "protocol_version um2 = protocol_version um1"
    using extend_pending [OF ext] by metis
  have size: "tx_size (p_ext p) t = encoding_len tx" if "tx_bytes tx < 2 ^ 64"
    using bootloader_encoding_size_eq [OF abi that] t(2,3) by (auto simp: tx_size_def tx_result_ok_def split: if_splits)
  have gas: "gas_add (gas_add (pending_l1_gas_count um) (l1_gas m)) (gas_count_from_writes mt (protocol_version um)) =
      gas_add (gas_add (l1_gas m) (gas_count_from_writes mt (protocol_version um))) (pending_l1_gas_count um)"
    by (simp add: gas_add_def algebra_simps)
  show ?thesis
    using fits s3(2) size
    by (auto simp: updates_fit_def batch_fits_def Let_def dd2 s3(3) t um1 gas block_seal_data_def data_size_def
        algebra_simps)
qed

section \<open>The loop\<close>

definition within_limits ::
  "(storage_key \<Rightarrow> bool) \<Rightarrow> ('io, 'vm) Parts \<Rightarrow> StateKeeperConfig \<Rightarrow> ('io, 'vm) ZkSyncStateKeeper \<Rightarrow> bool" where
  "within_limits ini p cfg k \<longleftrightarrow>
     dd_inv ini (storage_writes_deduplicator (updates_manager k)) \<and> empty_or_fits (p_hw p) cfg (updates_manager k) \<and>
     list_all (output_fits (p_hw p) cfg) (k_outputs k)"

definition outputs_within_limits :: "('io, 'vm) Parts \<Rightarrow> StateKeeperConfig \<Rightarrow> ('io, 'vm) ZkSyncStateKeeper \<Rightarrow> bool" where
  "outputs_within_limits p cfg k \<longleftrightarrow> list_all (output_fits (p_hw p) cfg) (k_outputs k)"

text \<open>The decision on a transaction is one under which it may be added.\<close>

definition may_be_added ::
  "(storage_key \<Rightarrow> bool) \<Rightarrow> ('io, 'vm) Parts \<Rightarrow> StateKeeperConfig \<Rightarrow> tx \<Rightarrow> SealResolution \<times> TxExecutionResult \<Rightarrow>
   UpdatesManager \<Rightarrow> bool" where
  "may_be_added ini p cfg tx res um \<longleftrightarrow>
     (fst res = NoSeal \<or> fst res = IncludeAndSeal \<longrightarrow>
      (\<forall>r m compressed trace gas_left trace' um2. snd res = TxSuccess r m compressed trace gas_left \<longrightarrow>
         extend_from_executed_transaction (p_ext p) tx r compressed (l1_gas m) (criteria_metrics m) trace' um = Some um2 \<longrightarrow>
         updates_fit (p_hw p) cfg um2 \<and> dd_inv ini (storage_writes_deduplicator um2)))"

lemma within_limits_simps [simp]:
  "within_limits ini p cfg (k\<lparr>k_io := io\<rparr>) = within_limits ini p cfg k"
  "within_limits ini p cfg (k\<lparr>batch_executor := vm\<rparr>) = within_limits ini p cfg k"
  "within_limits ini p cfg (polled k) = within_limits ini p cfg k"
  "within_limits ini p cfg k \<Longrightarrow> outputs_within_limits p cfg k"
  by (simp_all add: within_limits_def outputs_within_limits_def polled_def)

lemma limits_on_io:
  "triple (within_limits ini p cfg) (on_io m) (\<lambda>_. within_limits ini p cfg) (outputs_within_limits p cfg)"
  by (rule triple_on_io) auto

lemma limits_on_executor:
  "triple (within_limits ini p cfg) (on_executor m) (\<lambda>_. within_limits ini p cfg) (outputs_within_limits p cfg)"
  by (rule triple_on_executor) auto

lemma limits_lift:
  "triple (within_limits ini p cfg) (lift r) (\<lambda>_. within_limits ini p cfg) (outputs_within_limits p cfg)"
  by (rule triple_lift) auto

lemma limits_assert:
  "triple (within_limits ini p cfg) (assert_that A) (\<lambda>_. within_limits ini p cfg) (outputs_within_limits p cfg)"
  by (auto simp: triple_def assert_that_def)

lemma limits_seal:
  "triple (within_limits ini p cfg) (seal_l2_block p) (\<lambda>_. within_limits ini p cfg) (outputs_within_limits p cfg)"
  by (auto simp: triple_def seal_l2_block_def handle_output_def Let_def within_limits_def outputs_within_limits_def
      split: outcome.splits)

lemma limits_open_next:
  "triple (within_limits ini p cfg) (open_next_l2_block p) (\<lambda>_. within_limits ini p cfg) (outputs_within_limits p cfg)"
proof (rule tripleI)
  fix k x k'
  assume k: "within_limits ini p cfg k" and run: "open_next_l2_block p k = (Ok x, k')"
  obtain params where "updates_manager k' = push_l2_block (p_ext p) params (updates_manager k)" "k_outputs k' = k_outputs k"
    using open_next_Ok [OF run] by metis
  then show "within_limits ini p cfg k'" using k by (simp add: within_limits_def empty_or_fits_def)
next
  fix k r k'
  assume k: "within_limits ini p cfg k" and run: "open_next_l2_block p k = (r, k')"
  then have "k_outputs k' = k_outputs k" using quiet_open_next [of p] unfolding quiet_def by blast
  then show "outputs_within_limits p cfg k'" using k by (simp add: within_limits_def outputs_within_limits_def)
qed

lemma limits_roll:
  "triple (within_limits ini p cfg) (roll_l2_block p) (\<lambda>_. within_limits ini p cfg) (outputs_within_limits p cfg)"
  by (rule triple_state [OF roll_l2_block_def], rule triple_bind [OF limits_on_io])
     (auto intro!: triple_return triple_bind [OF limits_seal] limits_open_next)

text \<open>The assumptions on the parts of the keeper.\<close>

definition sequencer_parts :: "(storage_key \<Rightarrow> bool) \<Rightarrow> ('io, 'vm) Parts \<Rightarrow> StateKeeperConfig \<Rightarrow> bool" where
  "sequencer_parts ini p cfg \<longleftrightarrow>
     kinds_tracked ini (p_executor p) \<and> p_sealer p = SequencerSealer (SequencerSealer_new cfg) \<and>
     abi_lengths (abi_encode_tokens (p_ext p))"

lemma limits_process_one_tx:
  assumes "sequencer_parts ini p cfg"
  shows "triple (within_limits ini p cfg) (process_one_tx p tx)
    (\<lambda>res k. within_limits ini p cfg k \<and> may_be_added ini p cfg tx res (updates_manager k)) (outputs_within_limits p cfg)"
proof (rule tripleI)
  fix k res k'
  assume k: "within_limits ini p cfg k" and run: "process_one_tx p tx k = (Ok res, k')"
  obtain h' um1 where ex: "execute_tx (p_executor p) tx (batch_executor k) = (Ok (snd res), h')"
    and s: "seal_resolution p tx (snd res) (updates_manager k) = Some (fst res, um1)"
    and k': "updates_manager k' = um1" "k_outputs k' = k_outputs k"
    using run by (auto simp: process_one_tx_def bind_action_Ok on_executor_def split: prod.splits option.splits)
  have kinds: "kinds_ok ini (storage_logs (logs r))" if "snd res = TxSuccess r m compressed trace gas_left"
    for r m compressed trace gas_left
    using assms ex that unfolding sequencer_parts_def kinds_tracked_def by metis
  have inv: "dd_inv ini (storage_writes_deduplicator (updates_manager k))" using k by (simp add: within_limits_def)
  have "within_limits ini p cfg k'"
    using resolution_keeps [OF s inv kinds] k k' by (auto simp: within_limits_def)
  moreover have "may_be_added ini p cfg tx res um1"
    unfolding may_be_added_def
  proof (intro impI allI)
    fix r m compressed trace gas_left trace' um2
    assume acc: "fst res = NoSeal \<or> fst res = IncludeAndSeal" and res: "snd res = TxSuccess r m compressed trace gas_left"
      and e: "extend_from_executed_transaction (p_ext p) tx r compressed (l1_gas m) (criteria_metrics m) trace' um1 = Some um2"
    show "updates_fit (p_hw p) cfg um2 \<and> dd_inv ini (storage_writes_deduplicator um2)"
      using assms by (intro accepted_tx_fits [OF s [unfolded res] acc e inv kinds [OF res]]) (simp_all add: sequencer_parts_def)
  qed
  ultimately show "within_limits ini p cfg k' \<and> may_be_added ini p cfg tx res (updates_manager k')"
    using k' by simp
next
  fix k r k'
  assume k: "within_limits ini p cfg k" and run: "process_one_tx p tx k = (r, k')"
  then have "k_outputs k' = k_outputs k"
    by (auto simp: process_one_tx_def bind_action_def on_executor_def split: prod.splits option.splits outcome.splits)
  then show "outputs_within_limits p cfg k'" using k by (simp add: within_limits_def outputs_within_limits_def)
qed

lemma limits_extend:
  "triple (\<lambda>k. within_limits ini p cfg k \<and> may_be_added ini p cfg tx (resolution, TxSuccess r m compressed trace gas_left) (updates_manager k)
      \<and> (resolution = NoSeal \<or> resolution = IncludeAndSeal))
    (extend_updates p tx r compressed m trace') (\<lambda>_. within_limits ini p cfg) (outputs_within_limits p cfg)"
  by (auto simp: triple_def extend_updates_def set_updates_def may_be_added_def within_limits_def empty_or_fits_def
      outputs_within_limits_def split: option.splits)

lemma limits_apply_resolution:
  "triple (\<lambda>k. within_limits ini p cfg k \<and> may_be_added ini p cfg tx res (updates_manager k))
    (apply_resolution p tx res) (\<lambda>_. within_limits ini p cfg) (outputs_within_limits p cfg)"
proof (cases "fst res = NoSeal \<or> fst res = IncludeAndSeal")
  case True
  have ext: "triple (\<lambda>k. within_limits ini p cfg k \<and> may_be_added ini p cfg tx res (updates_manager k))
      (extend_updates p tx r compressed m trace) (\<lambda>_. within_limits ini p cfg) (outputs_within_limits p cfg)"
    if "snd res = TxSuccess r m compressed trace gas_left" for r m compressed trace gas_left
  proof -
    have res: "res = (fst res, TxSuccess r m compressed trace gas_left)" using that by (simp add: prod_eq_iff)
    show ?thesis
      by (rule triple_conseq [OF limits_extend [of ini p cfg tx "fst res" r m compressed trace gas_left]])
         (use True res in auto)
  qed
  have "triple (\<lambda>k. within_limits ini p cfg k \<and> may_be_added ini p cfg tx res (updates_manager k))
      (lift Panic) (\<lambda>_. within_limits ini p cfg) (outputs_within_limits p cfg)"
    by (rule triple_conseq [OF limits_lift]) auto
  then show ?thesis
    using True ext by (auto simp: apply_resolution_def split: TxExecutionResult.splits)
next
  case False
  then have "triple (within_limits ini p cfg) (apply_resolution p tx res) (\<lambda>_. within_limits ini p cfg) (outputs_within_limits p cfg)"
    by (auto simp: apply_resolution_def intro!: triple_bind [OF limits_on_executor] limits_on_io split: SealResolution.splits)
  then show ?thesis by (rule triple_conseq) auto
qed

lemma limits_iteration:
  assumes "sequencer_parts ini p cfg"
  shows "triple (within_limits ini p cfg) (process_iteration p) (\<lambda>_. within_limits ini p cfg) (outputs_within_limits p cfg)"
  by (rule triple_state [OF process_iteration_def], rule triple_bind [OF limits_on_io])
     (auto intro!: triple_return triple_bind [OF limits_roll] triple_bind [OF limits_on_io]
       triple_bind [OF limits_process_one_tx [OF assms]] triple_bind [OF limits_apply_resolution] split: option.splits)

lemma limits_loop:
  assumes "sequencer_parts ini p cfg"
  shows "triple (within_limits ini p cfg) (process_loop p n) (\<lambda>_. within_limits ini p cfg) (outputs_within_limits p cfg)"
proof (induction n)
  case (Suc n)
  have "triple (within_limits ini p cfg) (bind_action (process_iteration p) (\<lambda>done.
        if done then return () else process_loop p n)) (\<lambda>_. within_limits ini p cfg) (outputs_within_limits p cfg)"
    by (rule triple_bind [OF limits_iteration [OF assms]]) (auto intro: triple_return Suc)
  then show ?case
    by (auto simp: triple_def split: prod.splits outcome.splits)
qed (auto simp: triple_def)

lemma limits_upgrade:
  assumes "sequencer_parts ini p cfg"
  shows "triple (within_limits ini p cfg) (process_upgrade_tx p d) (\<lambda>_. within_limits ini p cfg) (outputs_within_limits p cfg)"
proof -
  let ?tx = "TxProtocolUpgrade d"
  have err: "triple (\<lambda>k. within_limits ini p cfg k \<and> may_be_added ini p cfg ?tx res (updates_manager k))
      (lift (Err e)) (\<lambda>_. within_limits ini p cfg) (outputs_within_limits p cfg)" for res e
    by (rule triple_conseq [OF limits_lift]) auto
  have ext: "triple (\<lambda>k. within_limits ini p cfg k \<and> may_be_added ini p cfg ?tx (resolution, TxSuccess r m compressed trace gas_left) (updates_manager k))
      (extend_updates p ?tx r compressed m []) (\<lambda>_. within_limits ini p cfg) (outputs_within_limits p cfg)"
    if "resolution = NoSeal \<or> resolution = IncludeAndSeal" for resolution r m compressed trace gas_left
    by (rule triple_conseq [OF limits_extend [of ini p cfg ?tx resolution r m compressed trace gas_left]]) (use that in auto)
  show ?thesis unfolding process_upgrade_tx_def
    by (rule triple_bind [OF limits_assert], rule triple_bind [OF limits_process_one_tx [OF assms]])
       (auto intro!: err ext split: SealResolution.splits TxExecutionResult.splits)
qed

lemma limits_process_l1_batch:
  assumes "sequencer_parts ini p cfg"
  shows "triple (within_limits ini p cfg) (process_l1_batch p upgrade) (\<lambda>_. within_limits ini p cfg) (outputs_within_limits p cfg)"
  unfolding process_l1_batch_def
  by (rule triple_bind [where R = "\<lambda>_. within_limits ini p cfg"])
     (auto intro: triple_return limits_upgrade [OF assms] limits_loop [OF assms]
         triple_state [where m = "\<lambda>k. process_loop p (k_stop k)"] split: option.splits)

lemma new_updates:
  "UpdatesManager_new be se = Some um \<Longrightarrow> pending_transactions um = [] \<and> storage_writes_deduplicator um = StorageWritesDeduplicator_new"
  by (auto simp: UpdatesManager_new_def pending_transactions_def L1BatchUpdates_new_def L2BlockUpdates_new_def)

lemma new_within_limits:
  assumes "UpdatesManager_new be se = Some (updates_manager k)" "k_outputs k = []"
  shows "within_limits ini p cfg k"
  using new_updates [OF assms(1)] assms(2) by (simp add: within_limits_def empty_or_fits_def dd_new_inv)

text \<open>
  C3. Batches stay within the limits: with the default criteria of the sequencer and an executor that reports the kind
  of a write consistently, every L2 block that \<open>process_l1_batch\<close> seals in a new batch, however it ends, and
  the state it leaves behind when it returns, either has no transaction in its batch yet or is a batch whose L1 gas
  with the deduplicated writes, pubdata with the reserve for the batch tip, and encodings are within the
  configured limits and the memory of the bootloader.
\<close>

theorem batches_within_limits:
  assumes "sequencer_parts ini p cfg" "UpdatesManager_new be se = Some (updates_manager k)" "k_outputs k = []"
    and "process_l1_batch p upgrade k = (r, k')"
  shows "list_all (output_fits (p_hw p) cfg) (k_outputs k') \<and>
    (r = Ok () \<longrightarrow> empty_or_fits (p_hw p) cfg (updates_manager k'))"
proof (cases "r = Ok ()")
  case True
  then show ?thesis
    using triple_Ok [OF limits_process_l1_batch [OF assms(1)] new_within_limits [OF assms(2,3)]] assms(4)
    by (auto simp: within_limits_def)
next
  case False
  then show ?thesis
    using triple_fail [OF limits_process_l1_batch [OF assms(1)] new_within_limits [OF assms(2,3)] assms(4)]
    by (auto simp: outputs_within_limits_def)
qed

lemma demo_sequencer_parts: "sequencer_parts (\<lambda>_. False) demo_parts demo_config"
proof -
  have "kinds_tracked (\<lambda>_. False) demo_executor"
    unfolding kinds_tracked_def demo_executor_def
    by (auto elim!: main_execute_Ok simp: receiver_execute_tx_def execute_tx_in_vm_def inspect_def demo_vm_def
        executed_result_def demo_result_def kinds_ok_def)
  then show ?thesis by (simp add: sequencer_parts_def demo_parts_def demo_ext_abi)
qed

theorem batches_within_limits_witness:
  "list_all (output_fits 0 demo_config) (k_outputs (snd (process_l1_batch demo_parts None (demo_keeper 1000))))"
proof -
  have "UpdatesManager_new demo_batch_env demo_system_env = Some (updates_manager (demo_keeper 1000))"
    by (simp add: demo_keeper_def UpdatesManager_new_def demo_batch_env_def get_batch_base_fee_def)
  then show ?thesis
    using batches_within_limits [OF demo_sequencer_parts _ _ prod.collapse [symmetric], of demo_batch_env demo_system_env "demo_keeper 1000" None]
    by (simp add: demo_keeper_def) (simp add: demo_parts_def)
qed

end
