(* ===== verification/KeeperRestore.thy ===== *)
theory KeeperRestore
  imports StateKeeper
begin

text \<open>
  Restarting the state keeper in the middle of a batch: re-executing the blocks that were sealed (\<open>restore_state\<close>)
  gives the updates manager and the executor of the run that sealed them, although that run also executed
  and rolled back other transactions.
\<close>

section \<open>What is stored and what is compared\<close>

text \<open>The data of a sealed block that is stored for re-execution.\<close>

definition execution_data :: "UpdatesManager \<Rightarrow> L2BlockExecutionData" where
  "execution_data um = (let u = l2_block um in
     \<lparr>xd_number = block_number u, xd_timestamp = block_timestamp u, xd_prev_block_hash = prev_block_hash u,
      xd_virtual_blocks = virtual_blocks u, xd_txs = map er_transaction (executed_transactions u)\<rparr>)"

text \<open>
  The deduplicator remembers the initial values of all the keys it has seen, also those of transactions that were
  rolled back. Two managers are the same if they differ in nothing else.
\<close>

definition forget :: "UpdatesManager \<Rightarrow> UpdatesManager" where
  "forget um = um\<lparr>storage_writes_deduplicator := StorageWritesDeduplicator_new\<rparr>"

definition same_updates :: "UpdatesManager \<Rightarrow> UpdatesManager \<Rightarrow> bool" where
  "same_updates a b \<longleftrightarrow>
     forget a = forget b \<and> dd_view (storage_writes_deduplicator a) = dd_view (storage_writes_deduplicator b)"

section \<open>What is assumed of the executor\<close>

text \<open>
  The logs of a transaction are truthful: \<open>value h\<close> is the storage as the executor \<open>h\<close> sees it; the previous
  value of the first write to a key is its value, a key that is not written keeps it, and the kind of a write is
  initial exactly for the keys of \<open>ini\<close>. Starting a block does not write.
\<close>

definition truthful :: "(storage_key \<Rightarrow> bool) \<Rightarrow> ('vm \<Rightarrow> storage_key \<Rightarrow> u256) \<Rightarrow> 'vm BatchExecutor \<Rightarrow> bool" where
  "truthful ini value ops \<longleftrightarrow>
     (\<forall>tx h r m compressed trace gas_left h'.
        execute_tx ops tx h = (Ok (TxSuccess r m compressed trace gas_left), h') \<longrightarrow>
        kinds_ok ini (storage_logs (logs r)) \<and>
        (\<forall>x. (writes_to x (storage_logs (logs r)) = [] \<longrightarrow> value h' x = value h x) \<and>
             (\<forall>w ws. writes_to x (storage_logs (logs r)) = w # ws \<longrightarrow> previous_value w = value h x))) \<and>
     (\<forall>env h h'. start_next_l2_block ops env h = (Ok (), h') \<longrightarrow> value h' = value h)"

text \<open>The deduplicator agrees with the storage at the start of the batch.\<close>

definition dd_ok ::
  "(storage_key \<Rightarrow> bool) \<Rightarrow> (storage_key \<Rightarrow> u256) \<Rightarrow> (storage_key \<Rightarrow> u256) \<Rightarrow> StorageWritesDeduplicator \<Rightarrow> bool" where
  "dd_ok ini base now s \<longleftrightarrow> dd_inv ini s \<and> dd_base base s \<and>
     (\<forall>x. map_of (initial_values s) x = None \<longrightarrow> now x = base x)"

lemma truthfulD:
  assumes "truthful ini value ops" "execute_tx ops tx h = (Ok (TxSuccess r m compressed trace gas_left), h')"
    and "dd_ok ini base (value h) s"
  shows "kinds_ok ini (storage_logs (logs r))" "starts_from base (storage_logs (logs r)) s"
    "\<And>x. writes_to x (storage_logs (logs r)) = [] \<Longrightarrow> value h' x = value h x"
proof -
  have t: "kinds_ok ini (storage_logs (logs r)) \<and>
        (\<forall>x. (writes_to x (storage_logs (logs r)) = [] \<longrightarrow> value h' x = value h x) \<and>
             (\<forall>w ws. writes_to x (storage_logs (logs r)) = w # ws \<longrightarrow> previous_value w = value h x))"
    using assms(1,2) unfolding truthful_def by metis
  then show "kinds_ok ini (storage_logs (logs r))"
    "\<And>x. writes_to x (storage_logs (logs r)) = [] \<Longrightarrow> value h' x = value h x" by blast+
  show "starts_from base (storage_logs (logs r)) s"
    using t assms(3) unfolding starts_from_def dd_ok_def by metis
qed

section \<open>The deduplicator\<close>

lemma dd_ok_apply:
  assumes "dd_ok ini base now s" "kinds_ok ini ls" "starts_from base ls s"
    and "\<And>x. writes_to x ls = [] \<Longrightarrow> now' x = now x"
  shows "\<exists>s'. dd_apply ls s = Some s' \<and> dd_ok ini base now' s' \<and>
    (\<forall>x. map_of (modified_key_values s') x = slot_after (Some (base x)) (map_of (modified_key_values s) x) (writes_to x ls))"
  using apply_from_base [of ini s ls base] assms unfolding dd_ok_def by metis

lemma dd_ok_measure:
  assumes "dd_ok ini base now s" "kinds_ok ini ls" "starts_from base ls s" "apply_and_rollback ls s = Some (mt, s2)"
  shows "dd_ok ini base now s2 \<and> dd_view s2 = dd_view s"
  using measure_from_base [of ini s ls base mt s2] assms unfolding dd_ok_def by metis

lemma dd_view_eq:
  assumes "dd_ok ini base now s" "dd_ok ini base now' s'" "map_of (modified_key_values s) = map_of (modified_key_values s')"
  shows "dd_view s = dd_view s'"
  using assms dd_inv_metrics_cong [of ini s s'] by (auto simp: dd_view_def dd_ok_def)

section \<open>The updates manager\<close>

lemma forget_simps [simp]:
  "forget (um\<lparr>storage_writes_deduplicator := dd\<rparr>) = forget um"
  "l2_block (forget um) = l2_block um" "l1_batch (forget um) = l1_batch um"
  "forget (push_l2_block ext params um) = push_l2_block ext params (forget um)"
  by (simp_all add: forget_def push_l2_block_def)

lemma same_updates_blocks:
  assumes "same_updates a b"
  shows "l2_block a = l2_block b" "l1_batch a = l1_batch b"
  using assms by (metis same_updates_def forget_simps(2,3))+

text \<open>Adding a transaction to the same managers gives the same managers.\<close>

lemma extend_same:
  assumes same: "same_updates a b" and ext: "extend_from_executed_transaction ext tx r compressed g em trace b = Some b'"
    and a: "dd_ok ini base now (storage_writes_deduplicator a)" and b: "dd_ok ini base now (storage_writes_deduplicator b)"
    and kinds: "kinds_ok ini (storage_logs (logs r))"
    and start: "starts_from base (storage_logs (logs r)) (storage_writes_deduplicator a)"
      "starts_from base (storage_logs (logs r)) (storage_writes_deduplicator b)"
    and frame: "\<And>x. writes_to x (storage_logs (logs r)) = [] \<Longrightarrow> now' x = now x"
  shows "\<exists>a'. extend_from_executed_transaction ext tx r compressed g em trace a = Some a' \<and> same_updates a' b' \<and>
    dd_ok ini base now' (storage_writes_deduplicator a') \<and> dd_ok ini base now' (storage_writes_deduplicator b')"
proof -
  obtain da where da: "dd_apply (storage_logs (logs r)) (storage_writes_deduplicator a) = Some da" "dd_ok ini base now' da"
    "\<And>x. map_of (modified_key_values da) x = slot_after (Some (base x))
       (map_of (modified_key_values (storage_writes_deduplicator a)) x) (writes_to x (storage_logs (logs r)))"
    using dd_ok_apply [OF a kinds start(1) frame] by blast
  obtain db where db: "dd_apply (storage_logs (logs r)) (storage_writes_deduplicator b) = Some db" "dd_ok ini base now' db"
    "\<And>x. map_of (modified_key_values db) x = slot_after (Some (base x))
       (map_of (modified_key_values (storage_writes_deduplicator b)) x) (writes_to x (storage_logs (logs r)))"
    using dd_ok_apply [OF b kinds start(2) frame] by blast
  have mods: "map_of (modified_key_values da) = map_of (modified_key_values db)"
    using same by (auto simp: da(3) db(3) same_updates_def dd_view_def)
  obtain u where u: "block_extend_from_executed_transaction ext tx r g em compressed trace (l2_block b) = Some u"
    "b' = b\<lparr>l2_block := u, storage_writes_deduplicator := db\<rparr>"
    using ext db(1) by (elim extend_Some) auto
  have "extend_from_executed_transaction ext tx r compressed g em trace a =
      Some (a\<lparr>l2_block := u, storage_writes_deduplicator := da\<rparr>)"
    using u(1) da(1) same_updates_blocks [OF same] by (simp add: extend_from_executed_transaction_def)
  moreover have "forget (a\<lparr>l2_block := u, storage_writes_deduplicator := da\<rparr>) = forget b'"
  proof -
    have upd: "forget (um\<lparr>l2_block := u, storage_writes_deduplicator := d\<rparr>) = (forget um)\<lparr>l2_block := u\<rparr>" for um d
      by (cases um) (simp add: forget_def)
    show ?thesis unfolding u(2) upd using same by (simp add: same_updates_def)
  qed
  ultimately show ?thesis
    using dd_view_eq [OF da(2) db(2) mods] da(2) db(2) by (auto simp: same_updates_def u(2))
qed

section \<open>Re-execution\<close>

lemma reexecute_txs_append: "reexecute_txs p (xs @ ys) = bind_action (reexecute_txs p xs) (\<lambda>_. reexecute_txs p ys)"
  by (induction xs)
     (auto simp: fun_eq_iff bind_action_def return_def lift_def split: prod.splits outcome.splits TxExecutionResult.splits)

lemma bind_action_assoc: "bind_action (bind_action m f) g = bind_action m (\<lambda>x. bind_action (f x) g)"
  by (auto simp: fun_eq_iff bind_action_def split: prod.splits outcome.splits)

lemma bind_return [simp]: "bind_action (return x) f = f x" "bind_action m (\<lambda>u. return u) = m"
  by (auto simp: fun_eq_iff bind_action_def return_def split: prod.splits outcome.splits)

definition start_block ::
  "('io, 'vm) Parts \<Rightarrow> bool \<Rightarrow> L2BlockExecutionData \<Rightarrow> (unit, ('io, 'vm) ZkSyncStateKeeper) action" where
  "start_block p is_first b =
     (if is_first then return ()
      else keeper_start_next_l2_block p \<lparr>params_timestamp = xd_timestamp b, params_virtual_blocks = xd_virtual_blocks b\<rparr>)"

lemma reexecute_blocks_snoc:
  "reexecute_blocks p is_first (bs @ [b]) =
     bind_action (reexecute_blocks p is_first bs) (\<lambda>_.
     bind_action (start_block p (is_first \<and> bs = []) b) (\<lambda>_. reexecute_txs p (xd_txs b)))"
proof (induction bs arbitrary: is_first)
  case Nil
  have "bind_action m (\<lambda>_. return ()) = m" for m :: "(unit, ('a, 'b) ZkSyncStateKeeper) action"
    by (auto simp: fun_eq_iff bind_action_def return_def split: prod.splits outcome.splits)
  then show ?case by (simp add: start_block_def)
next
  case (Cons c bs)
  then show ?case by (simp add: bind_action_assoc start_block_def)
qed

section \<open>The invariant\<close>

text \<open>
  \<open>mirrored\<close>: re-executing the blocks \<open>bs\<close> from the start \<open>k0\<close> of the batch gives the manager and the executor of \<open>k\<close>.
\<close>

definition mirrored ::
  "(storage_key \<Rightarrow> bool) \<Rightarrow> (storage_key \<Rightarrow> u256) \<Rightarrow> ('vm \<Rightarrow> storage_key \<Rightarrow> u256) \<Rightarrow> ('io, 'vm) Parts \<Rightarrow>
   ('io, 'vm) ZkSyncStateKeeper \<Rightarrow> L2BlockExecutionData list \<Rightarrow> ('io, 'vm) ZkSyncStateKeeper \<Rightarrow> bool" where
  "mirrored ini base value p k0 bs k \<longleftrightarrow>
     dd_ok ini base (value (batch_executor k)) (storage_writes_deduplicator (updates_manager k)) \<and>
     (\<exists>kr. reexecute_blocks p True bs k0 = (Ok (), kr) \<and> same_updates (updates_manager kr) (updates_manager k) \<and>
        batch_executor kr = batch_executor k \<and>
        dd_ok ini base (value (batch_executor kr)) (storage_writes_deduplicator (updates_manager kr)))"

definition sealed_data :: "Output list \<Rightarrow> L2BlockExecutionData list" where
  "sealed_data outputs = map (execution_data \<circ> snd) (sealed outputs)"

definition restorable :: "('io, 'vm) Parts \<Rightarrow> ('io, 'vm) ZkSyncStateKeeper \<Rightarrow> Output list \<Rightarrow> bool" where
  "restorable p k0 outputs \<longleftrightarrow>
     (\<forall>pre um post. outputs = pre @ L2BlockSealed um # post \<longrightarrow>
        (\<exists>kr. reexecute_blocks p True (sealed_data (pre @ [L2BlockSealed um])) k0 = (Ok (), kr) \<and>
              same_updates (updates_manager kr) um))"

definition replay_ok ::
  "(storage_key \<Rightarrow> bool) \<Rightarrow> (storage_key \<Rightarrow> u256) \<Rightarrow> ('vm \<Rightarrow> storage_key \<Rightarrow> u256) \<Rightarrow> ('io, 'vm) Parts \<Rightarrow>
   ('io, 'vm) ZkSyncStateKeeper \<Rightarrow> ('io, 'vm) ZkSyncStateKeeper \<Rightarrow> bool" where
  "replay_ok ini base value p k0 k \<longleftrightarrow>
     mirrored ini base value p k0 (sealed_data (k_outputs k) @ [execution_data (updates_manager k)]) k \<and>
     restorable p k0 (k_outputs k)"

definition sealed_ok ::
  "(storage_key \<Rightarrow> bool) \<Rightarrow> (storage_key \<Rightarrow> u256) \<Rightarrow> ('vm \<Rightarrow> storage_key \<Rightarrow> u256) \<Rightarrow> ('io, 'vm) Parts \<Rightarrow>
   ('io, 'vm) ZkSyncStateKeeper \<Rightarrow> ('io, 'vm) ZkSyncStateKeeper \<Rightarrow> bool" where
  "sealed_ok ini base value p k0 k \<longleftrightarrow>
     mirrored ini base value p k0 (sealed_data (k_outputs k)) k \<and> sealed_data (k_outputs k) \<noteq> [] \<and>
     restorable p k0 (k_outputs k)"

lemma mirrored_cong:
  "updates_manager k' = updates_manager k \<Longrightarrow> batch_executor k' = batch_executor k \<Longrightarrow>
   mirrored ini base value p k0 bs k' = mirrored ini base value p k0 bs k"
  by (simp add: mirrored_def)

lemma replay_ok_frame [simp]:
  "replay_ok ini base value p k0 (k\<lparr>k_io := io\<rparr>) = replay_ok ini base value p k0 k"
  "replay_ok ini base value p k0 (polled k) = replay_ok ini base value p k0 k"
  by (simp_all add: replay_ok_def mirrored_def polled_def)

lemma replay_ok_restorable: "replay_ok ini base value p k0 k \<Longrightarrow> restorable p k0 (k_outputs k)"
  by (simp add: replay_ok_def)

lemma restorable_snoc:
  assumes "restorable p k0 outputs"
    and "\<And>um. out = L2BlockSealed um \<Longrightarrow> \<exists>kr. reexecute_blocks p True (sealed_data (outputs @ [out])) k0 = (Ok (), kr) \<and>
           same_updates (updates_manager kr) um"
  shows "restorable p k0 (outputs @ [out])"
  unfolding restorable_def
proof (intro allI impI)
  fix pre um post
  assume eq: "outputs @ [out] = pre @ L2BlockSealed um # post"
  show "\<exists>kr. reexecute_blocks p True (sealed_data (pre @ [L2BlockSealed um])) k0 = (Ok (), kr) \<and>
              same_updates (updates_manager kr) um"
  proof (cases post rule: rev_cases)
    case Nil
    then show ?thesis using eq assms(2) by auto
  next
    case (snoc ys y)
    then have "outputs = pre @ L2BlockSealed um # ys" using eq by (metis append_Cons append_assoc butlast_snoc)
    then show ?thesis using assms(1) unfolding restorable_def by blast
  qed
qed

section \<open>Steps\<close>

lemma seal_replay:
  "triple (replay_ok ini base value p k0) (seal_l2_block p) (\<lambda>_. sealed_ok ini base value p k0)
     (\<lambda>k. restorable p k0 (k_outputs k))"
proof -
  have "restorable p k0 (k_outputs k @ [L2BlockSealed (updates_manager k)])" if "replay_ok ini base value p k0 k" for k
    by (rule restorable_snoc) (use that in \<open>auto simp: replay_ok_def mirrored_def sealed_data_def\<close>)
  then show ?thesis
    by (auto simp: triple_def seal_l2_block_def handle_output_def Let_def sealed_ok_def replay_ok_def mirrored_def
        sealed_data_def split: outcome.splits)
qed

lemma open_next_replay:
  assumes t: "truthful ini value (p_executor p)"
  shows "triple (sealed_ok ini base value p k0) (open_next_l2_block p) (\<lambda>_. replay_ok ini base value p k0)
     (\<lambda>k. restorable p k0 (k_outputs k))"
proof (rule tripleI)
  fix k x k'
  assume k: "sealed_ok ini base value p k0 k" and run: "open_next_l2_block p k = (Ok x, k')"
  obtain params where um': "updates_manager k' = push_l2_block (p_ext p) params (updates_manager k)"
    and out: "k_outputs k' = k_outputs k"
    and vm: "start_next_l2_block (p_executor p) (get_env (l2_block (updates_manager k'))) (batch_executor k) = (Ok (), batch_executor k')"
    using open_next_Ok [OF run] by metis
  have val: "value (batch_executor k') = value (batch_executor k)" using t vm unfolding truthful_def by blast
  obtain kr where kr: "reexecute_blocks p True (sealed_data (k_outputs k)) k0 = (Ok (), kr)"
    "same_updates (updates_manager kr) (updates_manager k)" "batch_executor kr = batch_executor k"
    "dd_ok ini base (value (batch_executor kr)) (storage_writes_deduplicator (updates_manager kr))"
    using k by (auto simp: sealed_ok_def mirrored_def)
  let ?b = "execution_data (updates_manager k')"
  let ?um = "push_l2_block (p_ext p) params (updates_manager kr)"
  have b: "\<lparr>params_timestamp = xd_timestamp ?b, params_virtual_blocks = xd_virtual_blocks ?b\<rparr> = params" "xd_txs ?b = []"
    by (simp_all add: execution_data_def um' push_l2_block_def L2BlockUpdates_new_def Let_def)
  have env: "get_env (l2_block ?um) = get_env (l2_block (updates_manager k'))"
    using same_updates_blocks [OF kr(2)] by (simp add: um' push_l2_block_def)
       (use kr(2) in \<open>simp add: same_updates_def forget_def get_env_def L2BlockUpdates_new_def\<close>)
  have "reexecute_blocks p True (sealed_data (k_outputs k) @ [?b]) k0 = (Ok (), kr\<lparr>updates_manager := ?um, batch_executor := batch_executor k'\<rparr>)"
    using k kr vm by (simp add: reexecute_blocks_snoc bind_action_def b start_block_def sealed_ok_def return_def
        keeper_start_next_l2_block_def Let_def on_executor_def env)
  moreover have "same_updates ?um (updates_manager k')"
    using kr(2) by (simp add: um' same_updates_def)
  ultimately show "replay_ok ini base value p k0 k'"
    using k kr(4) by (auto simp: replay_ok_def mirrored_def out sealed_ok_def val um' kr(3))
next
  fix k r k'
  assume k: "sealed_ok ini base value p k0 k" and run: "open_next_l2_block p k = (r, k')"
  then have "k_outputs k' = k_outputs k" using quiet_open_next [of p] unfolding quiet_def by blast
  then show "restorable p k0 (k_outputs k')" using k by (simp add: sealed_ok_def)
qed

text \<open>A transaction is executed and not yet included: the invariant holds of the executor before it.\<close>

definition undecided ::
  "(storage_key \<Rightarrow> bool) \<Rightarrow> (storage_key \<Rightarrow> u256) \<Rightarrow> ('vm \<Rightarrow> storage_key \<Rightarrow> u256) \<Rightarrow> ('io, 'vm) Parts \<Rightarrow>
   ('io, 'vm) ZkSyncStateKeeper \<Rightarrow> tx \<Rightarrow> TxExecutionResult \<Rightarrow> ('io, 'vm) ZkSyncStateKeeper \<Rightarrow> bool" where
  "undecided ini base value p k0 tx res k \<longleftrightarrow>
     (\<exists>h. execute_tx (p_executor p) tx h = (Ok res, batch_executor k) \<and>
          replay_ok ini base value p k0 (k\<lparr>batch_executor := h\<rparr>))"

lemma undecided_restorable: "undecided ini base value p k0 tx res k \<Longrightarrow> restorable p k0 (k_outputs k)"
  by (auto simp: undecided_def replay_ok_def)

text \<open>Measuring the writes of a transaction changes nothing but the remembered initial values.\<close>

lemma seal_resolution_same:
  assumes t: "truthful ini value (p_executor p)" and run: "execute_tx (p_executor p) tx h = (Ok res, h')"
    and ok: "dd_ok ini base (value h) (storage_writes_deduplicator um)" and res: "seal_resolution p tx res um = Some (resolution, um')"
  shows "same_updates um um' \<and> execution_data um' = execution_data um \<and>
    dd_ok ini base (value h) (storage_writes_deduplicator um')"
proof (cases res)
  case (TxSuccess r m compressed trace gas_left)
  obtain bw dd where dd: "apply_and_rollback (storage_logs (logs r)) (storage_writes_deduplicator um) = Some (bw, dd)"
    "um' = um\<lparr>storage_writes_deduplicator := dd\<rparr>"
    using res TxSuccess by (auto simp: bind_eq_Some_conv)
  note logs = truthfulD [OF t run [unfolded TxSuccess] ok]
  then show ?thesis
    using dd_ok_measure [OF ok logs(1,2) dd(1)] by (simp add: dd(2) same_updates_def execution_data_def)
qed (use res ok in \<open>auto simp: same_updates_def\<close>)

lemma same_updates_trans: "same_updates a b \<Longrightarrow> same_updates b c \<Longrightarrow> same_updates a c"
  by (simp add: same_updates_def)

lemma process_one_replay:
  assumes t: "truthful ini value (p_executor p)"
  shows "triple (replay_ok ini base value p k0) (process_one_tx p tx)
    (\<lambda>(_, res). undecided ini base value p k0 tx res) (\<lambda>k. restorable p k0 (k_outputs k))"
proof (rule tripleI)
  fix k x k'
  assume k: "replay_ok ini base value p k0 k" and run: "process_one_tx p tx k = (Ok x, k')"
  obtain res h resolution um where e: "execute_tx (p_executor p) tx (batch_executor k) = (Ok res, h)"
    and s: "seal_resolution p tx res (updates_manager k) = Some (resolution, um)"
    and x: "x = (resolution, res)" and k': "k' = k\<lparr>batch_executor := h, updates_manager := um\<rparr>"
    using run by (auto simp: process_one_tx_def bind_action_Ok on_executor_def split: prod.splits option.splits)
  have "dd_ok ini base (value (batch_executor k)) (storage_writes_deduplicator (updates_manager k))"
    using k by (simp add: replay_ok_def mirrored_def)
  note same = seal_resolution_same [OF t e this s]
  have "replay_ok ini base value p k0 (k\<lparr>updates_manager := um\<rparr>)"
    using k same by (auto simp: replay_ok_def mirrored_def intro: same_updates_trans)
  moreover have "k'\<lparr>batch_executor := batch_executor k\<rparr> = k\<lparr>updates_manager := um\<rparr>" by (simp add: k')
  ultimately show "(case x of (_, res) \<Rightarrow> undecided ini base value p k0 tx res) k'"
    using e by (auto simp: undecided_def x k')
next
  fix k r k'
  assume k: "replay_ok ini base value p k0 k" and run: "process_one_tx p tx k = (r, k')"
  have "k_outputs k' = k_outputs k"
    using run by (auto simp: process_one_tx_def bind_action_def on_executor_def split: prod.splits option.splits outcome.splits)
  then show "restorable p k0 (k_outputs k')" using k by (simp add: replay_ok_def)
qed

lemma executed_append:
  "block_extend_from_executed_transaction ext tx r g em compressed trace u = Some u' \<Longrightarrow>
   \<exists>er. executed_transactions u' = executed_transactions u @ [er] \<and> er_transaction er = tx \<and>
     block_number u' = block_number u \<and> block_timestamp u' = block_timestamp u \<and>
     prev_block_hash u' = prev_block_hash u \<and> virtual_blocks u' = virtual_blocks u"
  by (elim block_extend_Some) (auto simp: get_env_def)

lemma extend_execution_data:
  assumes "extend_from_executed_transaction ext tx r compressed g em trace um = Some um'"
  shows "execution_data um' = (execution_data um)\<lparr>xd_txs := xd_txs (execution_data um) @ [tx]\<rparr>"
  using assms by (elim extend_Some) (auto simp: execution_data_def Let_def dest!: executed_append)

text \<open>Re-executing one more transaction of the last block.\<close>

lemma reexecute_one_more:
  assumes "reexecute_blocks p True (bs @ [b]) k0 = (Ok (), kr)"
  shows "reexecute_blocks p True (bs @ [b\<lparr>xd_txs := xd_txs b @ [tx]\<rparr>]) k0 = reexecute_txs p [tx] kr"
proof -
  have start: "start_block p c (b\<lparr>xd_txs := txs\<rparr>) = start_block p c b" for c txs by (simp add: start_block_def)
  have "reexecute_blocks p True (bs @ [b\<lparr>xd_txs := xd_txs b @ [tx]\<rparr>]) =
      bind_action (reexecute_blocks p True (bs @ [b])) (\<lambda>_. reexecute_txs p [tx])"
    by (simp add: reexecute_blocks_snoc start reexecute_txs_append bind_action_assoc del: reexecute_txs.simps)
  then show ?thesis using assms by (simp add: bind_action_def)
qed

lemma include_replay:
  assumes t: "truthful ini value (p_executor p)"
  shows "triple (undecided ini base value p k0 tx (TxSuccess r m compressed trace gas_left))
    (extend_updates p tx r compressed m trace) (\<lambda>_. replay_ok ini base value p k0) (\<lambda>k. restorable p k0 (k_outputs k))"
proof (rule tripleI)
  fix k x k'
  assume k: "undecided ini base value p k0 tx (TxSuccess r m compressed trace gas_left) k"
    and run: "extend_updates p tx r compressed m trace k = (Ok x, k')"
  obtain h where e: "execute_tx (p_executor p) tx h = (Ok (TxSuccess r m compressed trace gas_left), batch_executor k)"
    and ok: "replay_ok ini base value p k0 (k\<lparr>batch_executor := h\<rparr>)"
    using k by (auto simp: undecided_def)
  obtain um' where u: "extend_from_executed_transaction (p_ext p) tx r compressed (l1_gas m) (criteria_metrics m) trace
      (updates_manager k) = Some um'" and k': "k' = k\<lparr>updates_manager := um'\<rparr>"
    using run by (auto simp: extend_updates_def set_updates_def split: option.splits)
  obtain kr where kr: "reexecute_blocks p True (sealed_data (k_outputs k) @ [execution_data (updates_manager k)]) k0 = (Ok (), kr)"
    "same_updates (updates_manager kr) (updates_manager k)" "batch_executor kr = h"
    and dd: "dd_ok ini base (value h) (storage_writes_deduplicator (updates_manager kr))"
      "dd_ok ini base (value h) (storage_writes_deduplicator (updates_manager k))"
    using ok by (auto simp: replay_ok_def mirrored_def)
  note live = truthfulD [OF t e dd(2)] and again = truthfulD [OF t e dd(1)]
  obtain ur where ur: "extend_from_executed_transaction (p_ext p) tx r compressed (l1_gas m) (criteria_metrics m) trace
      (updates_manager kr) = Some ur" "same_updates ur um'"
      "dd_ok ini base (value (batch_executor k)) (storage_writes_deduplicator ur)"
      "dd_ok ini base (value (batch_executor k)) (storage_writes_deduplicator um')"
    using extend_same [OF kr(2) u dd live(1) again(2) live(2,3)] by blast
  have "reexecute_txs p [tx] kr = (Ok (), kr\<lparr>batch_executor := batch_executor k, updates_manager := ur\<rparr>)"
    using e ur(1) by (simp add: bind_action_def on_executor_def kr(3) extend_updates_def set_updates_def return_def)
  then show "replay_ok ini base value p k0 k'"
    using ur(2-4) ok by (auto simp: replay_ok_def mirrored_def k' extend_execution_data [OF u] reexecute_one_more [OF kr(1)])
next
  fix k r' k'
  assume k: "undecided ini base value p k0 tx (TxSuccess r m compressed trace gas_left) k"
    and run: "extend_updates p tx r compressed m trace k = (r', k')"
  have "quiet (extend_updates p tx r compressed m trace)" by simp
  then have "k_outputs k' = k_outputs k" using run unfolding quiet_def by blast
  then show "restorable p k0 (k_outputs k')" using undecided_restorable [OF k] by simp
qed

lemma exclude_replay:
  assumes "executor ext (p_executor p)"
  shows "triple (undecided ini base value p k0 tx res) (on_executor (rollback_last_tx (p_executor p)))
    (\<lambda>_. replay_ok ini base value p k0) (\<lambda>k. restorable p k0 (k_outputs k))"
proof -
  have "rollback_last_tx (p_executor p) h' = (Ok (), h)" if "execute_tx (p_executor p) tx h = (Ok res, h')" for h h'
    using executor.rollback_undoes [OF assms that] .
  then show ?thesis
    by (auto simp: triple_def on_executor_def undecided_def)
qed

lemma replay_on_io:
  "triple (replay_ok ini base value p k0) (on_io m) (\<lambda>_. replay_ok ini base value p k0) (\<lambda>k. restorable p k0 (k_outputs k))"
  by (rule triple_on_io) (auto simp: replay_ok_restorable)

lemma apply_resolution_replay:
  assumes "executor ext (p_executor p)" "truthful ini value (p_executor p)"
  shows "triple (undecided ini base value p k0 tx (snd res)) (apply_resolution p tx res)
    (\<lambda>_. replay_ok ini base value p k0) (\<lambda>k. restorable p k0 (k_outputs k))"
  unfolding apply_resolution_def
  by (auto intro!: triple_bind [OF exclude_replay [OF assms(1)]] replay_on_io include_replay [OF assms(2)] triple_lift
      intro: undecided_restorable split: SealResolution.splits TxExecutionResult.splits)

lemma roll_replay:
  assumes "truthful ini value (p_executor p)"
  shows "triple (replay_ok ini base value p k0) (roll_l2_block p) (\<lambda>_. replay_ok ini base value p k0)
    (\<lambda>k. restorable p k0 (k_outputs k))"
  by (rule triple_state [OF roll_l2_block_def], rule triple_bind [OF replay_on_io])
     (auto intro!: triple_return triple_bind [OF seal_replay] open_next_replay [OF assms])

lemma process_tx_replay:
  assumes "executor ext (p_executor p)" "truthful ini value (p_executor p)"
  shows "triple (replay_ok ini base value p k0)
    (bind_action (process_one_tx p tx) (\<lambda>res. bind_action (apply_resolution p tx res) (\<lambda>_.
       return (resolution_should_seal (fst res)))))
    (\<lambda>_. replay_ok ini base value p k0) (\<lambda>k. restorable p k0 (k_outputs k))"
proof (rule triple_bind [OF process_one_replay [OF assms(2)]])
  fix res
  show "triple ((\<lambda>(_, r). undecided ini base value p k0 tx r) res) (bind_action (apply_resolution p tx res) (\<lambda>_.
       return (resolution_should_seal (fst res))))
    (\<lambda>_. replay_ok ini base value p k0) (\<lambda>k. restorable p k0 (k_outputs k))"
    unfolding case_prod_beta by (rule triple_bind [OF apply_resolution_replay [OF assms]], rule triple_return)
qed

lemma iteration_replay:
  assumes "executor ext (p_executor p)" "truthful ini value (p_executor p)"
  shows "triple (replay_ok ini base value p k0) (process_iteration p) (\<lambda>_. replay_ok ini base value p k0)
    (\<lambda>k. restorable p k0 (k_outputs k))"
  by (rule triple_state [OF process_iteration_def], rule triple_bind [OF replay_on_io])
     (auto intro!: triple_return triple_bind [OF roll_replay [OF assms(2)]] triple_bind [OF replay_on_io]
       process_tx_replay [OF assms] split: option.splits)

lemma loop_replay:
  assumes "executor ext (p_executor p)" "truthful ini value (p_executor p)"
  shows "triple (replay_ok ini base value p k0) (process_loop p n) (\<lambda>_. replay_ok ini base value p k0)
    (\<lambda>k. restorable p k0 (k_outputs k))"
proof (induction n)
  case (Suc n)
  have "triple (replay_ok ini base value p k0) (bind_action (process_iteration p) (\<lambda>done.
        if done then return () else process_loop p n)) (\<lambda>_. replay_ok ini base value p k0) (\<lambda>k. restorable p k0 (k_outputs k))"
    by (rule triple_bind [OF iteration_replay [OF assms]]) (auto intro: triple_return Suc)
  then show ?case
    by (auto simp: triple_def replay_ok_restorable split: prod.splits outcome.splits)
qed (auto simp: triple_def replay_ok_restorable)

lemma new_replay:
  assumes "UpdatesManager_new be se = Some (updates_manager k)" "k_outputs k = []"
  shows "replay_ok ini (value (batch_executor k)) value p k k"
proof -
  have new: "xd_txs (execution_data um) = [] \<and> storage_writes_deduplicator um = StorageWritesDeduplicator_new"
    if "UpdatesManager_new be se = Some um" for um
    using that by (auto simp: execution_data_def UpdatesManager_new_def L2BlockUpdates_new_def Let_def)
  have "dd_ok ini base base StorageWritesDeduplicator_new" for base
    by (simp add: dd_ok_def dd_new_inv) (simp add: dd_base_def StorageWritesDeduplicator_new_def)
  then show ?thesis
    using new [OF assms(1)]
    by (simp add: replay_ok_def mirrored_def restorable_def assms(2) sealed_data_def sealed_def return_def same_updates_def)
qed

lemma process_l1_batch_restorable:
  assumes "executor ext (p_executor p)" "truthful ini value (p_executor p)"
    and "UpdatesManager_new be se = Some (updates_manager k)" "k_outputs k = []" "process_l1_batch p None k = (r, k')"
  shows "restorable p k (k_outputs k')"
proof -
  have run: "process_loop p (k_stop k) k = (r, k')" using assms(5) by (simp add: process_l1_batch_def)
  note t = loop_replay [OF assms(1,2), where n = "k_stop k"] and new = new_replay [OF assms(3,4)]
  show ?thesis
    using triple_Ok [OF t new, of _ k'] triple_fail [OF t new run] run replay_ok_restorable by (cases r) blast+
qed

lemma restore_blocks:
  "bs \<noteq> [] \<Longrightarrow> reexecute_blocks p True bs k = (Ok (), kr) \<Longrightarrow> restore_state p bs k = open_next_l2_block p kr"
  by (simp add: restore_state_def bind_action_def)

text \<open>
  C2. A batch without an upgrade transaction survives a restart. Take the main executor over a VM with history (rolling back to a
  snapshot gives the state of the snapshot) whose storage logs are truthful (each key is always written with the same kind, the first write
  of a transaction to a key carries the value the key has, and a key changes only by writes), and a new updates manager that has sealed nothing.
  Whatever \<open>process_l1_batch\<close> without an upgrade transaction does then (including transactions it
  executed and then rolled back, and whether or not it returns normally), for every L2 block that it sealed,
  \<open>restore_state\<close> on the blocks sealed up to then succeeds in re-executing them, and reaches the updates
  manager with which the block was sealed, up to the initial values that the deduplicator of writes remembers, before it
  waits for the next block. With an upgrade transaction this need not hold: the run records an empty call trace for it
  where the restored manager has the real one.
\<close>

theorem restore_reaches_sealed_state:
  assumes "p_executor p = main_batch_executor ext vm_ops access ex" "history_enabled vm_ops"
    and "truthful ini value (p_executor p)"
    and "UpdatesManager_new be se = Some (updates_manager k)" "k_outputs k = []" "process_l1_batch p None k = (r, k')"
  shows "\<forall>pre um post. k_outputs k' = pre @ L2BlockSealed um # post \<longrightarrow>
    (\<exists>kr. restore_state p (sealed_data (pre @ [L2BlockSealed um])) k = open_next_l2_block p kr \<and>
      reexecute_blocks p True (sealed_data (pre @ [L2BlockSealed um])) k = (Ok (), kr) \<and>
      same_updates (updates_manager kr) um)"
proof (intro allI impI)
  fix pre um post
  assume out: "k_outputs k' = pre @ L2BlockSealed um # post"
  have "executor ext (p_executor p)" unfolding assms(1) by (rule history_vm.main_executor) (rule history_vm.intro [OF assms(2)])
  from process_l1_batch_restorable [OF this assms(3-6)] out
  obtain kr where kr: "reexecute_blocks p True (sealed_data (pre @ [L2BlockSealed um])) k = (Ok (), kr)"
    "same_updates (updates_manager kr) um" unfolding restorable_def by blast
  moreover have "sealed_data (pre @ [L2BlockSealed um]) \<noteq> []" by (simp add: sealed_data_def)
  ultimately show "\<exists>kr. restore_state p (sealed_data (pre @ [L2BlockSealed um])) k = open_next_l2_block p kr \<and>
      reexecute_blocks p True (sealed_data (pre @ [L2BlockSealed um])) k = (Ok (), kr) \<and>
      same_updates (updates_manager kr) um"
    using restore_blocks by blast
qed

section \<open>A batch of one transaction\<close>

definition script_io :: "tx option StateKeeperIO" where
  "script_io = \<lparr>chain_id = 270, should_seal_l1_batch_unconditionally = (\<lambda>um io.
       (Ok (io = None \<and> executed_transactions (l2_block um) = []), io)),
     should_seal_l2_block = (\<lambda>_ io. (Ok (io = None), io)), initialize = (\<lambda>io. (Panic, io)),
     wait_for_new_batch_params = (\<lambda>_ io. (Ok None, io)),
     wait_for_new_l2_block_params = (\<lambda>cursor io.
       (Ok (Some \<lparr>params_timestamp = prev_l2_block_timestamp cursor + 1, params_virtual_blocks = 1\<rparr>), io)),
     wait_for_next_tx = (\<lambda>io. (Ok io, None)), io_rollback = (\<lambda>_ io. (Ok (), io)), io_reject = (\<lambda>_ _ io. (Ok (), io)),
     load_base_system_contracts = (\<lambda>_ io. (Ok (0, 0), io)), load_batch_version_id = (\<lambda>_ io. (Ok Version24, io)),
     io_load_upgrade_tx = (\<lambda>_ io. (Ok None, io)), load_batch_state_hash = (\<lambda>_ io. (Ok None, io))\<rparr>"

definition script_parts :: "(tx option, (nat, nat) VmInstance BatchExecutorHandle) Parts" where
  "script_parts = \<lparr>p_ext = demo_ext, p_hw = 0, p_io = script_io, p_executor = demo_executor, p_handlers = [],
     p_sealer = NoopSealer\<rparr>"

definition script_keeper :: "(tx option, (nat, nat) VmInstance BatchExecutorHandle) ZkSyncStateKeeper" where
  "script_keeper = \<lparr>k_io = Some (demo_tx 0), batch_executor = Running \<lparr>vm_state = 0, snapshots = []\<rparr>,
     updates_manager = the (UpdatesManager_new demo_batch_env demo_system_env), k_outputs = [], k_stop = 4\<rparr>"

definition demo_criteria :: "u32 \<Rightarrow> ExecutionMetricsForCriteria" where
  "demo_criteria n = the (ExecutionMetricsForCriteria_new demo_ext (Some (demo_tx n)) (demo_result []))"

lemma demo_criteria_eq: "ExecutionMetricsForCriteria_new demo_ext (Some (demo_tx n)) (demo_result []) = Some (demo_criteria n)"
  using demo_metrics [of demo_ext "Some (demo_tx n)" "[]"] by (auto simp: demo_criteria_def)

lemma demo_execute:
  "execute_tx demo_executor (demo_tx n) (Running vm) =
     (Ok (TxSuccess (demo_result []) (demo_criteria n) [] [] 500000000),
      Running (vm\<lparr>vm_state := vm_state vm + 1, snapshots := vm_state vm # snapshots vm\<rparr>))"
proof -
  have "tx_gas_limit (demo_tx n) = 80000000" "result (demo_result []) = ResultSuccess []"
    by (simp_all add: demo_tx_def demo_tx_data_def demo_result_def)
  then show ?thesis
    by (simp add: demo_executor_def main_batch_executor_def receiver_execute_tx_def execute_tx_in_vm_def inspect_def
      make_snapshot_def executed_result_def demo_vm_def demo_criteria_eq)
qed

lemma demo_measure:
  "storage_writes_deduplicator um = StorageWritesDeduplicator_new \<Longrightarrow>
   seal_resolution script_parts (demo_tx n) (TxSuccess (demo_result []) m [] [] gas_left) um = Some (NoSeal, um)"
  by (cases um) (simp add: demo_result_def script_parts_def apply_and_rollback_def apply_on_empty_state_def dd_apply_def dd_rollback_def
   StorageWritesDeduplicator_new_def)

lemma script_included:
  assumes "k_io k = Some (demo_tx 0)" "batch_executor k = Running vm"
    "storage_writes_deduplicator (updates_manager k) = StorageWritesDeduplicator_new"
  shows "\<exists>um vm'. process_iteration script_parts k =
     (Ok False, k\<lparr>k_io := None, batch_executor := Running vm', updates_manager := um\<rparr>) \<and>
     executed_transactions (l2_block um) \<noteq> []"
proof -
  let ?m = "demo_criteria 0"
  have "dd_apply [] (storage_writes_deduplicator (updates_manager k)) = Some (storage_writes_deduplicator (updates_manager k))"
    by (simp add: dd_apply_def)
  from demo_extend [OF this] obtain um where um:
    "extend_from_executed_transaction demo_ext (demo_tx 0) (demo_result []) [] (l1_gas ?m) (criteria_metrics ?m) [] (updates_manager k) = Some um"
    by blast
  then have "executed_transactions (l2_block um) \<noteq> []" by (elim extend_Some) (auto dest!: executed_append)
  moreover from um have "extend_updates script_parts (demo_tx 0) (demo_result []) [] ?m [] (k\<lparr>k_io := io, batch_executor := h\<rparr>) =
     (Ok (), k\<lparr>k_io := io, batch_executor := h, updates_manager := um\<rparr>)" for io h
    by (simp add: extend_updates_def set_updates_def script_parts_def)
  moreover have "p_io script_parts = script_io" "p_executor script_parts = demo_executor" by (simp_all add: script_parts_def)
  ultimately show ?thesis
    by (simp add: process_iteration_def roll_l2_block_def bind_action_def on_io_def script_io_def return_def
        process_one_tx_def on_executor_def assms demo_execute demo_measure apply_resolution_def del: seal_resolution.simps)
       (intro exI conjI, rule refl, assumption)
qed

lemma script_sealed:
  assumes "k_io k = None" "batch_executor k = Running vm" "k_stop k = Suc (Suc 0)" "executed_transactions (l2_block (updates_manager k)) \<noteq> []"
  shows "\<exists>k'. process_iteration script_parts k = (Ok False, k') \<and> k_outputs k' = k_outputs k @ [L2BlockSealed (updates_manager k)] \<and>
    k_stop k' = Suc 0 \<and> k_io k' = None \<and> executed_transactions (l2_block (updates_manager k')) = []"
  using assms
  by (simp add: process_iteration_def roll_l2_block_def bind_action_def on_io_def script_parts_def script_io_def return_def
      seal_l2_block_def handle_output_def Let_def open_next_l2_block_def keeper_wait_for_new_l2_block_params_def
      is_canceled_def polled_def keeper_start_next_l2_block_def on_executor_def demo_executor_def main_batch_executor_def
      of_result_def push_l2_block_def L2BlockUpdates_new_def)

lemma script_finished:
  assumes "k_io k = None" "executed_transactions (l2_block (updates_manager k)) = []"
  shows "process_iteration script_parts k = (Ok True, k)"
  using assms by (simp add: process_iteration_def bind_action_def on_io_def script_parts_def script_io_def return_def)

lemma script_run: "\<exists>um k. process_l1_batch script_parts None script_keeper = (Ok (), k) \<and> k_outputs k = [L2BlockSealed um]"
proof -
  let ?k = "polled script_keeper"
  have k: "k_io ?k = Some (demo_tx 0)" "batch_executor ?k = Running \<lparr>vm_state = 0, snapshots = []\<rparr>" "k_outputs ?k = []"
    "k_stop ?k = Suc (Suc (Suc 0))" "storage_writes_deduplicator (updates_manager ?k) = StorageWritesDeduplicator_new"
    by (simp_all add: script_keeper_def polled_def UpdatesManager_new_def demo_batch_env_def get_batch_base_fee_def)
  obtain um vm where one: "process_iteration script_parts ?k =
      (Ok False, ?k\<lparr>k_io := None, batch_executor := Running vm, updates_manager := um\<rparr>)" (is "_ = (_, ?k1)")
    and um: "executed_transactions (l2_block um) \<noteq> []"
    using script_included [OF k(1,2,5)] by blast
  obtain k2 where two: "process_iteration script_parts (polled ?k1) = (Ok False, k2)" "k_outputs k2 = [L2BlockSealed um]"
    "k_stop k2 = Suc 0" "k_io k2 = None" "executed_transactions (l2_block (updates_manager k2)) = []"
    using script_sealed [of "polled ?k1" vm] k(3,4) um by (auto simp: polled_def script_keeper_def)
  have "process_iteration script_parts (polled k2) = (Ok True, polled k2)"
    by (rule script_finished) (simp_all add: polled_def two(4,5))
  moreover have "k_stop script_keeper = Suc (Suc (Suc (Suc 0)))" by (simp add: script_keeper_def)
  ultimately have "process_l1_batch script_parts None script_keeper = (Ok (), polled k2)"
    using one two(1,3) k(4)
    by (simp add: process_l1_batch_def bind_action_def is_canceled_def return_def)
  then show ?thesis using two(2) by (simp add: polled_def)
qed

lemma demo_truthful: "truthful (\<lambda>_. False) (\<lambda>_ _. 0) demo_executor"
  unfolding truthful_def demo_executor_def
  by (auto elim!: main_execute_Ok simp: receiver_execute_tx_def execute_tx_in_vm_def inspect_def demo_vm_def
      executed_result_def demo_result_def kinds_ok_def writes_to_def)

theorem restore_reaches_sealed_state_witness:
  "\<exists>um k' kr. process_l1_batch script_parts None script_keeper = (Ok (), k') \<and> k_outputs k' = [L2BlockSealed um] \<and>
     restore_state script_parts [execution_data um] script_keeper = open_next_l2_block script_parts kr \<and>
     same_updates (updates_manager kr) um"
proof -
  have new: "UpdatesManager_new demo_batch_env demo_system_env = Some (updates_manager script_keeper)" "k_outputs script_keeper = []"
    by (simp_all add: script_keeper_def UpdatesManager_new_def demo_batch_env_def get_batch_base_fee_def)
  have exec: "p_executor script_parts = main_batch_executor demo_ext demo_vm (\<lambda>_. Inr True)
     \<lparr>save_call_traces = False, optional_bytecode_compression = False\<rparr>" "history_enabled demo_vm"
    "truthful (\<lambda>_. False) (\<lambda>_ _. 0) (p_executor script_parts)"
    using demo_truthful by (simp_all add: script_parts_def demo_executor_def history_enabled_def demo_vm_def)
  obtain um k' where run: "process_l1_batch script_parts None script_keeper = (Ok (), k')" "k_outputs k' = [L2BlockSealed um]"
    using script_run by blast
  have "sealed_data [L2BlockSealed um] = [execution_data um]" by (simp add: sealed_data_def sealed_def map_filter_simps)
  then show ?thesis
    using restore_reaches_sealed_state [OF exec new run(1), rule_format, of "[]" um "[]"] run by auto
qed

end
