(* ===== verification/Spec2Isabelle.thy ===== *)
theory Spec2Isabelle
  imports DataAvailabilityProtocol MiniMerkleTree MerkleProofs MempoolService KeeperLimits KeeperRestore
begin

text \<open>
  \<^bold>\<open>A verification library for zk-thunder\<close>, a fork of the ZKsync Era node that publishes the data of its L1 batches
  through IPFS and Mintlayer. All paths below are relative to \<open>src/core\<close>.

  \<^bold>\<open>The program.\<close> The state keeper (\<open>node/state_keeper\<close>) takes transactions from the mempool (\<open>lib/mempool\<close>), executes them
  in the VM through a batch executor, asks the seal criteria whether the batch goes on, collects the effects in
  an updates manager and hands sealed L2 blocks and L1 batches to its output handlers. The criteria rest on execution
  metrics, on the deduplicated storage writes (\<open>lib/types\<close>), on the limits of the VM versions (\<open>lib/multivm\<close>) and on the
  protocol version; the pubdata that is counted is the one that the state diff compression produces. Priority operations are
  committed by a mini Merkle tree (\<open>lib/mini_merkle_tree\<close>). The data-availability worker (\<open>node/eth_sender/src/data_availability\<close>)
  uploads batch data to IPFS and submits the hashes to Mintlayer, through tables of the database (\<open>lib/dal\<close>).

  \<^bold>\<open>Conventions.\<close> A \<open>Result\<close> is a sum with the error on the left, or an \<open>outcome\<close> where panics matter as well; a panic
  is \<open>None\<close> or \<open>Panic\<close>. Machine integers are words of their width; \<open>usize\<close> counters of collections are natural numbers.
  A hash map is an association list. Code outside the repository (hash functions, the ABI encoder, the VM, the database, the
  clock, IPFS and Mintlayer) is a parameter. The interfaces between components are locales, interpreted on the
  definitions of the component that provides them.

  \<^item> \<open>Prelude\<close>, \<open>Bytes\<close>: shared lemmas, the locales of event systems (\<open>machine\<close>, \<open>guarded_machine\<close> for runs under a condition on their
    events, \<open>total_machine\<close> for runs that do not fail) with their invariant rules, big-endian bytes of words.
  \<^item> \<open>DataAvailabilityDal\<close> (\<open>lib/dal/src/data_availability_dal.rs\<close>), \<open>DataAvailabilityWorker\<close> and \<open>DataAvailabilityProtocol\<close>
    (\<open>node/eth_sender/src/data_availability/worker.rs\<close>): the tables and their queries, the circuit breaker, retries with
    backoff, and the interleaving of the IPFS and Mintlayer loops as steps \<open>da_apply\<close>. Shown: no hash is lost when batch updates are
    exclusive, and a hash is lost by an interleaving of the real loops; reachable tables are well-formed and their queries do
    not panic; each iteration refines the steps; the backoff delays and the breaker are characterised exactly. The retry loops terminate by the
    configured number of retries.
  \<^item> \<open>Mempool\<close>, \<open>MempoolService\<close> (\<open>lib/mempool/src\<close>): accounts, priority queue, stashed accounts, insertion, choice, rollback, garbage
    collection, and the calls of the fetcher and of the state keeper in any order as events \<open>mp_step\<close>. Shown, for runs whose events are
    \<open>sound_event\<close>s (no upgrade is inserted, no collection purges the account of the transaction in the hand of the state keeper, no
    transaction with the last nonce is rolled back): no call panics, the queue holds exactly the scores of the next expected
    transactions, no waiting transaction starves. Shown for every store that satisfies the invariant: when a collection makes a rollback
    panic, the choice of \<open>next_transaction\<close>, and that a returned transaction is served again.
  \<^item> \<open>MiniMerkleTree\<close> (\<open>lib/mini_merkle_tree/src/lib.rs\<close>): the tree with its cached left sides against a reference tree over all leaves; roots,
    paths, ranges, binding of the root unless two pairs hashed in the trees collide, the exact panics of \<open>trim_start\<close>.
  \<^item> \<open>MerkleHash\<close>, \<open>MerkleProofs\<close> (\<open>lib/merkle_tree/src/hasher\<close>): the hasher of the persistent tree of depth 256 with the contract \<open>hash_tree\<close>,
    hashing of internal nodes with 16 children with and without their cache, and the verification of entries, block outputs and
    key ranges, against the full binary tree. Shown: a node has the hash of its subtree and updating the cache agrees with hashing from scratch; accepted proofs are
    right provided that the inputs hashed do not collide; range digests of a tree give its root.
  \<^item> \<open>StateDiffs\<close> (\<open>lib/types/src/storage/writes\<close>): compression of values and of state diff records with a decoder and round trips.
  \<^item> \<open>WritesDeduplicator\<close> (\<open>lib/types/src/storage_writes_deduplicator.rs\<close>): for logs that write each key always with the same kind the counters are exact; rollback restores, the
    size is the size of the compressed diffs.
  \<^item> \<open>ProtocolVersions\<close> (\<open>lib/basic_types/src/protocol_version.rs\<close>), \<open>VmVersions\<close> (\<open>lib/multivm/src/utils.rs\<close> and the constants of the
    VM versions), \<open>FeeModel\<close> (\<open>lib/multivm/src/utils.rs\<close>, \<open>lib/types/src/fee_model.rs\<close>): round trips of semantic versions,
    the constants of each VM version and the limits computed from them, price bounds.
  \<^item> \<open>Floats\<close>, \<open>ExecutionMetrics\<close>, \<open>SealCriteria\<close> (\<open>node/state_keeper/src/seal_criteria\<close>, \<open>utils.rs\<close>): rounding of \<open>f32\<close> and \<open>f64\<close> over
    the rationals, metrics and L1 gas, the six criteria and the sealers. Shown: the resolution is the strictest one, and an
    accepted batch fits its limits.
  \<^item> \<open>Transactions\<close> (\<open>lib/types/src/lib.rs\<close>, \<open>vm_latest/types/internals/transaction_data.rs\<close>): the encoding for the bootloader has
    exactly the estimated length, for every ABI encoder with the lengths of the standard encoding.
  \<^item> \<open>Updates\<close> (\<open>node/state_keeper/src/updates\<close>): the updates manager as an event machine whose totals stay well-formed.
  \<^item> \<open>Actions\<close>, \<open>BatchExecutor\<close> (\<open>batch_executor\<close>), \<open>KeeperIO\<close> (\<open>io/mempool.rs\<close> and the I/O sealers), \<open>StateKeeper\<close> (\<open>keeper.rs\<close>,
    \<open>io/output_handler.rs\<close>): actions with failures and panics and their Hoare triples; the executor thread with snapshots and the contract \<open>executor\<close>;
    the mempool I/O with the contract \<open>keeper_io\<close>; the whole main loop. Shown: \<open>sleep_past\<close> returns, and sealed blocks
    form a chain over a whole run.
  \<^item> \<open>KeeperLimits\<close>: batches stay within the limits of the criteria. \<open>KeeperRestore\<close>: restoring a batch without an upgrade transaction
    after a restart reaches the state in which its last block was sealed, for a VM with history and truthful storage logs.

  \<^bold>\<open>Bounds.\<close> Loops that wait for something poll the stop signal or a timeout: they recurse on \<open>k_stop\<close>, the number of times
  the signal is still off, and on the number of rounds before a timeout. Both are arbitrary, so every finite run is covered, and
  the properties of the state keeper hold however a run ends. The loop of \<open>sleep_past\<close> has fuel, and every positive fuel gives
  the same result if the clock advances by the requested sleeps; the timeout around it is a separate definition.

  \<^bold>\<open>Not modelled.\<close> The zkEVM itself, SQL, network protocols, metrics and logging; the storage of the persistent Merkle tree, the L1 sender and
  watcher, consensus, the API server and the prover pipeline. Circuit statistics are added in the order of the source with rounding,
  so no statement relies on floating-point addition being associative.
\<close>

end
